(* ===== verification/Prelude.thy ===== *)
theory Prelude
  imports Main "HOL-Library.AList" "HOL-Library.Word"
begin

text \<open>
  Shared ground of the development of saber: the machine integers of the code, the model of
  \<^verbatim>\<open>std::unordered_map\<close> and \<^verbatim>\<open>std::unordered_set\<close>, the string helpers of the C++ library that the
  sources call (\<^verbatim>\<open>find_last_of\<close>, \<^verbatim>\<open>snprintf("%010d")\<close>), and the generic lemmas that every component
  uses. A hash map is an association list with distinct keys and a hash set a distinct list: the
  list is the order in which the container would be iterated. C++ leaves that order open; the
  theorems below quantify over every state, hence over every order of the stored elements.
\<close>

named_theorems umap_simps \<open>reading a container after a write\<close>
named_theorems saber_inv \<open>operations keep the invariant of their component\<close>

section \<open>Integers and strings\<close>

type_synonym u16 = "16 word"
type_synonym u32 = "32 word"
type_synonym u64 = "64 word"
type_synonym i32 = "32 word"
type_synonym bytes = string

abbreviation (input) slash :: char where
  "slash \<equiv> CHR ''/''"

section \<open>Unordered containers\<close>

type_synonym ('k, 'v) umap = "('k \<times> 'v) list"
type_synonym 'a uset = "'a list"

abbreviation um_find :: "('k, 'v) umap \<Rightarrow> 'k \<Rightarrow> 'v option" where
  "um_find \<equiv> map_of"

definition um_set :: "'k \<Rightarrow> 'v \<Rightarrow> ('k, 'v) umap \<Rightarrow> ('k, 'v) umap" where
  "um_set k v m = AList.update k v m"

definition um_erase :: "'k \<Rightarrow> ('k, 'v) umap \<Rightarrow> ('k, 'v) umap" where
  "um_erase k m = AList.delete k m"

definition us_insert :: "'a \<Rightarrow> 'a uset \<Rightarrow> 'a uset" where
  "us_insert x s = (if x \<in> set s then s else s @ [x])"

definition us_erase :: "'a \<Rightarrow> 'a uset \<Rightarrow> 'a uset" where
  "us_erase x s = removeAll x s"

definition um_wf :: "('k, 'v) umap \<Rightarrow> bool" where
  "um_wf m \<longleftrightarrow> distinct (map fst m)"

text \<open>Evaluation rules, so that closed states compute by \<^theory_text>\<open>simp\<close>.\<close>

lemma um_set_eval:
  "um_set k v [] = [(k, v)]"
  "um_set k v ((k', v') # m) = (if k' = k then (k, v) # m else (k', v') # um_set k v m)"
  by (simp_all add: um_set_def)

lemma um_erase_eval:
  "um_erase k [] = []"
  "um_erase k ((k', v') # m) = (if k' = k then um_erase k m else (k', v') # um_erase k m)"
  by (simp_all add: um_erase_def)

lemma find_um_set [simp, umap_simps]: "um_find (um_set k v m) = (um_find m)(k \<mapsto> v)"
  by (simp add: um_set_def update_conv')

lemma find_um_erase [simp, umap_simps]: "um_find (um_erase k m) = (um_find m)(k := None)"
  by (simp add: um_erase_def delete_conv')

lemma wf_um_empty [simp]: "um_wf []"
  by (simp add: um_wf_def)

lemma wf_um_set [simp, saber_inv]: "um_wf m \<Longrightarrow> um_wf (um_set k v m)"
  by (simp add: um_wf_def um_set_def distinct_update)

lemma wf_um_erase [simp, saber_inv]: "um_wf m \<Longrightarrow> um_wf (um_erase k m)"
  by (simp add: um_wf_def um_erase_def distinct_delete)

lemma um_find_in_set: "um_wf m \<Longrightarrow> (k, v) \<in> set m \<longleftrightarrow> um_find m k = Some v"
  by (auto simp: um_wf_def dest: map_of_SomeD)

lemma um_keys_find: "k \<in> fst ` set m \<longleftrightarrow> (\<exists>v. um_find m k = Some v)"
  by (metis domIff dom_map_of_conv_image_fst option.exhaust option.distinct(1))

lemma set_us_insert [simp, umap_simps]: "set (us_insert x s) = insert x (set s)"
  by (auto simp: us_insert_def)

lemma set_us_erase [simp, umap_simps]: "set (us_erase x s) = set s - {x}"
  by (simp add: us_erase_def)

lemma distinct_us_insert [simp, saber_inv]: "distinct s \<Longrightarrow> distinct (us_insert x s)"
  by (simp add: us_insert_def)

lemma distinct_us_erase [simp, saber_inv]: "distinct s \<Longrightarrow> distinct (us_erase x s)"
  by (simp add: us_erase_def distinct_removeAll)

lemma length_us_insert: "x \<notin> set s \<Longrightarrow> length (us_insert x s) = Suc (length s)"
  by (simp add: us_insert_def)

section \<open>String helpers of the C++ library\<close>

fun find_last_of :: "string \<Rightarrow> char \<Rightarrow> nat option" where
  "find_last_of [] c = None"
| "find_last_of (x # xs) c =
     (case find_last_of xs c of
        Some i \<Rightarrow> Some (Suc i)
      | None \<Rightarrow> (if x = c then Some 0 else None))"

lemma find_last_of_None: "find_last_of s c = None \<longleftrightarrow> c \<notin> set s"
  by (induction s) (auto split: option.splits)

lemma find_last_of_Some:
  "find_last_of s c = Some i \<longleftrightarrow>
     i < length s \<and> s = take i s @ c # drop (Suc i) s \<and> c \<notin> set (drop (Suc i) s)"
proof (induction s arbitrary: i)
  case Nil
  then show ?case by simp
next
  case (Cons x xs)
  show ?case
  proof (cases i)
    case 0
    then show ?thesis
      using find_last_of_None [of xs c] by (cases "find_last_of xs c") auto
  next
    case (Suc j)
    have "find_last_of (x # xs) c = Some i \<longleftrightarrow> find_last_of xs c = Some j"
      using Suc by (auto split: option.splits)
    then show ?thesis using Cons.IH Suc by simp
  qed
qed

lemma find_last_of_append:
  "c \<notin> set t \<Longrightarrow> find_last_of (s @ c # t) c = Some (length s)"
  by (induction s) (auto simp: find_last_of_None split: option.splits)

text \<open>\<^verbatim>\<open>"%010d"\<close>: decimal, padded with zeros to ten characters, the sign counted.\<close>

definition digit_char :: "nat \<Rightarrow> char" where
  "digit_char d = char_of (48 + d)"

fun show_nat :: "nat \<Rightarrow> string" where
  "show_nat n = (if n < 10 then [digit_char n] else show_nat (n div 10) @ [digit_char (n mod 10)])"

declare show_nat.simps [simp del]

definition zero_pad :: "nat \<Rightarrow> string \<Rightarrow> string" where
  "zero_pad w s = replicate (w - length s) (CHR ''0'') @ s"

definition fmt_010d :: "int \<Rightarrow> string" where
  "fmt_010d i =
     (if 0 \<le> i then zero_pad 10 (show_nat (nat i))
      else CHR ''-'' # zero_pad 9 (show_nat (nat (- i))))"

lemma digit_char_inj: "d < 10 \<Longrightarrow> e < 10 \<Longrightarrow> digit_char d = digit_char e \<longleftrightarrow> d = e"
  by (simp add: digit_char_def char_of_eq_iff of_char_of take_bit_eq_mod)

lemma digit_char_neq_slash: "d < 10 \<Longrightarrow> digit_char d \<noteq> slash"
  by (auto simp: digit_char_def char_of_eq_iff take_bit_eq_mod)

lemma slash_not_in_show_nat: "slash \<notin> set (show_nat n)"
proof (induction n rule: show_nat.induct)
  case (1 n)
  then show ?case by (subst show_nat.simps) (auto simp: digit_char_neq_slash dest: sym)
qed

lemma slash_not_in_fmt: "slash \<notin> set (fmt_010d i)"
  by (auto simp: fmt_010d_def zero_pad_def slash_not_in_show_nat)

text \<open>Reading the digits back: the padded number determines its value.\<close>

definition digits_value :: "string \<Rightarrow> nat" where
  "digits_value s = foldl (\<lambda>a c. a * 10 + (of_char c - 48)) 0 s"

lemma digit_char_value: "d < 10 \<Longrightarrow> of_char (digit_char d) = 48 + d"
  by (simp add: digit_char_def of_char_of take_bit_eq_mod)

lemma digits_value_show_nat: "digits_value (show_nat n) = n"
proof (induction n rule: show_nat.induct)
  case (1 n)
  then show ?case
    by (subst show_nat.simps) (auto simp: digits_value_def digit_char_value)
qed

lemma digits_value_zero_pad: "digits_value (zero_pad w s) = digits_value s"
proof -
  have "foldl (\<lambda>a c. a * 10 + (of_char c - 48)) (0::nat) (replicate k (CHR ''0'')) = 0" for k
    by (induction k) simp_all
  then show ?thesis by (simp add: digits_value_def zero_pad_def)
qed

lemma length_show_nat: "n < 10 ^ Suc k \<Longrightarrow> length (show_nat n) \<le> Suc k"
proof (induction k arbitrary: n)
  case 0
  then show ?case by (subst show_nat.simps) simp
next
  case (Suc k)
  have "n div 10 < 10 ^ Suc k" using Suc.prems by (simp add: less_mult_imp_div_less mult.commute)
  then have "length (show_nat (n div 10)) \<le> Suc k" by (rule Suc.IH)
  then show ?case by (subst show_nat.simps) simp
qed

lemma length_zero_pad: "length (zero_pad w s) = max w (length s)"
  by (simp add: zero_pad_def)

lemma fmt_010d_nonneg: "0 \<le> i \<Longrightarrow> i < 10 ^ 10 \<Longrightarrow> length (fmt_010d i) = 10"
  using length_show_nat [of "nat i" 9] by (simp add: fmt_010d_def length_zero_pad nat_less_iff)

lemma fmt_010d_length: "\<bar>i\<bar> < 10 ^ 10 \<Longrightarrow> length (fmt_010d i) \<le> 11"
  using length_show_nat [of "nat i" 9] length_show_nat [of "nat (- i)" 9]
  by (auto simp: fmt_010d_def length_zero_pad nat_less_iff)

lemma fmt_010d_inj: "0 \<le> i \<Longrightarrow> 0 \<le> j \<Longrightarrow> fmt_010d i = fmt_010d j \<Longrightarrow> i = j"
  by (metis digits_value_show_nat digits_value_zero_pad fmt_010d_def nat_eq_iff)

end
