(* ===== verification/Buckets.thy ===== *)
theory Buckets
  imports Prelude
begin

text \<open>
  The map of sets that the code keeps five times: the children of a node and the ephemerals of a
  session in \<^verbatim>\<open>DataTree\<close>, both indexes of \<^verbatim>\<open>ServerWatchManager\<close> and the watch tables of
  \<^verbatim>\<open>ClientWatchManager\<close>. The theory gives the three ways the sources write to it
  (\<^verbatim>\<open>m[k]\<close>, \<^verbatim>\<open>m[k].insert(v)\<close> and "erase v, and the bucket when it gets empty"), reads it as a
  relation between keys and values, and states the laws its clients use as the locale
  \<open>bucket_store\<close>.
\<close>

type_synonym ('k, 'v) buckets = "('k, 'v uset) umap"

definition bk_at :: "('k, 'v) buckets \<Rightarrow> 'k \<Rightarrow> 'v uset" where
  "bk_at m k = (case um_find m k of None \<Rightarrow> [] | Some s \<Rightarrow> s)"

definition bk_touch :: "'k \<Rightarrow> ('k, 'v) buckets \<Rightarrow> ('k, 'v) buckets" where
  "bk_touch k m = (case um_find m k of None \<Rightarrow> um_set k [] m | Some s \<Rightarrow> m)"

definition bk_insert :: "'k \<Rightarrow> 'v \<Rightarrow> ('k, 'v) buckets \<Rightarrow> ('k, 'v) buckets" where
  "bk_insert k v m = um_set k (us_insert v (bk_at m k)) m"

definition bk_remove :: "'k \<Rightarrow> 'v \<Rightarrow> ('k, 'v) buckets \<Rightarrow> ('k, 'v) buckets" where
  "bk_remove k v m =
     (case um_find m k of
        None \<Rightarrow> m
      | Some s \<Rightarrow> (let s' = us_erase v s in if s' = [] then um_erase k m else um_set k s' m))"

definition bk_rel :: "('k, 'v) buckets \<Rightarrow> ('k \<times> 'v) set" where
  "bk_rel m = {(k, v). v \<in> set (bk_at m k)}"

definition bk_wf :: "('k, 'v) buckets \<Rightarrow> bool" where
  "bk_wf m \<longleftrightarrow> um_wf m \<and> (\<forall>k. distinct (bk_at m k))"

definition bk_tight :: "('k, 'v) buckets \<Rightarrow> bool" where
  "bk_tight m \<longleftrightarrow> (\<forall>k. um_find m k \<noteq> Some [])"

section \<open>Reading after a write\<close>

lemma bk_at_empty [simp]: "bk_at [] k = []"
  by (simp add: bk_at_def)

lemma bk_at_touch [simp]: "bk_at (bk_touch k m) j = bk_at m j"
  by (auto simp: bk_at_def bk_touch_def split: option.splits)

lemma bk_at_insert: "bk_at (bk_insert k v m) j = (if j = k then us_insert v (bk_at m k) else bk_at m j)"
  by (simp add: bk_at_def bk_insert_def)

lemma bk_at_remove: "bk_at (bk_remove k v m) j = (if j = k then us_erase v (bk_at m k) else bk_at m j)"
  by (auto simp: bk_at_def bk_remove_def us_erase_def Let_def split: option.splits)

lemma bk_at_erase: "bk_at (um_erase k m) j = (if j = k then [] else bk_at m j)"
  by (simp add: bk_at_def)

lemma bk_rel_iff [simp]: "(k, v) \<in> bk_rel m \<longleftrightarrow> v \<in> set (bk_at m k)"
  by (simp add: bk_rel_def)

lemma bk_rel_empty [simp]: "bk_rel [] = {}"
  by (simp add: bk_rel_def)

lemma bk_rel_touch [simp]: "bk_rel (bk_touch k m) = bk_rel m"
  by (simp add: bk_rel_def)

lemma bk_rel_insert [simp]: "bk_rel (bk_insert k v m) = insert (k, v) (bk_rel m)"
  by (auto simp: bk_rel_def bk_at_insert split: if_splits)

lemma bk_rel_remove [simp]: "bk_rel (bk_remove k v m) = bk_rel m - {(k, v)}"
  by (auto simp: bk_rel_def bk_at_remove split: if_splits)

lemma bk_rel_erase [simp]: "bk_rel (um_erase k m) = bk_rel m - {k} \<times> UNIV"
  by (auto simp: bk_rel_def bk_at_erase split: if_splits)

lemma find_bk_insert: "um_find (bk_insert k v m) = (um_find m)(k \<mapsto> us_insert v (bk_at m k))"
  by (simp add: bk_insert_def)

lemma find_bk_touch: "um_find (bk_touch k m) = (um_find m)(k \<mapsto> bk_at m k)"
  by (auto simp: bk_touch_def bk_at_def fun_eq_iff split: option.splits)

lemma find_bk_remove:
  "um_find (bk_remove k v m) j =
     (if j = k \<and> us_erase v (bk_at m k) = [] then None
      else if j = k then Some (us_erase v (bk_at m k)) else um_find m j)"
  by (auto simp: bk_remove_def bk_at_def us_erase_def Let_def split: option.splits)

lemma find_bk_remove_sub: "x \<in> dom (um_find (bk_remove k v m)) \<Longrightarrow> um_find m x \<noteq> None"
  by (auto simp: bk_remove_def Let_def split: option.splits if_splits)

lemma bk_touch_id: "bk_at m k \<noteq> [] \<Longrightarrow> bk_touch k m = m"
  by (auto simp: bk_at_def bk_touch_def split: option.splits)

section \<open>Well-formedness and tightness\<close>

lemma bk_wf_empty [simp]: "bk_wf []"
  by (simp add: bk_wf_def)

lemma bk_wf_touch [simp, saber_inv]: "bk_wf m \<Longrightarrow> bk_wf (bk_touch k m)"
  by (auto simp: bk_wf_def bk_touch_def bk_at_def split: option.splits)

lemma bk_wf_insert [simp, saber_inv]: "bk_wf m \<Longrightarrow> bk_wf (bk_insert k v m)"
  by (simp add: bk_wf_def bk_at_insert) (simp add: bk_insert_def)

lemma bk_wf_erase [simp, saber_inv]: "bk_wf m \<Longrightarrow> bk_wf (um_erase k m)"
  by (simp add: bk_wf_def bk_at_erase)

lemma bk_wf_remove [simp, saber_inv]: "bk_wf m \<Longrightarrow> bk_wf (bk_remove k v m)"
  by (simp add: bk_wf_def bk_at_remove) (simp add: bk_remove_def Let_def split: option.splits)

lemma bk_tight_empty [simp]: "bk_tight []"
  by (simp add: bk_tight_def)

lemma bk_tight_insert [simp, saber_inv]: "bk_tight m \<Longrightarrow> bk_tight (bk_insert k v m)"
  by (auto simp: bk_tight_def find_bk_insert us_insert_def)

lemma bk_tight_insert_touch [simp, saber_inv]:
  "bk_tight m \<Longrightarrow> bk_tight (bk_insert k v (bk_touch k m))"
  by (auto simp: bk_tight_def find_bk_insert find_bk_touch us_insert_def split: if_splits)

lemma bk_tight_erase [simp, saber_inv]: "bk_tight m \<Longrightarrow> bk_tight (um_erase k m)"
  by (simp add: bk_tight_def)

lemma bk_tight_remove [simp, saber_inv]: "bk_tight m \<Longrightarrow> bk_tight (bk_remove k v m)"
  by (auto simp: bk_tight_def find_bk_remove)

lemma bk_tight_find: "bk_tight m \<Longrightarrow> um_find m k = None \<longleftrightarrow> bk_at m k = []"
  by (auto simp: bk_tight_def bk_at_def split: option.splits)

section \<open>The contract of a map of sets\<close>

text \<open>
  What the clients rely on: a relation \<open>rel\<close> that insertion, removal of one pair and removal of a
  whole key change as sets of pairs do. The loops of the sources that remove a list of pairs are
  folds of \<open>del\<close>; their effect on the relation is proved once, here.
\<close>

locale bucket_store =
  fixes emp :: 'm
    and add :: "'k \<Rightarrow> 'v \<Rightarrow> 'm \<Rightarrow> 'm"
    and del :: "'k \<Rightarrow> 'v \<Rightarrow> 'm \<Rightarrow> 'm"
    and drop_key :: "'k \<Rightarrow> 'm \<Rightarrow> 'm"
    and rel :: "'m \<Rightarrow> ('k \<times> 'v) set"
    and ok :: "'m \<Rightarrow> bool"
  assumes rel_emp: "rel emp = {}"
    and rel_add: "rel (add k v m) = insert (k, v) (rel m)"
    and rel_del: "rel (del k v m) = rel m - {(k, v)}"
    and rel_drop: "rel (drop_key k m) = rel m - {k} \<times> UNIV"
    and ok_emp: "ok emp"
    and ok_add: "ok m \<Longrightarrow> ok (add k v m)"
    and ok_del: "ok m \<Longrightarrow> ok (del k v m)"
    and ok_drop: "ok m \<Longrightarrow> ok (drop_key k m)"
begin

lemma rel_del_keys: "rel (fold (\<lambda>k. del k v) ks m) = rel m - set ks \<times> {v}"
  by (induction ks arbitrary: m) (auto simp: rel_del)

lemma rel_add_vals: "rel (fold (add k) vs m) = rel m \<union> {k} \<times> set vs"
  by (induction vs arbitrary: m) (auto simp: rel_add)

lemma ok_del_keys: "ok m \<Longrightarrow> ok (fold (\<lambda>k. del k v) ks m)"
  by (induction ks arbitrary: m) (simp_all add: ok_del)

lemma ok_add_vals: "ok m \<Longrightarrow> ok (fold (add k) vs m)"
  by (induction vs arbitrary: m) (simp_all add: ok_add)

end

interpretation bk: bucket_store "[]" bk_insert bk_remove um_erase bk_rel "\<lambda>m. bk_wf m \<and> bk_tight m"
  by unfold_locales auto

text \<open>A key that still has a value besides \<open>v\<close>, or any value at all in a tight map, is found.\<close>

lemma bk_at_del_other:
  "k \<notin> set ks \<Longrightarrow> bk_at (fold (\<lambda>k. bk_remove k v) ks m) k = bk_at m k"
  by (induction ks arbitrary: m) (auto simp: bk_at_remove)

lemma bk_find_del_other:
  "k \<notin> set ks \<Longrightarrow> um_find (fold (\<lambda>k. bk_remove k v) ks m) k = um_find m k"
  by (induction ks arbitrary: m) (auto simp: find_bk_remove)

end
