(* ===== verification/Messages.thy ===== *)
theory Messages
  imports Prelude
begin

text \<open>
  The messages of \<^verbatim>\<open>saber/proto/saber.proto\<close> and \<^verbatim>\<open>saber/proto/server.proto\<close>, one datatype per enum
  and one record per message, with the default instance a generated constructor gives. Enums of
  proto3 are open: a value outside the declared ones is kept, so the enums that the code switches
  on carry a last constructor for it. The C++ classes that protobuf generates from these files are
  not part of the repository; their serialisation is the parameter \<open>pb_codec\<close>, a record of the
  functions \<^verbatim>\<open>SerializeAsString\<close> and \<^verbatim>\<open>ParseFromString\<close> of each message. The code ignores what
  \<^verbatim>\<open>ParseFromString\<close> returns, so parsing is a total function into the message.
\<close>

section \<open>Enums\<close>

text \<open>Enums of proto3 are open: the last constructor of each holds the values that are not declared.\<close>

datatype SessionState = SS_CONNECTING | SS_CONNECTED | SS_DISCONNECTED | SS_EXPIRED | SS_OTHER int

datatype EventType =
    ET_NONE
  | ET_NODE_CREATED
  | ET_NODE_DELETED
  | ET_NODE_DATA_CHANGED
  | ET_NODE_CHILDREN_CHANGED
  | ET_OTHER int

datatype NodeType =
    NT_PERSISTENT
  | NT_PERSISTENT_SEQUENTIAL
  | NT_EPHEMERAL
  | NT_EPHEMERAL_SEQUENTIAL
  | NT_OTHER int

datatype ResponseCode =
    RC_OK
  | RC_FAILED
  | RC_NO_NODE
  | RC_NO_PARENT
  | RC_PARENT_EPHEMERAL
  | RC_NODE_EXISTS
  | RC_CHILDREN_EXISTS
  | RC_BAD_VERSION
  | RC_UNKNOWN
  | RC_RECONNECT
  | RC_ERRPATH
  | RC_OTHER int

datatype MessageType =
    MT_NOTIFICATION
  | MT_CREATE
  | MT_DELETE
  | MT_EXISTS
  | MT_GETDATA
  | MT_SETDATA
  | MT_GETCHILDREN
  | MT_MASTER
  | MT_PING
  | MT_CONNECT
  | MT_CLOSE
  | MT_SERVERS
  | MT_OTHER int

section \<open>Messages between client and server\<close>

record WatchedEvent =
  we_state :: SessionState
  we_type :: EventType
  we_path :: string

record Stat =
  group_id :: u32
  created_id :: u64
  modified_id :: u64
  created_time :: u64
  modified_time :: u64
  version :: i32
  children_version :: i32
  data_len :: u32
  children_num :: u32
  children_id :: u64
  ephemeral_id :: u64

definition Stat_default :: Stat where
  "Stat_default =
     \<lparr>group_id = 0, created_id = 0, modified_id = 0, created_time = 0, modified_time = 0,
      version = 0, children_version = 0, data_len = 0, children_num = 0, children_id = 0,
      ephemeral_id = 0\<rparr>"

record ConnectRequest =
  cnq_session_id :: u64
  cnq_version :: u64

record ConnectResponse =
  cnr_code :: ResponseCode
  cnr_session_id :: u64
  cnr_timeout :: u64

record CloseRequest =
  clq_session_id :: "u64 list"
  clq_version :: "u64 list"

record CloseResponse =
  clr_code :: ResponseCode

record CreateRequest =
  crq_node_type :: NodeType
  crq_path :: string
  crq_data :: bytes

record CreateResponse =
  crr_code :: ResponseCode
  crr_path :: string

record DeleteRequest =
  dlq_path :: string
  dlq_version :: i32

record DeleteResponse =
  dlr_code :: ResponseCode

record ExistsRequest =
  exq_path :: string
  exq_watch :: bool

record ExistsResponse =
  exr_code :: ResponseCode
  exr_node_type :: NodeType
  exr_stat :: Stat

record GetDataRequest =
  gdq_path :: string
  gdq_watch :: bool

record GetDataResponse =
  gdr_code :: ResponseCode
  gdr_node_type :: NodeType
  gdr_stat :: Stat
  gdr_data :: bytes

record SetDataRequest =
  sdq_path :: string
  sdq_data :: bytes
  sdq_version :: i32

record SetDataResponse =
  sdr_code :: ResponseCode
  sdr_stat :: Stat

record GetChildrenRequest =
  gcq_path :: string
  gcq_watch :: bool

record GetChildrenResponse =
  gcr_code :: ResponseCode
  gcr_stat :: Stat
  gcr_children :: "string list"

record Master =
  ms_host :: string
  ms_port :: i32

record SaberMessage =
  sm_type :: MessageType
  sm_id :: u32
  sm_data :: bytes
  sm_extra_data :: bytes

section \<open>Messages of the server\<close>

record Transaction =
  tx_group_id :: u32
  tx_instance_id :: u64
  tx_time :: u64
  tx_session_id :: u64

record DataNode =
  dn_type :: NodeType
  dn_path :: string
  dn_stat :: Stat
  dn_data :: bytes
  dn_children :: "string list"

record Session =
  ss_session_id :: u64
  ss_version :: u64

section \<open>Default instances\<close>

definition DataNode_default :: DataNode where
  "DataNode_default =
     \<lparr>dn_type = NT_PERSISTENT, dn_path = [], dn_stat = Stat_default, dn_data = [], dn_children = []\<rparr>"

definition Transaction_default :: Transaction where
  "Transaction_default = \<lparr>tx_group_id = 0, tx_instance_id = 0, tx_time = 0, tx_session_id = 0\<rparr>"

definition ConnectResponse_default :: ConnectResponse where
  "ConnectResponse_default = \<lparr>cnr_code = RC_OK, cnr_session_id = 0, cnr_timeout = 0\<rparr>"

definition CloseResponse_default :: CloseResponse where
  "CloseResponse_default = \<lparr>clr_code = RC_OK\<rparr>"

definition CreateResponse_default :: CreateResponse where
  "CreateResponse_default = \<lparr>crr_code = RC_OK, crr_path = []\<rparr>"

definition DeleteResponse_default :: DeleteResponse where
  "DeleteResponse_default = \<lparr>dlr_code = RC_OK\<rparr>"

definition ExistsResponse_default :: ExistsResponse where
  "ExistsResponse_default = \<lparr>exr_code = RC_OK, exr_node_type = NT_PERSISTENT, exr_stat = Stat_default\<rparr>"

definition GetDataResponse_default :: GetDataResponse where
  "GetDataResponse_default =
     \<lparr>gdr_code = RC_OK, gdr_node_type = NT_PERSISTENT, gdr_stat = Stat_default, gdr_data = []\<rparr>"

definition SetDataResponse_default :: SetDataResponse where
  "SetDataResponse_default = \<lparr>sdr_code = RC_OK, sdr_stat = Stat_default\<rparr>"

definition GetChildrenResponse_default :: GetChildrenResponse where
  "GetChildrenResponse_default = \<lparr>gcr_code = RC_OK, gcr_stat = Stat_default, gcr_children = []\<rparr>"

definition Master_default :: Master where
  "Master_default = \<lparr>ms_host = [], ms_port = 0\<rparr>"

definition SaberMessage_default :: SaberMessage where
  "SaberMessage_default =
     \<lparr>sm_type = MT_NOTIFICATION, sm_id = 0, sm_data = [], sm_extra_data = []\<rparr>"

lemmas default_defs =
  Stat_default_def DataNode_default_def Transaction_default_def ConnectResponse_default_def
  CloseResponse_default_def CreateResponse_default_def DeleteResponse_default_def
  ExistsResponse_default_def GetDataResponse_default_def SetDataResponse_default_def
  GetChildrenResponse_default_def Master_default_def SaberMessage_default_def

text \<open>The two tests on the node type that the server code spells out wherever it needs them.\<close>

definition is_ephemeral :: "NodeType \<Rightarrow> bool" where
  "is_ephemeral ty \<longleftrightarrow> ty = NT_EPHEMERAL \<or> ty = NT_EPHEMERAL_SEQUENTIAL"

definition is_sequential :: "NodeType \<Rightarrow> bool" where
  "is_sequential ty \<longleftrightarrow> ty = NT_PERSISTENT_SEQUENTIAL \<or> ty = NT_EPHEMERAL_SEQUENTIAL"

lemmas node_type_defs = is_ephemeral_def is_sequential_def

section \<open>The generated serialisers, a parameter of the model\<close>

record pb_codec =
  ser_SaberMessage :: "SaberMessage \<Rightarrow> bytes"
  parse_SaberMessage :: "bytes \<Rightarrow> SaberMessage"
  ser_Transaction :: "Transaction \<Rightarrow> bytes"
  parse_Transaction :: "bytes \<Rightarrow> Transaction"
  ser_WatchedEvent :: "WatchedEvent \<Rightarrow> bytes"
  parse_WatchedEvent :: "bytes \<Rightarrow> WatchedEvent"
  ser_Master :: "Master \<Rightarrow> bytes"
  parse_Master :: "bytes \<Rightarrow> Master"
  ser_ConnectRequest :: "ConnectRequest \<Rightarrow> bytes"
  parse_ConnectRequest :: "bytes \<Rightarrow> ConnectRequest"
  ser_ConnectResponse :: "ConnectResponse \<Rightarrow> bytes"
  parse_ConnectResponse :: "bytes \<Rightarrow> ConnectResponse"
  ser_CloseRequest :: "CloseRequest \<Rightarrow> bytes"
  parse_CloseRequest :: "bytes \<Rightarrow> CloseRequest"
  ser_CloseResponse :: "CloseResponse \<Rightarrow> bytes"
  ser_CreateRequest :: "CreateRequest \<Rightarrow> bytes"
  parse_CreateRequest :: "bytes \<Rightarrow> CreateRequest"
  ser_CreateResponse :: "CreateResponse \<Rightarrow> bytes"
  parse_CreateResponse :: "bytes \<Rightarrow> CreateResponse"
  ser_DeleteRequest :: "DeleteRequest \<Rightarrow> bytes"
  parse_DeleteRequest :: "bytes \<Rightarrow> DeleteRequest"
  ser_DeleteResponse :: "DeleteResponse \<Rightarrow> bytes"
  parse_DeleteResponse :: "bytes \<Rightarrow> DeleteResponse"
  ser_ExistsRequest :: "ExistsRequest \<Rightarrow> bytes"
  parse_ExistsRequest :: "bytes \<Rightarrow> ExistsRequest"
  ser_ExistsResponse :: "ExistsResponse \<Rightarrow> bytes"
  parse_ExistsResponse :: "bytes \<Rightarrow> ExistsResponse"
  ser_GetDataRequest :: "GetDataRequest \<Rightarrow> bytes"
  parse_GetDataRequest :: "bytes \<Rightarrow> GetDataRequest"
  ser_GetDataResponse :: "GetDataResponse \<Rightarrow> bytes"
  parse_GetDataResponse :: "bytes \<Rightarrow> GetDataResponse"
  ser_SetDataRequest :: "SetDataRequest \<Rightarrow> bytes"
  parse_SetDataRequest :: "bytes \<Rightarrow> SetDataRequest"
  ser_SetDataResponse :: "SetDataResponse \<Rightarrow> bytes"
  parse_SetDataResponse :: "bytes \<Rightarrow> SetDataResponse"
  ser_GetChildrenRequest :: "GetChildrenRequest \<Rightarrow> bytes"
  parse_GetChildrenRequest :: "bytes \<Rightarrow> GetChildrenRequest"
  ser_GetChildrenResponse :: "GetChildrenResponse \<Rightarrow> bytes"
  parse_GetChildrenResponse :: "bytes \<Rightarrow> GetChildrenResponse"

text \<open>
  A codec that writes nothing and reads defaults. The concrete instances of the theorems replace the
  fields they need.
\<close>

definition blank_codec :: pb_codec where
  "blank_codec =
     \<lparr>ser_SaberMessage = (\<lambda>_. []),
      parse_SaberMessage = (\<lambda>_. SaberMessage_default),
      ser_Transaction = (\<lambda>_. []),
      parse_Transaction = (\<lambda>_. Transaction_default),
      ser_WatchedEvent = (\<lambda>_. []),
      parse_WatchedEvent = (\<lambda>_. \<lparr>we_state = SS_CONNECTING, we_type = ET_NONE, we_path = []\<rparr>),
      ser_Master = (\<lambda>_. []),
      parse_Master = (\<lambda>_. Master_default),
      ser_ConnectRequest = (\<lambda>_. []),
      parse_ConnectRequest = (\<lambda>_. \<lparr>cnq_session_id = 0, cnq_version = 0\<rparr>),
      ser_ConnectResponse = (\<lambda>_. []),
      parse_ConnectResponse = (\<lambda>_. ConnectResponse_default),
      ser_CloseRequest = (\<lambda>_. []),
      parse_CloseRequest = (\<lambda>_. \<lparr>clq_session_id = [], clq_version = []\<rparr>),
      ser_CloseResponse = (\<lambda>_. []),
      ser_CreateRequest = (\<lambda>_. []),
      parse_CreateRequest = (\<lambda>_. \<lparr>crq_node_type = NT_PERSISTENT, crq_path = [], crq_data = []\<rparr>),
      ser_CreateResponse = (\<lambda>_. []),
      parse_CreateResponse = (\<lambda>_. CreateResponse_default),
      ser_DeleteRequest = (\<lambda>_. []),
      parse_DeleteRequest = (\<lambda>_. \<lparr>dlq_path = [], dlq_version = 0\<rparr>),
      ser_DeleteResponse = (\<lambda>_. []),
      parse_DeleteResponse = (\<lambda>_. DeleteResponse_default),
      ser_ExistsRequest = (\<lambda>_. []),
      parse_ExistsRequest = (\<lambda>_. \<lparr>exq_path = [], exq_watch = False\<rparr>),
      ser_ExistsResponse = (\<lambda>_. []),
      parse_ExistsResponse = (\<lambda>_. ExistsResponse_default),
      ser_GetDataRequest = (\<lambda>_. []),
      parse_GetDataRequest = (\<lambda>_. \<lparr>gdq_path = [], gdq_watch = False\<rparr>),
      ser_GetDataResponse = (\<lambda>_. []),
      parse_GetDataResponse = (\<lambda>_. GetDataResponse_default),
      ser_SetDataRequest = (\<lambda>_. []),
      parse_SetDataRequest = (\<lambda>_. \<lparr>sdq_path = [], sdq_data = [], sdq_version = 0\<rparr>),
      ser_SetDataResponse = (\<lambda>_. []),
      parse_SetDataResponse = (\<lambda>_. SetDataResponse_default),
      ser_GetChildrenRequest = (\<lambda>_. []),
      parse_GetChildrenRequest = (\<lambda>_. \<lparr>gcq_path = [], gcq_watch = False\<rparr>),
      ser_GetChildrenResponse = (\<lambda>_. []),
      parse_GetChildrenResponse = (\<lambda>_. GetChildrenResponse_default)\<rparr>"

definition typed_codec :: "MessageType \<Rightarrow> pb_codec" where
  "typed_codec ty = blank_codec\<lparr>parse_SaberMessage := \<lambda>_. SaberMessage_default\<lparr>sm_type := ty\<rparr>\<rparr>"

end
