(* ===== verification/ServerWatch.thy ===== *)
theory ServerWatch
  imports Buckets Messages
begin

text \<open>
  \<^verbatim>\<open>ServerWatchManager\<close> (\<^verbatim>\<open>saber/server/server_watch_manager.{h,cc}\<close>): which watcher waits for an event
  on which path, indexed both ways. A watcher is the address of a \<^verbatim>\<open>SaberSession\<close>, modelled by a
  number; a call of \<^verbatim>\<open>Watcher::Process\<close> is an element of the list of notifications that
  \<open>TriggerWatcher\<close> returns, in the order of the calls.

  The contract is the locale \<open>watch_table\<close> (registrations are a set of pairs, a trigger delivers to
  the watchers of the path and forgets them) and its extension \<open>watch_service\<close> with the removal of a
  watcher; both are interpreted here on the manager of the server.
\<close>

type_synonym watcher = nat
type_synonym notification = "watcher \<times> WatchedEvent"

record ServerWatchManager =
  path_to_watches :: "(string, watcher) buckets"
  watch_to_paths :: "(watcher, string) buckets"

definition ServerWatchManager_new :: ServerWatchManager where
  "ServerWatchManager_new = \<lparr>path_to_watches = [], watch_to_paths = []\<rparr>"

definition AddWatcher :: "string \<Rightarrow> watcher \<Rightarrow> ServerWatchManager \<Rightarrow> ServerWatchManager" where
  "AddWatcher path w m =
     m\<lparr>path_to_watches := bk_insert path w (path_to_watches m),
       watch_to_paths := bk_insert w path (watch_to_paths m)\<rparr>"

definition RemoveWatcher :: "watcher \<Rightarrow> ServerWatchManager \<Rightarrow> ServerWatchManager" where
  "RemoveWatcher w m =
     (case um_find (watch_to_paths m) w of
        None \<Rightarrow> m
      | Some paths \<Rightarrow>
          m\<lparr>path_to_watches := fold (\<lambda>path. bk_remove path w) paths (path_to_watches m),
            watch_to_paths := um_erase w (watch_to_paths m)\<rparr>)"

definition watched_event :: "string \<Rightarrow> EventType \<Rightarrow> WatchedEvent" where
  "watched_event path ty = \<lparr>we_state = SS_CONNECTED, we_type = ty, we_path = path\<rparr>"

definition TriggerWatcher ::
    "string \<Rightarrow> EventType \<Rightarrow> ServerWatchManager \<Rightarrow> ServerWatchManager \<times> notification list" where
  "TriggerWatcher path ty m =
     (case um_find (path_to_watches m) path of
        None \<Rightarrow> (m, [])
      | Some ws \<Rightarrow>
          (m\<lparr>watch_to_paths := fold (\<lambda>w. bk_remove w path) ws (watch_to_paths m),
             path_to_watches := um_erase path (path_to_watches m)\<rparr>,
           map (\<lambda>w. (w, watched_event path ty)) ws))"

text \<open>
  Both loops dereference the iterator that \<^verbatim>\<open>find\<close> returned without comparing it to \<^verbatim>\<open>end()\<close>. The
  model leaves the index alone when the key is missing; the predicate below says that, in every
  iteration, the key is there.
\<close>

fun iterators_valid :: "'k list \<Rightarrow> 'v \<Rightarrow> ('k, 'v) buckets \<Rightarrow> bool" where
  "iterators_valid [] v m = True"
| "iterators_valid (k # ks) v m =
     (um_find m k \<noteq> None \<and> iterators_valid ks v (bk_remove k v m))"

section \<open>The invariant: the two indexes are converse\<close>

definition registered :: "ServerWatchManager \<Rightarrow> (string \<times> watcher) set" where
  "registered m = bk_rel (path_to_watches m)"

definition swm_ok :: "ServerWatchManager \<Rightarrow> bool" where
  "swm_ok m \<longleftrightarrow>
     bk_wf (path_to_watches m) \<and> bk_tight (path_to_watches m) \<and>
     bk_wf (watch_to_paths m) \<and> bk_tight (watch_to_paths m) \<and>
     bk_rel (watch_to_paths m) = (bk_rel (path_to_watches m))\<inverse>"

lemma converse_registered:
  "swm_ok m \<Longrightarrow> w \<in> set (bk_at (path_to_watches m) p) \<longleftrightarrow> p \<in> set (bk_at (watch_to_paths m) w)"
  unfolding swm_ok_def by (metis bk_rel_iff converse_iff)

lemma swm_ok_new: "swm_ok ServerWatchManager_new"
  by (simp add: swm_ok_def ServerWatchManager_new_def)

lemma registered_new: "registered ServerWatchManager_new = {}"
  by (simp add: registered_def ServerWatchManager_new_def)

lemma swm_ok_Add: "swm_ok m \<Longrightarrow> swm_ok (AddWatcher p w m)"
  by (auto simp: swm_ok_def AddWatcher_def)

lemma registered_Add: "registered (AddWatcher p w m) = insert (p, w) (registered m)"
  by (simp add: registered_def AddWatcher_def)

lemma registered_Remove:
  assumes "swm_ok m"
  shows "registered (RemoveWatcher w m) = registered m - UNIV \<times> {w}"
proof (cases "um_find (watch_to_paths m) w")
  case None
  then have "bk_at (watch_to_paths m) w = []" by (simp add: bk_at_def)
  then have "\<forall>p. (p, w) \<notin> registered m"
    using converse_registered [OF assms] by (simp add: registered_def)
  then show ?thesis using None by (auto simp: RemoveWatcher_def)
next
  case (Some paths)
  then have "bk_at (watch_to_paths m) w = paths" by (simp add: bk_at_def)
  then have "\<forall>p. (p, w) \<in> registered m \<longrightarrow> p \<in> set paths"
    using converse_registered [OF assms] by (simp add: registered_def)
  then show ?thesis using Some by (auto simp: RemoveWatcher_def registered_def bk.rel_del_keys)
qed

lemma registered_Trigger:
  assumes "swm_ok m"
  shows "registered (fst (TriggerWatcher p ty m)) = registered m - {p} \<times> UNIV"
  using assms
  by (auto simp: TriggerWatcher_def registered_def bk_at_def split: option.splits)

lemma notified_Trigger:
  "snd (TriggerWatcher p ty m) =
     map (\<lambda>w. (w, watched_event p ty)) (bk_at (path_to_watches m) p)"
  by (simp add: TriggerWatcher_def bk_at_def split: option.splits)

lemma swm_ok_Remove: "swm_ok m \<Longrightarrow> swm_ok (RemoveWatcher w m)"
proof -
  assume ok: "swm_ok m"
  let ?m = "RemoveWatcher w m"
  have rel: "bk_rel (path_to_watches ?m) = bk_rel (path_to_watches m) - UNIV \<times> {w}"
    using registered_Remove [OF ok] by (simp add: registered_def)
  have "bk_rel (watch_to_paths ?m) = bk_rel (watch_to_paths m) - {w} \<times> UNIV"
    by (auto simp: RemoveWatcher_def bk_at_def split: option.splits)
  moreover have "bk_wf (path_to_watches ?m) \<and> bk_tight (path_to_watches ?m)"
    using ok by (auto simp: RemoveWatcher_def swm_ok_def bk.ok_del_keys split: option.splits)
  moreover have "bk_wf (watch_to_paths ?m) \<and> bk_tight (watch_to_paths ?m)"
    using ok by (auto simp: RemoveWatcher_def swm_ok_def split: option.splits)
  ultimately show ?thesis using ok rel by (auto simp: swm_ok_def)
qed

lemma swm_ok_Trigger: "swm_ok m \<Longrightarrow> swm_ok (fst (TriggerWatcher p ty m))"
proof -
  assume ok: "swm_ok m"
  let ?m = "fst (TriggerWatcher p ty m)"
  have rel: "bk_rel (path_to_watches ?m) = bk_rel (path_to_watches m) - {p} \<times> UNIV"
    using registered_Trigger [OF ok] by (simp add: registered_def)
  have w2p: "watch_to_paths ?m =
      fold (\<lambda>w. bk_remove w p) (bk_at (path_to_watches m) p) (watch_to_paths m)"
    by (simp add: TriggerWatcher_def bk_at_def split: option.splits)
  have "bk_rel (watch_to_paths ?m) = bk_rel (watch_to_paths m) - UNIV \<times> {p}"
    using converse_registered [OF ok] by (auto simp: w2p bk.rel_del_keys)
  moreover have "bk_wf (path_to_watches ?m) \<and> bk_tight (path_to_watches ?m)"
    using ok by (auto simp: TriggerWatcher_def swm_ok_def split: option.splits)
  moreover have "bk_wf (watch_to_paths ?m) \<and> bk_tight (watch_to_paths ?m)"
    using ok unfolding w2p swm_ok_def by (simp add: bk.ok_del_keys)
  ultimately show ?thesis using ok rel by (auto simp: swm_ok_def)
qed

section \<open>The contract of a watch table\<close>

locale watch_table =
  fixes reg :: "'s \<Rightarrow> ('p \<times> 'w) set"
    and ok :: "'s \<Rightarrow> bool"
    and add :: "'p \<Rightarrow> 'w \<Rightarrow> 's \<Rightarrow> 's"
    and trig :: "'p \<Rightarrow> 'e \<Rightarrow> 's \<Rightarrow> 's \<times> 'n list"
    and target :: "'n \<Rightarrow> 'w"
  assumes ok_add: "ok s \<Longrightarrow> ok (add p w s)"
    and reg_add: "ok s \<Longrightarrow> reg (add p w s) = insert (p, w) (reg s)"
    and ok_trig: "ok s \<Longrightarrow> ok (fst (trig p e s))"
    and reg_trig: "ok s \<Longrightarrow> reg (fst (trig p e s)) = reg s - {p} \<times> UNIV"
    and trig_targets: "ok s \<Longrightarrow> set (map target (snd (trig p e s))) = reg s `` {p}"
    and trig_distinct: "ok s \<Longrightarrow> distinct (map target (snd (trig p e s)))"
begin

lemma trig_once: "ok s \<Longrightarrow> snd (trig p e' (fst (trig p e s))) = []"
proof -
  assume ok: "ok s"
  have "set (map target (snd (trig p e' (fst (trig p e s))))) = {}"
    using ok by (simp only: trig_targets ok_trig reg_trig) auto
  then show ?thesis by simp
qed

lemma trig_added: "ok s \<Longrightarrow> w \<in> target ` set (snd (trig p e (add p w s)))"
  using trig_targets [OF ok_add, of s p e p w] by (simp add: reg_add)

lemma trig_other: "ok s \<Longrightarrow> q \<noteq> p \<Longrightarrow> reg (fst (trig p e s)) `` {q} = reg s `` {q}"
  by (auto simp: reg_trig)

lemma trig_silent: "ok s \<Longrightarrow> p \<notin> Domain (reg s) \<Longrightarrow> snd (trig p e s) = []"
proof -
  assume "ok s" and "p \<notin> Domain (reg s)"
  then have "set (map target (snd (trig p e s))) = {}" by (simp only: trig_targets) auto
  then show ?thesis by simp
qed

end

locale watch_service = watch_table reg ok add trig target
  for reg :: "'s \<Rightarrow> ('p \<times> 'w) set" and ok and add
    and trig :: "'p \<Rightarrow> 'e \<Rightarrow> 's \<Rightarrow> 's \<times> 'n list" and target +
  fixes rem :: "'w \<Rightarrow> 's \<Rightarrow> 's"
  assumes ok_rem: "ok s \<Longrightarrow> ok (rem w s)"
    and reg_rem: "ok s \<Longrightarrow> reg (rem w s) = reg s - UNIV \<times> {w}"
begin

lemma removed_not_notified: "ok s \<Longrightarrow> w \<notin> target ` set (snd (trig p e (rem w s)))"
  using trig_targets [OF ok_rem, of s p e w] by (simp add: reg_rem)

lemma removed_others: "ok s \<Longrightarrow> v \<noteq> w \<Longrightarrow> (p, v) \<in> reg (rem w s) \<longleftrightarrow> (p, v) \<in> reg s"
  by (simp add: reg_rem)

end

lemma distinct_targets: "swm_ok m \<Longrightarrow> distinct (map fst (snd (TriggerWatcher p ty m)))"
  by (simp add: notified_Trigger comp_def swm_ok_def bk_wf_def)

lemma targets_registered: "set (map fst (snd (TriggerWatcher p ty m))) = registered m `` {p}"
  by (auto simp: notified_Trigger comp_def registered_def)

interpretation swm: watch_service registered swm_ok AddWatcher TriggerWatcher fst RemoveWatcher
  by unfold_locales
    (simp_all only: swm_ok_Add registered_Add swm_ok_Trigger registered_Trigger
      targets_registered distinct_targets swm_ok_Remove registered_Remove)

lemmas swm_rules [saber_inv] = swm_ok_Add swm_ok_Remove swm_ok_Trigger

section \<open>The loops never follow an invalid iterator\<close>

lemma iterators_valid_distinct:
  "distinct ks \<Longrightarrow> (\<forall>k \<in> set ks. um_find m k \<noteq> None) \<Longrightarrow> iterators_valid ks v m"
proof (induction ks arbitrary: m)
  case Nil
  then show ?case by simp
next
  case (Cons k ks)
  then have "\<forall>j \<in> set ks. um_find (bk_remove k v m) j \<noteq> None"
    by (auto simp: find_bk_remove)
  then show ?case using Cons by simp
qed

lemma bk_found: "bk_tight m \<Longrightarrow> v \<in> set (bk_at m k) \<Longrightarrow> um_find m k \<noteq> None"
  by (auto simp: bk_tight_find)

end
