(* ===== verification/DataTree.thy ===== *)
theory DataTree
  imports ServerWatch
begin

text \<open>
  \<^verbatim>\<open>DataTree\<close> (\<^verbatim>\<open>saber/server/data_tree.{h,cc}\<close>): the tree of data nodes of one paxos group, its
  children index, its index of ephemeral nodes by session, and the two watch managers. Every
  operation takes the state, the request, the transaction and the response object the caller
  passes, and returns the new state, the response as it is left and the notifications sent.
  A \<^verbatim>\<open>nullptr\<close> transaction is passed by the \<^verbatim>\<open>only_check\<close> calls only, which never read it
  (\<open>Create_check_ignores_txn\<close> and its siblings); the transaction is therefore passed by value.
\<close>

record DataTree =
  nodes :: "(string, DataNode) umap"
  childrens :: "(string, string) buckets"
  ephemerals :: "(u64, string) buckets"
  data_watches :: ServerWatchManager
  child_watches :: ServerWatchManager

definition DataTree_new :: DataTree where
  "DataTree_new =
     \<lparr>nodes = [([], DataNode_default)], childrens = [], ephemerals = [],
      data_watches = ServerWatchManager_new, child_watches = ServerWatchManager_new\<rparr>"

section \<open>Checkpoints\<close>

definition Recover_node :: "DataNode \<Rightarrow> DataTree \<Rightarrow> DataTree" where
  "Recover_node node t =
     (let path = dn_path node;
          new_node = (case um_find (nodes t) path of None \<Rightarrow> DataNode_default | Some n \<Rightarrow> n)
      in t\<lparr>nodes := um_set path
               (new_node\<lparr>dn_type := dn_type node, dn_stat := dn_stat node, dn_data := dn_data node\<rparr>)
               (nodes t),
           childrens := fold (bk_insert path) (dn_children node) (childrens t),
           ephemerals :=
             (if 0 < ephemeral_id (dn_stat node)
              then bk_insert (ephemeral_id (dn_stat node)) path (ephemerals t)
              else ephemerals t)\<rparr>)"

definition DataTree_Recover :: "DataNode list \<Rightarrow> DataTree \<Rightarrow> DataTree" where
  "DataTree_Recover node_list t = fold Recover_node node_list t"

definition GetDataNodeList :: "DataTree \<Rightarrow> DataNode list" where
  "GetDataNodeList t =
     map (\<lambda>(path, n). n\<lparr>dn_path := path,
                        dn_children := dn_children n @ bk_at (childrens t) path\<rparr>)
       (nodes t)"

section \<open>Paths\<close>

definition ParsePath :: "string \<Rightarrow> ResponseCode \<times> string \<times> string" where
  "ParsePath path =
     (case find_last_of path slash of
        None \<Rightarrow> (RC_ERRPATH, [], [])
      | Some found \<Rightarrow>
          (let parent = take found path; child = drop (found + 1) path
           in if child = [] then (RC_ERRPATH, parent, child) else (RC_OK, parent, child)))"

section \<open>Create\<close>

definition seq_suffix :: "i32 \<Rightarrow> string" where
  "seq_suffix v = take 15 (CHR ''_'' # fmt_010d (sint (v + 1)))"

definition touch_parent :: "Transaction \<Rightarrow> string uset \<Rightarrow> DataNode \<Rightarrow> DataNode" where
  "touch_parent txn children n =
     n\<lparr>dn_stat := (dn_stat n)
         \<lparr>children_version := children_version (dn_stat n) + 1,
          children_num := word_of_nat (length children),
          children_id := tx_instance_id txn\<rparr>\<rparr>"

definition fill_node :: "CreateRequest \<Rightarrow> Transaction \<Rightarrow> DataNode \<Rightarrow> DataNode" where
  "fill_node request txn n =
     n\<lparr>dn_stat := (dn_stat n)
         \<lparr>group_id := tx_group_id txn,
          created_id := tx_instance_id txn,
          modified_id := tx_instance_id txn,
          created_time := tx_time txn,
          modified_time := tx_time txn,
          version := 0,
          children_version := 0,
          data_len := word_of_nat (length (crq_data request)),
          children_num := 0,
          children_id := tx_instance_id txn,
          ephemeral_id :=
            (if is_ephemeral (crq_node_type request) then tx_session_id txn
             else ephemeral_id (dn_stat n))\<rparr>,
       dn_data := crq_data request,
       dn_type := crq_node_type request\<rparr>"

definition Create_insert ::
    "CreateRequest \<Rightarrow> Transaction \<Rightarrow> string \<Rightarrow> DataNode \<Rightarrow> string \<Rightarrow> string \<Rightarrow> DataTree \<Rightarrow> DataTree" where
  "Create_insert request txn parent pnode child path t =
     (let childrens' = bk_insert parent child (childrens t);
          nodes1 = um_set parent (touch_parent txn (bk_at childrens' parent) pnode) (nodes t);
          node = fill_node request txn
                   (case um_find nodes1 path of None \<Rightarrow> DataNode_default | Some n \<Rightarrow> n)
      in t\<lparr>nodes := um_set path node nodes1,
           childrens := childrens',
           ephemerals :=
             (if is_ephemeral (crq_node_type request)
              then bk_insert (ephemeral_id (dn_stat node)) path (ephemerals t)
              else ephemerals t)\<rparr>)"

definition trigger_data :: "string \<Rightarrow> EventType \<Rightarrow> DataTree \<Rightarrow> DataTree \<times> notification list" where
  "trigger_data path ty t =
     (let (m, ns) = TriggerWatcher path ty (data_watches t) in (t\<lparr>data_watches := m\<rparr>, ns))"

definition trigger_child :: "string \<Rightarrow> EventType \<Rightarrow> DataTree \<Rightarrow> DataTree \<times> notification list" where
  "trigger_child path ty t =
     (let (m, ns) = TriggerWatcher path ty (child_watches t) in (t\<lparr>child_watches := m\<rparr>, ns))"

definition trigger_change ::
    "string \<Rightarrow> EventType \<Rightarrow> string \<Rightarrow> DataTree \<Rightarrow> DataTree \<times> notification list" where
  "trigger_change path ty parent t =
     (let (t1, ns1) = trigger_data path ty t
      in if parent \<noteq> []
         then (let (t2, ns2) = trigger_child parent ET_NODE_CHILDREN_CHANGED t1 in (t2, ns1 @ ns2))
         else (t1, ns1))"

definition DataTree_Create ::
    "CreateRequest \<Rightarrow> Transaction \<Rightarrow> CreateResponse \<Rightarrow> bool \<Rightarrow> DataTree \<Rightarrow>
     DataTree \<times> CreateResponse \<times> notification list" where
  "DataTree_Create request txn response only_check t =
     (let (retcode, parent, child) = ParsePath (crq_path request)
      in if retcode \<noteq> RC_OK then (t, response\<lparr>crr_code := retcode\<rparr>, [])
         else case um_find (nodes t) parent of
           None \<Rightarrow> (t, response\<lparr>crr_code := RC_NO_PARENT\<rparr>, [])
         | Some pnode \<Rightarrow>
             if is_ephemeral (dn_type pnode)
             then (t, response\<lparr>crr_code := RC_PARENT_EPHEMERAL\<rparr>, [])
             else
               (let seq = (if is_sequential (dn_type pnode) \<and> \<not> only_check
                           then seq_suffix (children_version (dn_stat pnode)) else []);
                    child = child @ seq;
                    path = crq_path request @ seq;
                    t = t\<lparr>childrens := bk_touch parent (childrens t)\<rparr>
                in if child \<in> set (bk_at (childrens t) parent)
                   then (t, response\<lparr>crr_code := RC_NODE_EXISTS\<rparr>, [])
                   else if only_check then (t, response\<lparr>crr_code := RC_OK\<rparr>, [])
                   else (let (t, ns) = trigger_change path ET_NODE_CREATED parent
                                         (Create_insert request txn parent pnode child path t)
                         in (t, response\<lparr>crr_code := RC_OK, crr_path := path\<rparr>, ns))))"

section \<open>Delete\<close>

definition Delete_node :: "string \<Rightarrow> DataNode \<Rightarrow> DataTree \<Rightarrow> DataTree" where
  "Delete_node path n t =
     (let t = (if ephemeral_id (dn_stat n) \<noteq> 0
               then t\<lparr>ephemerals := bk_remove (ephemeral_id (dn_stat n)) path (ephemerals t)\<rparr>
               else t)
      in t\<lparr>nodes := um_erase path (nodes t)\<rparr>)"

definition Delete_unlink ::
    "Transaction \<Rightarrow> string \<Rightarrow> string \<Rightarrow> DataTree \<Rightarrow> ResponseCode \<times> DataTree" where
  "Delete_unlink txn parent child t =
     (case um_find (nodes t) parent of
        None \<Rightarrow> (RC_NO_PARENT, t)
      | Some pnode \<Rightarrow>
          (RC_OK,
           if um_find (childrens t) parent = None then t
           else
             (let children = bk_at (childrens t) parent;
                  nodes' = (if child \<in> set children
                            then um_set parent (touch_parent txn (us_erase child children) pnode) (nodes t)
                            else nodes t)
              in t\<lparr>nodes := nodes', childrens := bk_remove parent child (childrens t)\<rparr>)))"

definition DataTree_Delete ::
    "DeleteRequest \<Rightarrow> Transaction \<Rightarrow> DeleteResponse \<Rightarrow> bool \<Rightarrow> DataTree \<Rightarrow>
     DataTree \<times> DeleteResponse \<times> notification list" where
  "DataTree_Delete request txn response only_check t =
     (let path = dlq_path request; (retcode, parent, child) = ParsePath path
      in if retcode \<noteq> RC_OK then (t, response\<lparr>dlr_code := retcode\<rparr>, [])
         else case um_find (nodes t) path of
           None \<Rightarrow> (t, response\<lparr>dlr_code := RC_NO_NODE\<rparr>, [])
         | Some n \<Rightarrow>
             if dlq_version request \<noteq> - 1 \<and> dlq_version request \<noteq> version (dn_stat n)
             then (t, response\<lparr>dlr_code := RC_BAD_VERSION\<rparr>, [])
             else if um_find (childrens t) path \<noteq> None
             then (t, response\<lparr>dlr_code := RC_CHILDREN_EXISTS\<rparr>, [])
             else if only_check then (t, response\<lparr>dlr_code := RC_OK\<rparr>, [])
             else
               (let (code, t) = Delete_unlink txn parent child (Delete_node path n t);
                    (t, ns) = trigger_change path ET_NODE_DELETED parent t
                in (t, response\<lparr>dlr_code := code\<rparr>, ns)))"

section \<open>Reads\<close>

definition add_data_watch :: "string \<Rightarrow> watcher option \<Rightarrow> DataTree \<Rightarrow> DataTree" where
  "add_data_watch path watcher t =
     (case watcher of None \<Rightarrow> t
      | Some w \<Rightarrow> t\<lparr>data_watches := AddWatcher path w (data_watches t)\<rparr>)"

definition DataTree_Exists ::
    "ExistsRequest \<Rightarrow> watcher option \<Rightarrow> ExistsResponse \<Rightarrow> DataTree \<Rightarrow> DataTree \<times> ExistsResponse" where
  "DataTree_Exists request watcher response t =
     (let path = exq_path request; (code, parent, child) = ParsePath path
      in if code \<noteq> RC_OK then (t, response\<lparr>exr_code := code\<rparr>)
         else
           (let t = add_data_watch path watcher t
            in case um_find (nodes t) path of
                 Some n \<Rightarrow> (t, response\<lparr>exr_code := RC_OK, exr_node_type := dn_type n,
                                         exr_stat := dn_stat n\<rparr>)
               | None \<Rightarrow> (t, response\<lparr>exr_code := RC_NO_NODE\<rparr>)))"

definition DataTree_GetData ::
    "GetDataRequest \<Rightarrow> watcher option \<Rightarrow> GetDataResponse \<Rightarrow> DataTree \<Rightarrow> DataTree \<times> GetDataResponse" where
  "DataTree_GetData request watcher response t =
     (let path = gdq_path request; (code, parent, child) = ParsePath path
      in if code \<noteq> RC_OK then (t, response\<lparr>gdr_code := code\<rparr>)
         else
           (case um_find (nodes t) path of
              Some n \<Rightarrow>
                (add_data_watch path watcher t,
                 response\<lparr>gdr_code := RC_OK, gdr_node_type := dn_type n, gdr_data := dn_data n,
                          gdr_stat := dn_stat n\<rparr>)
            | None \<Rightarrow> (t, response\<lparr>gdr_code := RC_NO_NODE\<rparr>)))"

definition DataTree_GetChildren ::
    "GetChildrenRequest \<Rightarrow> watcher option \<Rightarrow> GetChildrenResponse \<Rightarrow> DataTree \<Rightarrow>
     DataTree \<times> GetChildrenResponse" where
  "DataTree_GetChildren request watcher response t =
     (let path = gcq_path request; (code, parent, child) = ParsePath path
      in if code \<noteq> RC_OK then (t, response\<lparr>gcr_code := code\<rparr>)
         else
           (case um_find (nodes t) path of
              Some n \<Rightarrow>
                (case watcher of
                   Some w \<Rightarrow> if is_ephemeral (dn_type n) then t
                             else t\<lparr>child_watches := AddWatcher path w (child_watches t)\<rparr>
                 | None \<Rightarrow> t,
                 response\<lparr>gcr_code := RC_OK, gcr_stat := dn_stat n,
                          gcr_children := gcr_children response @ bk_at (childrens t) path\<rparr>)
            | None \<Rightarrow> (t, response\<lparr>gcr_code := RC_NO_NODE\<rparr>)))"

section \<open>SetData\<close>

definition write_node :: "SetDataRequest \<Rightarrow> Transaction \<Rightarrow> DataNode \<Rightarrow> DataNode" where
  "write_node request txn n =
     n\<lparr>dn_stat := (dn_stat n)
         \<lparr>modified_id := tx_instance_id txn,
          modified_time := tx_time txn,
          version := version (dn_stat n) + 1,
          data_len := word_of_nat (length (sdq_data request))\<rparr>,
       dn_data := sdq_data request\<rparr>"

definition DataTree_SetData ::
    "SetDataRequest \<Rightarrow> Transaction \<Rightarrow> SetDataResponse \<Rightarrow> bool \<Rightarrow> DataTree \<Rightarrow>
     DataTree \<times> SetDataResponse \<times> notification list" where
  "DataTree_SetData request txn response only_check t =
     (let path = sdq_path request; (retcode, parent, child) = ParsePath path
      in if retcode \<noteq> RC_OK then (t, response\<lparr>sdr_code := retcode\<rparr>, [])
         else case um_find (nodes t) path of
           None \<Rightarrow> (t, response\<lparr>sdr_code := RC_NO_NODE\<rparr>, [])
         | Some n \<Rightarrow>
             if sdq_version request \<noteq> - 1 \<and> sdq_version request \<noteq> version (dn_stat n)
             then (t, response\<lparr>sdr_code := RC_BAD_VERSION\<rparr>, [])
             else if only_check then (t, response\<lparr>sdr_code := RC_OK\<rparr>, [])
             else
               (let n' = write_node request txn n;
                    (t, ns) = trigger_data path ET_NODE_DATA_CHANGED (t\<lparr>nodes := um_set path n' (nodes t)\<rparr>)
                in (t, response\<lparr>sdr_code := RC_OK, sdr_stat := dn_stat n'\<rparr>, ns)))"

section \<open>Watchers and sessions\<close>

definition DataTree_RemoveWatcher :: "watcher \<Rightarrow> DataTree \<Rightarrow> DataTree" where
  "DataTree_RemoveWatcher w t =
     t\<lparr>data_watches := RemoveWatcher w (data_watches t),
       child_watches := RemoveWatcher w (child_watches t)\<rparr>"

fun kill_loop ::
    "Transaction \<Rightarrow> string list \<Rightarrow> DeleteResponse \<Rightarrow> DataTree \<Rightarrow> DataTree \<times> notification list" where
  "kill_loop txn [] response t = (t, [])"
| "kill_loop txn (p # ps) response t =
     (let (t, response, ns) =
            DataTree_Delete \<lparr>dlq_path = p, dlq_version = - 1\<rparr> txn response False t;
          (t, ns') = kill_loop txn ps response t
      in (t, ns @ ns'))"

definition DataTree_KillSession ::
    "u64 \<Rightarrow> Transaction \<Rightarrow> DataTree \<Rightarrow> DataTree \<times> notification list" where
  "DataTree_KillSession session_id txn t =
     (case um_find (ephemerals t) session_id of
        None \<Rightarrow> (t, [])
      | Some paths \<Rightarrow>
          kill_loop txn paths DeleteResponse_default
            (t\<lparr>ephemerals := um_erase session_id (ephemerals t)\<rparr>))"

end
