(* ===== verification/DataTree_Inv.thy ===== *)
theory DataTree_Inv
  imports DataTree
begin

text \<open>
  The invariant of \<^verbatim>\<open>DataTree\<close> and the proofs that every operation keeps it. The tree is read through
  the partial map \<open>um_find (nodes t)\<close>: every node but the root has a parent in the map that is not
  ephemeral; the children index lists exactly the names below a node; the ephemerals index lists
  exactly the ephemeral nodes by the session that owns them; the counters in the stats agree.

  \<open>tree_okx D\<close> is the invariant with the sessions in \<open>D\<close> detached from the ephemerals index: it is
  what holds inside the loop of \<^verbatim>\<open>KillSession\<close>, which erases the index entry first. A children bucket
  may be empty (\<^verbatim>\<open>Create\<close> with \<^verbatim>\<open>only_check\<close> leaves such a bucket behind); \<open>no_phantom\<close> says there is none.
\<close>

section \<open>Paths\<close>

lemma ParsePath_OK:
  "ParsePath p = (RC_OK, q, c) \<longleftrightarrow> p = q @ slash # c \<and> c \<noteq> [] \<and> slash \<notin> set c"
proof
  assume "ParsePath p = (RC_OK, q, c)"
  then obtain i where i: "find_last_of p slash = Some i"
    and q: "q = take i p" and c: "c = drop (Suc i) p" "c \<noteq> []"
    by (auto simp: ParsePath_def Let_def split: option.splits if_splits)
  from i have "p = take i p @ slash # drop (Suc i) p" and "slash \<notin> set (drop (Suc i) p)"
    unfolding find_last_of_Some by blast+
  then show "p = q @ slash # c \<and> c \<noteq> [] \<and> slash \<notin> set c"
    using q c by simp
next
  assume "p = q @ slash # c \<and> c \<noteq> [] \<and> slash \<notin> set c"
  then show "ParsePath p = (RC_OK, q, c)"
    by (simp add: ParsePath_def find_last_of_append)
qed

lemma ParsePath_code: "fst (ParsePath p) = RC_OK \<or> fst (ParsePath p) = RC_ERRPATH"
  by (simp add: ParsePath_def Let_def split: option.splits)

lemma ParsePath_root: "ParsePath [] = (RC_ERRPATH, [], [])"
  by (simp add: ParsePath_def)

lemma ParsePath_inj: "ParsePath p = (RC_OK, q, c) \<Longrightarrow> ParsePath p' = (RC_OK, q, c) \<Longrightarrow> p' = p"
  by (simp add: ParsePath_OK)

lemma ParsePath_neq: "ParsePath p = (RC_OK, q, c) \<Longrightarrow> p \<noteq> [] \<and> p \<noteq> q \<and> q \<noteq> p"
  by (auto simp: ParsePath_OK)

section \<open>The invariant\<close>

abbreviation node_at :: "DataTree \<Rightarrow> string \<rightharpoonup> DataNode" where
  "node_at t \<equiv> um_find (nodes t)"

abbreviation kids :: "DataTree \<Rightarrow> string \<Rightarrow> string list" where
  "kids t \<equiv> bk_at (childrens t)"

definition containers_ok :: "DataTree \<Rightarrow> bool" where
  "containers_ok t \<longleftrightarrow>
     um_wf (nodes t) \<and> bk_wf (childrens t) \<and> bk_wf (ephemerals t) \<and> bk_tight (ephemerals t) \<and>
     swm_ok (data_watches t) \<and> swm_ok (child_watches t)"

definition persistent_at :: "(string \<rightharpoonup> DataNode) \<Rightarrow> string \<Rightarrow> bool" where
  "persistent_at N q \<longleftrightarrow> (\<exists>m. N q = Some m \<and> \<not> is_ephemeral (dn_type m))"

definition shape_ok :: "(string \<rightharpoonup> DataNode) \<Rightarrow> bool" where
  "shape_ok N \<longleftrightarrow>
     persistent_at N [] \<and>
     (\<forall>p \<in> dom N. p \<noteq> [] \<longrightarrow>
        fst (ParsePath p) = RC_OK \<and> persistent_at N (fst (snd (ParsePath p))))"

definition child_names :: "(string \<rightharpoonup> DataNode) \<Rightarrow> string \<Rightarrow> string set" where
  "child_names N q = {c. \<exists>p. ParsePath p = (RC_OK, q, c) \<and> p \<in> dom N}"

definition children_ok :: "(string \<rightharpoonup> DataNode) \<Rightarrow> (string, string) buckets \<Rightarrow> bool" where
  "children_ok N C \<longleftrightarrow>
     (\<forall>q. set (bk_at C q) = child_names N q) \<and>
     (\<forall>q \<in> dom (um_find C). persistent_at N q)"

definition ephemeral_rel :: "(string \<rightharpoonup> DataNode) \<Rightarrow> (u64 \<times> string) set" where
  "ephemeral_rel N =
     {(sid, p). \<exists>n. N p = Some n \<and> is_ephemeral (dn_type n) \<and> ephemeral_id (dn_stat n) = sid}"

definition node_ok :: "(string, string) buckets \<Rightarrow> string \<Rightarrow> DataNode \<Rightarrow> bool" where
  "node_ok C p n \<longleftrightarrow>
     (is_ephemeral (dn_type n) \<longleftrightarrow> ephemeral_id (dn_stat n) \<noteq> 0) \<and>
     children_num (dn_stat n) = word_of_nat (length (bk_at C p)) \<and>
     data_len (dn_stat n) = word_of_nat (length (dn_data n)) \<and>
     dn_path n = [] \<and> dn_children n = []"

definition tree_okx :: "u64 set \<Rightarrow> DataTree \<Rightarrow> bool" where
  "tree_okx D t \<longleftrightarrow>
     containers_ok t \<and> shape_ok (node_at t) \<and> children_ok (node_at t) (childrens t) \<and>
     bk_rel (ephemerals t) = ephemeral_rel (node_at t) - D \<times> UNIV \<and>
     (\<forall>p n. node_at t p = Some n \<longrightarrow> node_ok (childrens t) p n)"

definition tree_ok :: "DataTree \<Rightarrow> bool" where
  "tree_ok t \<longleftrightarrow> tree_okx {} t"

definition no_phantom :: "DataTree \<Rightarrow> bool" where
  "no_phantom t \<longleftrightarrow> bk_tight (childrens t)"

lemmas tree_defs = tree_ok_def tree_okx_def containers_ok_def

section \<open>Frame rules: triggers and watches leave the tree alone\<close>

lemma trigger_data_frame [simp]:
  "nodes (fst (trigger_data p ty t)) = nodes t"
  "childrens (fst (trigger_data p ty t)) = childrens t"
  "ephemerals (fst (trigger_data p ty t)) = ephemerals t"
  "child_watches (fst (trigger_data p ty t)) = child_watches t"
  "data_watches (fst (trigger_data p ty t)) = fst (TriggerWatcher p ty (data_watches t))"
  by (simp_all add: trigger_data_def case_prod_beta Let_def)

lemma trigger_child_frame [simp]:
  "nodes (fst (trigger_child p ty t)) = nodes t"
  "childrens (fst (trigger_child p ty t)) = childrens t"
  "ephemerals (fst (trigger_child p ty t)) = ephemerals t"
  "data_watches (fst (trigger_child p ty t)) = data_watches t"
  "child_watches (fst (trigger_child p ty t)) = fst (TriggerWatcher p ty (child_watches t))"
  by (simp_all add: trigger_child_def case_prod_beta Let_def)

lemma trigger_change_frame [simp]:
  "nodes (fst (trigger_change p ty q t)) = nodes t"
  "childrens (fst (trigger_change p ty q t)) = childrens t"
  "ephemerals (fst (trigger_change p ty q t)) = ephemerals t"
  "data_watches (fst (trigger_change p ty q t)) = fst (TriggerWatcher p ty (data_watches t))"
  "child_watches (fst (trigger_change p ty q t)) =
     (if q = [] then child_watches t
      else fst (TriggerWatcher q ET_NODE_CHILDREN_CHANGED (child_watches t)))"
  by (simp_all add: trigger_change_def case_prod_beta Let_def)

lemma add_data_watch_frame [simp]:
  "nodes (add_data_watch p w t) = nodes t"
  "childrens (add_data_watch p w t) = childrens t"
  "ephemerals (add_data_watch p w t) = ephemerals t"
  "child_watches (add_data_watch p w t) = child_watches t"
  by (simp_all add: add_data_watch_def split: option.splits)

lemma tree_okx_trigger_change [saber_inv]:
  "tree_okx D t \<Longrightarrow> tree_okx D (fst (trigger_change p ty q t))"
  by (simp add: tree_okx_def containers_ok_def swm_rules)

lemma tree_okx_trigger_data [saber_inv]:
  "tree_okx D t \<Longrightarrow> tree_okx D (fst (trigger_data p ty t))"
  by (simp add: tree_okx_def containers_ok_def swm_rules)

lemma tree_okx_add_data_watch [saber_inv]:
  "tree_okx D t \<Longrightarrow> tree_okx D (add_data_watch p w t)"
  by (cases w) (simp_all add: tree_okx_def containers_ok_def add_data_watch_def swm_rules)

section \<open>Consequences of the invariant\<close>

lemma tree_okx_parent:
  "tree_okx D t \<Longrightarrow> node_at t p \<noteq> None \<Longrightarrow> ParsePath p = (RC_OK, q, c) \<Longrightarrow> persistent_at (node_at t) q"
proof -
  assume ok: "tree_okx D t" and p: "node_at t p \<noteq> None" and P: "ParsePath p = (RC_OK, q, c)"
  have "p \<in> dom (node_at t)" and "p \<noteq> []" using p ParsePath_neq [OF P] by auto
  then show ?thesis using ok P unfolding tree_okx_def shape_ok_def by fastforce
qed

lemma tree_okx_kids: "tree_okx D t \<Longrightarrow> set (kids t q) = child_names (node_at t) q"
  by (simp add: tree_okx_def children_ok_def)

lemma tree_okx_bucket:
  "tree_okx D t \<Longrightarrow> um_find (childrens t) q \<noteq> None \<Longrightarrow> persistent_at (node_at t) q"
  by (auto simp: tree_okx_def children_ok_def)

lemma tree_okx_no_bucket:
  "tree_okx D t \<Longrightarrow> \<not> persistent_at (node_at t) q \<Longrightarrow> um_find (childrens t) q = None \<and> kids t q = []"
  using tree_okx_bucket [of D t q] by (cases "um_find (childrens t) q") (auto simp: bk_at_def)

lemma persistent_at_Some: "N q = Some m \<Longrightarrow> persistent_at N q \<longleftrightarrow> \<not> is_ephemeral (dn_type m)"
  by (simp add: persistent_at_def)

lemma persistent_at_None: "N q = None \<Longrightarrow> \<not> persistent_at N q"
  by (simp add: persistent_at_def)

lemma tree_okx_new: "tree_ok DataTree_new"
  by (auto simp: tree_defs DataTree_new_def swm_ok_new um_wf_def shape_ok_def children_ok_def
      child_names_def ephemeral_rel_def node_ok_def default_defs is_ephemeral_def
      persistent_at_def ParsePath_root split: if_splits)

section \<open>Replacing, adding and removing one node\<close>

definition same_kind :: "DataNode \<Rightarrow> DataNode \<Rightarrow> bool" where
  "same_kind n n' \<longleftrightarrow>
     dn_type n' = dn_type n \<and> ephemeral_id (dn_stat n') = ephemeral_id (dn_stat n)"

lemma persistent_at_replace:
  "N q = Some n \<Longrightarrow> same_kind n n' \<Longrightarrow> persistent_at (N(q \<mapsto> n')) x = persistent_at N x"
  by (simp add: persistent_at_def same_kind_def)

lemma child_names_replace: "N q = Some n \<Longrightarrow> child_names (N(q \<mapsto> n')) = child_names N"
  by (auto simp: child_names_def fun_eq_iff)

lemma shape_ok_replace:
  "shape_ok N \<Longrightarrow> N q = Some n \<Longrightarrow> same_kind n n' \<Longrightarrow> shape_ok (N(q \<mapsto> n'))"
  by (auto simp: shape_ok_def persistent_at_replace)

lemma ephemeral_rel_replace:
  "N q = Some n \<Longrightarrow> same_kind n n' \<Longrightarrow> ephemeral_rel (N(q \<mapsto> n')) = ephemeral_rel N"
  by (auto simp: ephemeral_rel_def same_kind_def split: if_splits)

lemma persistent_at_add: "N p = None \<Longrightarrow> persistent_at N x \<Longrightarrow> persistent_at (N(p \<mapsto> n)) x"
  by (auto simp: persistent_at_def)

lemma shape_ok_add:
  "shape_ok N \<Longrightarrow> persistent_at N q \<Longrightarrow> ParsePath p = (RC_OK, q, c) \<Longrightarrow> N p = None \<Longrightarrow>
     shape_ok (N(p \<mapsto> n))"
  by (auto simp: shape_ok_def intro!: persistent_at_add)

lemma child_names_add:
  "ParsePath p = (RC_OK, q, c) \<Longrightarrow>
     child_names (N(p \<mapsto> n)) x = (if x = q then insert c (child_names N q) else child_names N x)"
  by (auto simp: child_names_def)

lemma ephemeral_rel_add:
  "N p = None \<Longrightarrow> ephemeral_rel (N(p \<mapsto> n)) =
     (if is_ephemeral (dn_type n) then insert (ephemeral_id (dn_stat n), p) (ephemeral_rel N)
      else ephemeral_rel N)"
  by (auto simp: ephemeral_rel_def split: if_splits)

lemma persistent_at_del: "x \<noteq> p \<Longrightarrow> persistent_at (N(p := None)) x = persistent_at N x"
  by (simp add: persistent_at_def)

lemma shape_ok_del:
  assumes "shape_ok N" and "p \<noteq> []" and "child_names N p = {}"
  shows "shape_ok (N(p := None))"
proof -
  have "fst (snd (ParsePath x)) \<noteq> p" if "x \<in> dom N" and "fst (ParsePath x) = RC_OK" for x
    using assms(3) that unfolding child_names_def by (metis (mono_tags, lifting) Collect_empty_eq prod.collapse)
  then show ?thesis using assms(1,2) by (auto simp: shape_ok_def persistent_at_del)
qed

lemma child_names_del:
  "ParsePath p = (RC_OK, q, c) \<Longrightarrow>
     child_names (N(p := None)) x = (if x = q then child_names N q - {c} else child_names N x)"
  by (auto simp: child_names_def dest: ParsePath_inj)

lemma ephemeral_rel_del: "ephemeral_rel (N(p := None)) = ephemeral_rel N - UNIV \<times> {p}"
  by (auto simp: ephemeral_rel_def split: if_splits)

lemma children_ok_replace:
  "children_ok N C \<Longrightarrow> N q = Some n \<Longrightarrow> same_kind n n' \<Longrightarrow> children_ok (N(q \<mapsto> n')) C"
  by (simp add: children_ok_def child_names_replace persistent_at_replace)

lemma children_ok_add:
  "children_ok N C \<Longrightarrow> persistent_at N q \<Longrightarrow> ParsePath p = (RC_OK, q, c) \<Longrightarrow> N p = None \<Longrightarrow>
     children_ok (N(p \<mapsto> n)) (bk_insert q c C)"
  by (auto simp: children_ok_def child_names_add bk_at_insert find_bk_insert intro!: persistent_at_add)

lemma children_ok_del:
  assumes "children_ok N C" and "ParsePath p = (RC_OK, q, c)" and "um_find C p = None"
  shows "children_ok (N(p := None)) (bk_remove q c C)"
proof -
  have "persistent_at (N(p := None)) x" if "x \<in> dom (um_find (bk_remove q c C))" for x
  proof -
    have x: "um_find C x \<noteq> None" by (rule find_bk_remove_sub [OF that])
    then have "x \<noteq> p" using assms(3) by auto
    then show ?thesis using assms(1) x by (auto simp: children_ok_def persistent_at_del)
  qed
  then show ?thesis using assms(1)
    by (simp add: children_ok_def child_names_del [OF assms(2)] bk_at_remove)
qed

lemma same_kind_touch [simp]: "same_kind n (touch_parent txn cs n)"
  by (simp add: same_kind_def touch_parent_def)

lemma same_kind_write [simp]: "same_kind n (write_node r txn n)"
  by (simp add: same_kind_def write_node_def)

lemma fresh_child:
  "tree_okx D t \<Longrightarrow> ParsePath p = (RC_OK, q, c) \<Longrightarrow> c \<in> set (kids t q) \<longleftrightarrow> p \<in> dom (node_at t)"
  by (auto simp: tree_okx_kids child_names_def dest: ParsePath_inj)

section \<open>Create keeps the invariant\<close>

lemma tree_okx_touch:
  "tree_okx D t \<Longrightarrow> persistent_at (node_at t) q \<Longrightarrow>
     tree_okx D (t\<lparr>childrens := bk_touch q (childrens t)\<rparr>)"
  by (auto simp: tree_okx_def containers_ok_def children_ok_def node_ok_def find_bk_touch split: if_splits)

lemma node_ok_fill:
  "is_ephemeral (crq_node_type r) \<longrightarrow> tx_session_id txn \<noteq> 0 \<Longrightarrow> bk_at C p = [] \<Longrightarrow>
     node_ok C p (fill_node r txn DataNode_default)"
  by (simp add: node_ok_def fill_node_def default_defs)

lemma node_ok_touch: "node_ok C p n \<Longrightarrow> node_ok C' p (touch_parent txn (bk_at C' p) n)"
  by (simp add: node_ok_def touch_parent_def)

lemma node_ok_cong: "bk_at C' p = bk_at C p \<Longrightarrow> node_ok C' p n = node_ok C p n"
  by (simp add: node_ok_def)

lemma tree_okx_Create_insert:
  assumes ok: "tree_okx D t" and P: "ParsePath p = (RC_OK, q, c)"
    and m: "node_at t q = Some m" "\<not> is_ephemeral (dn_type m)"
    and c: "c \<notin> set (kids t q)"
    and sid: "is_ephemeral (crq_node_type r) \<longrightarrow> tx_session_id txn \<noteq> 0 \<and> tx_session_id txn \<notin> D"
  shows "tree_okx D (Create_insert r txn q m c p t)"
proof -
  let ?t' = "Create_insert r txn q m c p t"
  let ?C = "bk_insert q c (childrens t)"
  let ?m = "touch_parent txn (bk_at ?C q) m"
  let ?n = "fill_node r txn DataNode_default"
  let ?M = "(node_at t)(q \<mapsto> ?m)"
  have p: "node_at t p = None" using fresh_child [OF ok P] c by blast
  have pq: "p \<noteq> q" using ParsePath_neq [OF P] by simp
  have N': "node_at ?t' = ?M(p \<mapsto> ?n)" and C': "childrens ?t' = ?C"
    using p pq by (simp_all add: Create_insert_def Let_def)
  have pers: "persistent_at ?M x = persistent_at (node_at t) x" for x
    using m by (simp add: persistent_at_replace)
  have q: "persistent_at (node_at t) q" using m by (simp add: persistent_at_def)
  have kp: "bk_at ?C p = []"
    using tree_okx_no_bucket [OF ok, of p] p pq by (simp add: bk_at_insert persistent_at_None)
  have "shape_ok (?M(p \<mapsto> ?n))"
    by (rule shape_ok_add [OF shape_ok_replace _ P]) (use ok m p pq q in \<open>auto simp: tree_okx_def pers\<close>)
  moreover have "children_ok (?M(p \<mapsto> ?n)) ?C"
    by (rule children_ok_add [OF children_ok_replace _ P]) (use ok m p pq q in \<open>auto simp: tree_okx_def pers\<close>)
  moreover have "bk_rel (ephemerals ?t') = ephemeral_rel (?M(p \<mapsto> ?n)) - D \<times> UNIV"
    using ok sid p pq m ephemeral_rel_add [of ?M p ?n]
    by (auto simp: tree_okx_def Create_insert_def Let_def fill_node_def ephemeral_rel_replace)
  moreover have "containers_ok ?t'"
    using ok by (auto simp: tree_okx_def containers_ok_def Create_insert_def Let_def)
  moreover have "node_ok ?C x n" if "(?M(p \<mapsto> ?n)) x = Some n" for x n
    using that ok m sid kp pq
    by (auto simp: tree_okx_def node_ok_fill intro!: node_ok_touch split: if_splits)
      (auto simp: node_ok_def bk_at_insert)
  ultimately show ?thesis by (simp add: tree_okx_def N' C')
qed

lemma Create_elim:
  assumes "DataTree_Create r txn resp oc t = (t', resp', ns)"
  obtains
    (reject) rc where "rc \<noteq> RC_OK" "resp' = resp\<lparr>crr_code := rc\<rparr>" "t' = t" "ns = []"
  | (check) q c m where "oc" "ParsePath (crq_path r) = (RC_OK, q, c)"
      "node_at t q = Some m" "\<not> is_ephemeral (dn_type m)" "c \<notin> set (kids t q)"
      "resp' = resp\<lparr>crr_code := RC_OK\<rparr>" "t' = t\<lparr>childrens := bk_touch q (childrens t)\<rparr>" "ns = []"
  | (insert) q c m sfx where "\<not> oc" "ParsePath (crq_path r) = (RC_OK, q, c)"
      "node_at t q = Some m" "\<not> is_ephemeral (dn_type m)"
      "sfx = (if is_sequential (dn_type m) then seq_suffix (children_version (dn_stat m)) else [])"
      "c @ sfx \<notin> set (kids t q)"
      "resp' = resp\<lparr>crr_code := RC_OK, crr_path := crq_path r @ sfx\<rparr>"
      "t' = fst (trigger_change (crq_path r @ sfx) ET_NODE_CREATED q
         (Create_insert r txn q m (c @ sfx) (crq_path r @ sfx)
            (t\<lparr>childrens := bk_touch q (childrens t)\<rparr>)))"
      "ns = snd (trigger_change (crq_path r @ sfx) ET_NODE_CREATED q
         (Create_insert r txn q m (c @ sfx) (crq_path r @ sfx)
            (t\<lparr>childrens := bk_touch q (childrens t)\<rparr>)))"
proof -
  obtain rc q c where P: "ParsePath (crq_path r) = (rc, q, c)" by (cases "ParsePath (crq_path r)") auto
  have touch_id: "x \<in> set (kids t q) \<Longrightarrow> t\<lparr>childrens := bk_touch q (childrens t)\<rparr> = t" for x
    by (subst bk_touch_id) auto
  show ?thesis
  proof (cases "rc = RC_OK \<and> (\<exists>m. node_at t q = Some m \<and> \<not> is_ephemeral (dn_type m))")
    case False
    then show ?thesis using assms reject unfolding DataTree_Create_def P
      by (auto split: option.splits if_splits)
  next
    case True
    then obtain m where m: "rc = RC_OK" "node_at t q = Some m" "\<not> is_ephemeral (dn_type m)" by auto
    let ?s = "if is_sequential (dn_type m) \<and> \<not> oc then seq_suffix (children_version (dn_stat m)) else []"
    show ?thesis
    proof (cases "c @ ?s \<in> set (kids t q)")
      case True
      then have "resp' = resp\<lparr>crr_code := RC_NODE_EXISTS\<rparr>" "t' = t" "ns = []"
        using assms m touch_id unfolding DataTree_Create_def P by (auto simp: Let_def)
      then show ?thesis using reject [of RC_NODE_EXISTS] by simp
    next
      case False
      show ?thesis
      proof (cases oc)
        case True
        show ?thesis
          by (rule check [OF True P [unfolded m(1)] m(2,3)])
            (use assms m False True in \<open>simp_all add: DataTree_Create_def P Let_def\<close>)
      next
        case oc: False
        show ?thesis
          by (rule insert [OF oc P [unfolded m(1)] m(2,3) refl])
            (use assms m False oc in \<open>simp_all add: DataTree_Create_def P Let_def case_prod_beta\<close>)
      qed
    qed
  qed
qed

lemma ParsePath_append:
  "ParsePath p = (RC_OK, q, c) \<Longrightarrow> slash \<notin> set s \<Longrightarrow> ParsePath (p @ s) = (RC_OK, q, c @ s)"
  by (simp add: ParsePath_OK)

section \<open>Delete keeps the invariant\<close>

lemma Delete_node_frame [simp]:
  "nodes (Delete_node p n t) = um_erase p (nodes t)"
  "childrens (Delete_node p n t) = childrens t"
  "data_watches (Delete_node p n t) = data_watches t"
  "child_watches (Delete_node p n t) = child_watches t"
  by (simp_all add: Delete_node_def Let_def)

lemma Delete_unlink_OK:
  assumes ok: "tree_okx D t" and P: "ParsePath p = (RC_OK, q, c)" and n: "node_at t p = Some n"
  obtains m where "node_at t q = Some m" "\<not> is_ephemeral (dn_type m)"
    "Delete_unlink txn q c (Delete_node p n t) =
       (RC_OK, (Delete_node p n t)
          \<lparr>nodes := um_set q (touch_parent txn (us_erase c (kids t q)) m) (um_erase p (nodes t)),
           childrens := bk_remove q c (childrens t)\<rparr>)"
proof -
  have "persistent_at (node_at t) q" using tree_okx_parent [OF ok _ P] n by simp
  then obtain m where m: "node_at t q = Some m" "\<not> is_ephemeral (dn_type m)"
    by (auto simp: persistent_at_def)
  have c: "c \<in> set (kids t q)" using fresh_child [OF ok P] n by auto
  then have "um_find (childrens t) q \<noteq> None"
    by (cases "um_find (childrens t) q") (auto simp: bk_at_def)
  then show ?thesis
    by (intro that [OF m]) (use m c ParsePath_neq [OF P] in \<open>auto simp: Delete_unlink_def Let_def\<close>)
qed

lemma ephemerals_Delete_node:
  assumes ok: "tree_okx D t" and n: "node_at t p = Some n"
  shows "bk_rel (ephemerals (Delete_node p n t)) = ephemeral_rel ((node_at t)(p := None)) - D \<times> UNIV"
proof -
  have "node_ok (childrens t) p n" using ok n by (simp add: tree_okx_def)
  then have "ephemeral_rel (node_at t) - UNIV \<times> {p} =
      (if ephemeral_id (dn_stat n) = 0 then ephemeral_rel (node_at t)
       else ephemeral_rel (node_at t) - {(ephemeral_id (dn_stat n), p)})"
    using n by (auto simp: node_ok_def ephemeral_rel_def)
  then show ?thesis using ok by (auto simp: tree_okx_def Delete_node_def Let_def ephemeral_rel_del)
qed

lemma tree_okx_Delete:
  assumes ok: "tree_okx D t" and P: "ParsePath p = (RC_OK, q, c)" and n: "node_at t p = Some n"
    and leaf: "um_find (childrens t) p = None"
  shows "tree_okx D (snd (Delete_unlink txn q c (Delete_node p n t)))" (is "tree_okx D ?t'")
proof -
  let ?M = "(node_at t)(p := None)"
  obtain m where m: "node_at t q = Some m" "\<not> is_ephemeral (dn_type m)"
    and u: "Delete_unlink txn q c (Delete_node p n t) =
       (RC_OK, (Delete_node p n t)
          \<lparr>nodes := um_set q (touch_parent txn (us_erase c (kids t q)) m) (um_erase p (nodes t)),
           childrens := bk_remove q c (childrens t)\<rparr>)"
    using Delete_unlink_OK [OF ok P n] by metis
  let ?C = "bk_remove q c (childrens t)"
  let ?m = "touch_parent txn (bk_at ?C q) m"
  have pq: "p \<noteq> q" using ParsePath_neq [OF P] by simp
  have N': "node_at ?t' = ?M(q \<mapsto> ?m)" and C': "childrens ?t' = ?C"
    by (simp_all add: u bk_at_remove)
  have Mq: "?M q = Some m" using m pq by simp
  have er: "ephemeral_rel (?M(q \<mapsto> ?m)) = ephemeral_rel ?M" using Mq by (simp add: ephemeral_rel_replace)
  have "kids t p = []" using leaf by (simp add: bk_at_def)
  then have "child_names (node_at t) p = {}" using tree_okx_kids [OF ok, of p] by simp
  then have "shape_ok (?M(q \<mapsto> ?m))"
    using ok ParsePath_neq [OF P] by (intro shape_ok_replace [OF shape_ok_del Mq]) (auto simp: tree_okx_def)
  moreover have "children_ok (?M(q \<mapsto> ?m)) ?C"
    by (rule children_ok_replace [OF children_ok_del [OF _ P leaf] Mq]) (use ok in \<open>auto simp: tree_okx_def\<close>)
  moreover have "bk_rel (ephemerals ?t') = ephemeral_rel (?M(q \<mapsto> ?m)) - D \<times> UNIV"
    using ephemerals_Delete_node [OF ok n] by (simp add: u er)
  moreover have "containers_ok ?t'"
    unfolding u using ok by (auto simp: tree_okx_def containers_ok_def Delete_node_def Let_def)
  moreover have "node_ok ?C x k" if "(?M(q \<mapsto> ?m)) x = Some k" for x k
    using that ok m
    by (auto simp: tree_okx_def intro!: node_ok_touch split: if_splits)
      (auto simp: node_ok_def bk_at_remove)
  ultimately show ?thesis by (simp add: tree_okx_def N' C')
qed

lemma Delete_elim:
  assumes "DataTree_Delete r txn resp oc t = (t', resp', ns)"
  obtains
    (reject) rc where "rc \<noteq> RC_OK" "resp' = resp\<lparr>dlr_code := rc\<rparr>" "t' = t" "ns = []"
  | (check) "oc" "resp' = resp\<lparr>dlr_code := RC_OK\<rparr>" "t' = t" "ns = []"
  | (remove) q c n where "\<not> oc" "ParsePath (dlq_path r) = (RC_OK, q, c)"
      "node_at t (dlq_path r) = Some n"
      "dlq_version r = - 1 \<or> dlq_version r = version (dn_stat n)"
      "um_find (childrens t) (dlq_path r) = None"
      "resp' = resp\<lparr>dlr_code := fst (Delete_unlink txn q c (Delete_node (dlq_path r) n t))\<rparr>"
      "t' = fst (trigger_change (dlq_path r) ET_NODE_DELETED q
         (snd (Delete_unlink txn q c (Delete_node (dlq_path r) n t))))"
      "ns = snd (trigger_change (dlq_path r) ET_NODE_DELETED q
         (snd (Delete_unlink txn q c (Delete_node (dlq_path r) n t))))"
proof -
  obtain rc q c where P: "ParsePath (dlq_path r) = (rc, q, c)" by (cases "ParsePath (dlq_path r)") auto
  show ?thesis
  proof (cases "rc = RC_OK \<and> (\<exists>n. node_at t (dlq_path r) = Some n \<and>
      (dlq_version r = - 1 \<or> dlq_version r = version (dn_stat n))) \<and>
      um_find (childrens t) (dlq_path r) = None")
    case False
    then show ?thesis using assms reject
      by (auto simp: DataTree_Delete_def P Let_def split: option.splits if_splits)
  next
    case True
    then obtain n where n: "rc = RC_OK" "node_at t (dlq_path r) = Some n"
      "dlq_version r = - 1 \<or> dlq_version r = version (dn_stat n)"
      "um_find (childrens t) (dlq_path r) = None" by auto
    show ?thesis
    proof (cases oc)
      case True
      then show ?thesis using check assms n by (auto simp: DataTree_Delete_def P Let_def)
    next
      case False
      show ?thesis
        by (rule remove [OF False P [unfolded n(1)] n(2-4)])
          (use assms n False in \<open>auto simp: DataTree_Delete_def P Let_def case_prod_beta\<close>)
    qed
  qed
qed

lemma SetData_elim:
  assumes "DataTree_SetData r txn resp oc t = (t', resp', ns)"
  obtains
    (reject) rc where "rc \<noteq> RC_OK" "resp' = resp\<lparr>sdr_code := rc\<rparr>" "t' = t" "ns = []"
  | (check) "oc" "resp' = resp\<lparr>sdr_code := RC_OK\<rparr>" "t' = t" "ns = []"
  | (update) q c n where "\<not> oc" "ParsePath (sdq_path r) = (RC_OK, q, c)"
      "node_at t (sdq_path r) = Some n"
      "sdq_version r = - 1 \<or> sdq_version r = version (dn_stat n)"
      "resp' = resp\<lparr>sdr_code := RC_OK, sdr_stat := dn_stat (write_node r txn n)\<rparr>"
      "t' = fst (trigger_data (sdq_path r) ET_NODE_DATA_CHANGED
         (t\<lparr>nodes := um_set (sdq_path r) (write_node r txn n) (nodes t)\<rparr>))"
      "ns = snd (trigger_data (sdq_path r) ET_NODE_DATA_CHANGED
         (t\<lparr>nodes := um_set (sdq_path r) (write_node r txn n) (nodes t)\<rparr>))"
proof -
  obtain rc q c where P: "ParsePath (sdq_path r) = (rc, q, c)" by (cases "ParsePath (sdq_path r)") auto
  show ?thesis
  proof (cases "rc = RC_OK \<and> (\<exists>n. node_at t (sdq_path r) = Some n \<and>
      (sdq_version r = - 1 \<or> sdq_version r = version (dn_stat n)))")
    case False
    then show ?thesis using assms reject
      by (auto simp: DataTree_SetData_def P Let_def split: option.splits if_splits)
  next
    case True
    then obtain n where n: "rc = RC_OK" "node_at t (sdq_path r) = Some n"
      "sdq_version r = - 1 \<or> sdq_version r = version (dn_stat n)" by auto
    show ?thesis
    proof (cases oc)
      case True
      then show ?thesis using check assms n by (auto simp: DataTree_SetData_def P Let_def)
    next
      case False
      show ?thesis
        by (rule update [OF False P [unfolded n(1)] n(2,3)])
          (use assms n False in \<open>auto simp: DataTree_SetData_def P Let_def case_prod_beta\<close>)
    qed
  qed
qed

lemma tree_okx_write:
  assumes ok: "tree_okx D t" and n: "node_at t p = Some n"
  shows "tree_okx D (t\<lparr>nodes := um_set p (write_node r txn n) (nodes t)\<rparr>)"
proof -
  have "node_ok (childrens t) p n" using ok n by (simp add: tree_okx_def)
  then have "node_ok (childrens t) p (write_node r txn n)" by (simp add: node_ok_def write_node_def)
  moreover have "ephemeral_rel ((node_at t)(p \<mapsto> write_node r txn n)) = ephemeral_rel (node_at t)"
    by (rule ephemeral_rel_replace [where n = n]) (simp_all add: n)
  moreover have "shape_ok ((node_at t)(p \<mapsto> write_node r txn n))"
    by (rule shape_ok_replace [where n = n]) (use ok n in \<open>simp_all add: tree_okx_def\<close>)
  moreover have "children_ok ((node_at t)(p \<mapsto> write_node r txn n)) (childrens t)"
    by (rule children_ok_replace [where n = n]) (use ok n in \<open>simp_all add: tree_okx_def\<close>)
  ultimately show ?thesis using ok by (simp add: tree_okx_def containers_ok_def)
qed

end
