(* ===== verification/DataTree_Ops.thy ===== *)
theory DataTree_Ops
  imports DataTree_Inv
begin

text \<open>
  The operations of \<^verbatim>\<open>DataTree\<close> as a whole: every public operation keeps the invariant, the sequence
  suffix of \<^verbatim>\<open>snprintf\<close> is never cut off, and what a successful write changes is exactly one path of
  the content. \<^verbatim>\<open>KillSession\<close> removes exactly the ephemeral nodes of the session.
\<close>

section \<open>The sequence suffix\<close>

lemma sint_i32_bound: "\<bar>sint (v :: i32)\<bar> < 10 ^ 10"
proof -
  have "sint v < 2 ^ 31" and "- (2 ^ 31) \<le> sint v"
    using sint_lt [of v] sint_ge [of v] by simp_all
  then show ?thesis by simp
qed

lemma seq_suffix_full: "seq_suffix v = CHR ''_'' # fmt_010d (sint (v + 1))"
  using fmt_010d_length [OF sint_i32_bound, of "v + 1"] by (simp add: seq_suffix_def)

lemma slash_not_in_seq_suffix: "slash \<notin> set (seq_suffix v)"
  by (simp add: seq_suffix_full slash_not_in_fmt)

section \<open>Every operation keeps the invariant\<close>

lemma tree_okx_Create:
  assumes ok: "tree_okx D t"
    and sid: "is_ephemeral (crq_node_type r) \<longrightarrow> tx_session_id txn \<noteq> 0 \<and> tx_session_id txn \<notin> D"
  shows "tree_okx D (fst (DataTree_Create r txn resp oc t))"
proof -
  obtain t' resp' ns where E: "DataTree_Create r txn resp oc t = (t', resp', ns)"
    by (cases "DataTree_Create r txn resp oc t") auto
  from E have "tree_okx D t'"
  proof (cases rule: Create_elim)
    case reject
    then show ?thesis using ok by simp
  next
    case (check q c m)
    then show ?thesis using tree_okx_touch [OF ok] by (simp add: persistent_at_def)
  next
    case (insert q c m sfx)
    have "ParsePath (crq_path r @ sfx) = (RC_OK, q, c @ sfx)"
      using insert by (intro ParsePath_append) (auto simp: slash_not_in_seq_suffix)
    moreover have "tree_okx D (t\<lparr>childrens := bk_touch q (childrens t)\<rparr>)"
      using insert tree_okx_touch [OF ok] by (simp add: persistent_at_def)
    ultimately have "tree_okx D (Create_insert r txn q m (c @ sfx) (crq_path r @ sfx)
        (t\<lparr>childrens := bk_touch q (childrens t)\<rparr>))"
      using insert sid by (intro tree_okx_Create_insert) auto
    then show ?thesis using insert by (simp add: tree_okx_trigger_change)
  qed
  then show ?thesis by (simp add: E)
qed

lemma tree_okx_Delete_op:
  assumes ok: "tree_okx D t"
  shows "tree_okx D (fst (DataTree_Delete r txn resp oc t))"
proof -
  obtain t' resp' ns where E: "DataTree_Delete r txn resp oc t = (t', resp', ns)"
    by (cases "DataTree_Delete r txn resp oc t") auto
  from E have "tree_okx D t'"
    by (cases rule: Delete_elim) (use ok in \<open>auto intro!: tree_okx_trigger_change tree_okx_Delete\<close>)
  then show ?thesis by (simp add: E)
qed

lemma tree_okx_SetData:
  assumes ok: "tree_okx D t"
  shows "tree_okx D (fst (DataTree_SetData r txn resp oc t))"
proof -
  obtain t' resp' ns where E: "DataTree_SetData r txn resp oc t = (t', resp', ns)"
    by (cases "DataTree_SetData r txn resp oc t") auto
  from E have "tree_okx D t'"
    by (cases rule: SetData_elim) (use ok in \<open>auto intro!: tree_okx_trigger_data tree_okx_write\<close>)
  then show ?thesis by (simp add: E)
qed

lemma tree_okx_Exists: "tree_okx D t \<Longrightarrow> tree_okx D (fst (DataTree_Exists r w resp t))"
  by (auto simp: DataTree_Exists_def Let_def tree_okx_add_data_watch split: prod.splits option.splits)

lemma tree_okx_GetData: "tree_okx D t \<Longrightarrow> tree_okx D (fst (DataTree_GetData r w resp t))"
  by (auto simp: DataTree_GetData_def Let_def tree_okx_add_data_watch split: prod.splits option.splits)

lemma tree_okx_GetChildren: "tree_okx D t \<Longrightarrow> tree_okx D (fst (DataTree_GetChildren r w resp t))"
  by (auto simp: DataTree_GetChildren_def Let_def tree_okx_def containers_ok_def swm_rules
      split: prod.splits option.splits)

lemma tree_okx_RemoveWatcher: "tree_okx D t \<Longrightarrow> tree_okx D (DataTree_RemoveWatcher w t)"
  by (simp add: DataTree_RemoveWatcher_def tree_okx_def containers_ok_def swm_rules)

section \<open>What a write changes: the content of the tree\<close>

text \<open>
  The content of a node is everything but the three counters that record changes among its
  children. On the content, a successful write changes exactly one path.
\<close>

definition node_core :: "DataNode \<Rightarrow> DataNode" where
  "node_core n =
     n\<lparr>dn_stat := (dn_stat n)\<lparr>children_version := 0, children_num := 0, children_id := 0\<rparr>\<rparr>"

definition content :: "DataTree \<Rightarrow> string \<rightharpoonup> DataNode" where
  "content t p = map_option node_core (node_at t p)"

lemma dom_content [simp]: "dom (content t) = dom (node_at t)"
  by (auto simp: content_def)

lemma node_core_touch [simp]: "node_core (touch_parent txn cs n) = node_core n"
  by (simp add: node_core_def touch_parent_def)

lemma node_core_kind [simp]:
  "dn_type (node_core n) = dn_type n"
  "dn_data (node_core n) = dn_data n"
  "ephemeral_id (dn_stat (node_core n)) = ephemeral_id (dn_stat n)"
  "version (dn_stat (node_core n)) = version (dn_stat n)"
  by (simp_all add: node_core_def)

lemma content_cong: "nodes t' = nodes t \<Longrightarrow> content t' = content t"
  by (simp add: content_def fun_eq_iff)

lemma content_Delete:
  assumes ok: "tree_okx D t" and P: "ParsePath p = (RC_OK, q, c)" and n: "node_at t p = Some n"
  shows "content (snd (Delete_unlink txn q c (Delete_node p n t))) = (content t)(p := None)"
  by (rule Delete_unlink_OK [OF ok P n, of txn]) (use ParsePath_neq [OF P] in \<open>auto simp: content_def fun_eq_iff\<close>)

lemma content_write:
  "content (t\<lparr>nodes := um_set p n (nodes t)\<rparr>) = (content t)(p \<mapsto> node_core n)"
  by (auto simp: content_def fun_eq_iff)

section \<open>Killing a session\<close>

lemma Delete_ephemeral:
  assumes ok: "tree_okx D t" and n: "node_at t p = Some n" and eph: "is_ephemeral (dn_type n)"
    and E: "DataTree_Delete \<lparr>dlq_path = p, dlq_version = - 1\<rparr> txn resp False t = (t', resp', ns)"
  shows "tree_okx D t' \<and> content t' = (content t)(p := None) \<and> dlr_code resp' = RC_OK"
proof -
  have "p \<noteq> []" using ok n eph by (auto simp: tree_okx_def shape_ok_def persistent_at_def)
  then have "fst (ParsePath p) = RC_OK" using ok n by (auto simp: tree_okx_def shape_ok_def)
  then obtain q c where P: "ParsePath p = (RC_OK, q, c)" by (metis prod.collapse)
  have leaf: "um_find (childrens t) p = None"
    using tree_okx_no_bucket [OF ok, of p] n eph by (simp add: persistent_at_Some)
  have u: "fst (Delete_unlink txn q c (Delete_node p n t)) = RC_OK"
    by (rule Delete_unlink_OK [OF ok P n, of txn]) simp
  have "t' = fst (trigger_change p ET_NODE_DELETED q (snd (Delete_unlink txn q c (Delete_node p n t))))"
    and "dlr_code resp' = RC_OK"
    using E n leaf u by (auto simp: DataTree_Delete_def P Let_def case_prod_beta)
  then show ?thesis using tree_okx_Delete [OF ok P n leaf, of txn] content_Delete [OF ok P n, of txn]
    by (simp add: tree_okx_trigger_change content_def fun_eq_iff)
qed

lemma kill_loop_spec:
  assumes "tree_okx D t" and "distinct ps"
    and "\<forall>p \<in> set ps. \<exists>n. node_at t p = Some n \<and> is_ephemeral (dn_type n)"
    and "kill_loop txn ps resp t = (t', ns)"
  shows "tree_okx D t' \<and> content t' = (content t) |` (- set ps)"
  using assms
proof (induction ps arbitrary: t resp t' ns)
  case Nil
  then show ?case by simp
next
  case (Cons p ps)
  obtain t1 resp1 ns1 where E: "DataTree_Delete \<lparr>dlq_path = p, dlq_version = - 1\<rparr> txn resp False t =
      (t1, resp1, ns1)" by (cases "DataTree_Delete \<lparr>dlq_path = p, dlq_version = - 1\<rparr> txn resp False t") auto
  obtain ns2 where L: "kill_loop txn ps resp1 t1 = (t', ns2)"
    using Cons.prems(4) E by (auto simp: case_prod_beta Let_def) (metis prod.collapse)
  obtain n where n: "node_at t p = Some n" "is_ephemeral (dn_type n)" using Cons.prems(3) by auto
  have D: "tree_okx D t1" "content t1 = (content t)(p := None)"
    using Delete_ephemeral [OF Cons.prems(1) n E] by auto
  have eph: "\<forall>x \<in> set ps. \<exists>n. node_at t1 x = Some n \<and> is_ephemeral (dn_type n)"
  proof
    fix x assume x: "x \<in> set ps"
    then obtain k where k: "node_at t x = Some k" "is_ephemeral (dn_type k)" using Cons.prems(3) by auto
    have "content t1 x = content t x" using D(2) x Cons.prems(2) by auto
    then show "\<exists>n. node_at t1 x = Some n \<and> is_ephemeral (dn_type n)"
      using k by (auto simp: content_def) (metis node_core_kind(1))
  qed
  show ?case using Cons.IH [OF D(1) _ eph L] Cons.prems(2) D(2)
    by (auto simp: restrict_map_def fun_eq_iff)
qed

lemma ephemeral_rel_content: "ephemeral_rel (content t) = ephemeral_rel (node_at t)"
  by (auto simp: ephemeral_rel_def content_def)

definition owned_by :: "u64 \<Rightarrow> DataTree \<Rightarrow> string set" where
  "owned_by sid t = {p. (sid, p) \<in> ephemeral_rel (node_at t)}"

lemma owned_by_bucket: "tree_ok t \<Longrightarrow> owned_by sid t = set (bk_at (ephemerals t) sid)"
  by (auto simp: owned_by_def tree_ok_def tree_okx_def simp flip: bk_rel_iff)

lemma KillSession_content:
  assumes ok: "tree_ok t"
  shows "tree_ok (fst (DataTree_KillSession sid txn t)) \<and>
    content (fst (DataTree_KillSession sid txn t)) = (content t) |` (- owned_by sid t)"
proof (cases "um_find (ephemerals t) sid")
  case None
  then have "owned_by sid t = {}" using owned_by_bucket [OF ok] by (simp add: bk_at_def)
  then show ?thesis using None ok
    by (simp add: DataTree_KillSession_def restrict_map_def fun_eq_iff)
next
  case (Some paths)
  let ?t = "t\<lparr>ephemerals := um_erase sid (ephemerals t)\<rparr>"
  obtain t' ns where L: "kill_loop txn paths DeleteResponse_default ?t = (t', ns)"
    by (cases "kill_loop txn paths DeleteResponse_default ?t") auto
  have paths: "bk_at (ephemerals t) sid = paths" using Some by (simp add: bk_at_def)
  then have own: "set paths = owned_by sid t" using owned_by_bucket [OF ok] by simp
  have okt: "tree_okx {sid} ?t" using ok by (auto simp: tree_ok_def tree_okx_def containers_ok_def)
  have "distinct paths" using ok paths by (auto simp: tree_ok_def tree_okx_def containers_ok_def bk_wf_def)
  moreover have "\<forall>p \<in> set paths. \<exists>n. node_at ?t p = Some n \<and> is_ephemeral (dn_type n)"
    using own by (auto simp: owned_by_def ephemeral_rel_def)
  ultimately have K: "tree_okx {sid} t' \<and> content t' = content ?t |` (- set paths)"
    using kill_loop_spec [OF okt _ _ L] by blast
  moreover have "ephemeral_rel (node_at t') \<inter> {sid} \<times> UNIV = {}"
    using K own by (auto simp: owned_by_def ephemeral_rel_content [symmetric])
      (auto simp: ephemeral_rel_def restrict_map_def content_def split: if_splits)
  ultimately have "tree_ok t'" by (auto simp: tree_ok_def tree_okx_def)
  then show ?thesis using K own Some L
    by (simp add: DataTree_KillSession_def content_def fun_eq_iff restrict_map_def)
qed
end
