(* ===== verification/DataTree_Props.thy ===== *)
theory DataTree_Props
  imports DataTree_Ops
begin

text \<open>
  What \<^verbatim>\<open>DataTree\<close> promises to its callers: the shape of every reachable tree, the response code of
  every branch, and the effect of a successful write.
\<close>

section \<open>Reachable trees\<close>

inductive tree_step :: "DataTree \<Rightarrow> DataTree \<Rightarrow> bool" where
  step_create: "is_ephemeral (crq_node_type r) \<longrightarrow> tx_session_id txn \<noteq> 0 \<Longrightarrow>
     tree_step t (fst (DataTree_Create r txn resp oc t))"
| step_delete: "tree_step t (fst (DataTree_Delete dr txn dresp oc t))"
| step_set_data: "tree_step t (fst (DataTree_SetData sr txn sresp oc t))"
| step_exists: "tree_step t (fst (DataTree_Exists er w eresp t))"
| step_get_data: "tree_step t (fst (DataTree_GetData gr w gresp t))"
| step_get_children: "tree_step t (fst (DataTree_GetChildren cr w cresp t))"
| step_remove_watcher: "tree_step t (DataTree_RemoveWatcher v t)"
| step_kill_session: "tree_step t (fst (DataTree_KillSession sid txn t))"

inductive tree_reach :: "DataTree \<Rightarrow> bool" where
  reach_new: "tree_reach DataTree_new"
| reach_step: "tree_reach t \<Longrightarrow> tree_step t t' \<Longrightarrow> tree_reach t'"

lemma tree_step_ok: "tree_step t t' \<Longrightarrow> tree_ok t \<Longrightarrow> tree_ok t'"
  by (induction rule: tree_step.induct)
    (simp_all add: tree_ok_def tree_okx_Create tree_okx_Delete_op tree_okx_SetData tree_okx_Exists
      tree_okx_GetData tree_okx_GetChildren tree_okx_RemoveWatcher
      KillSession_content [unfolded tree_ok_def])

lemma tree_reach_ok: "tree_reach t \<Longrightarrow> tree_ok t"
  by (induction rule: tree_reach.induct) (auto intro: tree_okx_new tree_step_ok)

section \<open>Behaviour of Create\<close>

definition create_suffix :: "DataNode \<Rightarrow> string" where
  "create_suffix m =
     (if is_sequential (dn_type m) then seq_suffix (children_version (dn_stat m)) else [])"

theorem Create_code:
  "crr_code (fst (snd (DataTree_Create r txn resp False t))) =
     (case ParsePath (crq_path r) of (rc, q, c) \<Rightarrow>
        if rc \<noteq> RC_OK then RC_ERRPATH
        else case node_at t q of
          None \<Rightarrow> RC_NO_PARENT
        | Some m \<Rightarrow> if is_ephemeral (dn_type m) then RC_PARENT_EPHEMERAL
            else if c @ create_suffix m \<in> set (kids t q) then RC_NODE_EXISTS else RC_OK)"
  using ParsePath_code [of "crq_path r"]
  by (auto simp: DataTree_Create_def Let_def case_prod_beta create_suffix_def split: option.splits)

lemma Create_OK:
  assumes ok: "tree_okx D t"
    and E: "DataTree_Create r txn resp False t = (t', resp', ns)" and code: "crr_code resp' = RC_OK"
  obtains q c m p where "ParsePath (crq_path r) = (RC_OK, q, c)" "node_at t q = Some m"
    "\<not> is_ephemeral (dn_type m)" "p = crq_path r @ create_suffix m"
    "ParsePath p = (RC_OK, q, c @ create_suffix m)" "resp' = resp\<lparr>crr_code := RC_OK, crr_path := p\<rparr>"
    "node_at t p = None"
    "node_at t' = (node_at t)(q \<mapsto> touch_parent txn (kids t' q) m, p \<mapsto> fill_node r txn DataNode_default)"
    "childrens t' = bk_insert q (c @ create_suffix m) (bk_touch q (childrens t))"
    "content t' = (content t)(p \<mapsto> node_core (fill_node r txn DataNode_default))"
    "\<exists>t0. data_watches t0 = data_watches t \<and> child_watches t0 = child_watches t \<and>
       (t', ns) = trigger_change p ET_NODE_CREATED q t0"
  using E
proof (cases rule: Create_elim)
  case reject
  then show ?thesis using code by simp
next
  case check
  then show ?thesis by simp
next
  case (insert q c m sfx)
  let ?p = "crq_path r @ create_suffix m"
  let ?t = "t\<lparr>childrens := bk_touch q (childrens t)\<rparr>"
  let ?t0 = "Create_insert r txn q m (c @ create_suffix m) ?p ?t"
  have sfx: "sfx = create_suffix m" using insert by (simp add: create_suffix_def)
  have P: "ParsePath ?p = (RC_OK, q, c @ create_suffix m)"
    using insert by (intro ParsePath_append) (auto simp: create_suffix_def slash_not_in_seq_suffix)
  have None: "node_at t ?p = None" using fresh_child [OF ok P] insert(6) by (auto simp: sfx)
  have pq: "?p \<noteq> q" using ParsePath_neq [OF P] by simp
  have t': "t' = fst (trigger_change ?p ET_NODE_CREATED q ?t0)" using insert by (simp add: sfx)
  have W: "data_watches ?t0 = data_watches t \<and> child_watches ?t0 = child_watches t"
    by (simp add: Create_insert_def Let_def)
  have N: "node_at t' = (node_at t)(q \<mapsto> touch_parent txn (kids t' q) m, ?p \<mapsto> fill_node r txn DataNode_default)"
    and C: "childrens t' = bk_insert q (c @ create_suffix m) (bk_touch q (childrens t))"
    using None pq by (simp_all add: t' Create_insert_def Let_def bk_at_insert)
  have K: "content t' = (content t)(?p \<mapsto> node_core (fill_node r txn DataNode_default))"
    using insert(3) pq by (auto simp: content_def N fun_eq_iff)
  show ?thesis
    by (rule that [OF insert(2-4) refl P _ None N C K])
      (use insert W in \<open>auto simp: sfx intro!: exI [of _ ?t0]\<close>)
qed

theorem Create_changes_one_path:
  assumes "tree_ok t" and "DataTree_Create r txn resp False t = (t', resp', ns)"
  shows "if crr_code resp' = RC_OK
    then node_at t (crr_path resp') = None \<and>
      content t' = (content t)(crr_path resp' \<mapsto> node_core (fill_node r txn DataNode_default))
    else t' = t \<and> ns = []"
proof (cases "crr_code resp' = RC_OK")
  case True
  show ?thesis
    by (rule Create_OK [OF assms(1) [unfolded tree_ok_def] assms(2) True]) (simp add: True)
next
  case False
  from assms(2) show ?thesis
    by (cases rule: Create_elim) (use False in \<open>simp_all\<close>)
qed

section \<open>Behaviour of Delete and SetData\<close>

lemma Delete_OK:
  assumes ok: "tree_okx D t"
    and E: "DataTree_Delete r txn resp False t = (t', resp', ns)" and code: "dlr_code resp' = RC_OK"
  obtains q c n m where "ParsePath (dlq_path r) = (RC_OK, q, c)" "node_at t (dlq_path r) = Some n"
    "dlq_version r = - 1 \<or> dlq_version r = version (dn_stat n)"
    "um_find (childrens t) (dlq_path r) = None" "node_at t q = Some m"
    "node_at t' = (node_at t)(dlq_path r := None, q \<mapsto> touch_parent txn (kids t' q) m)"
    "childrens t' = bk_remove q c (childrens t)"
    "content t' = (content t)(dlq_path r := None)"
    "\<exists>t0. data_watches t0 = data_watches t \<and> child_watches t0 = child_watches t \<and>
       (t', ns) = trigger_change (dlq_path r) ET_NODE_DELETED q t0"
  using E
proof (cases rule: Delete_elim)
  case reject
  then show ?thesis using code by simp
next
  case check
  then show ?thesis by simp
next
  case (remove q c n)
  let ?p = "dlq_path r"
  let ?t0 = "snd (Delete_unlink txn q c (Delete_node ?p n t))"
  have pq: "?p \<noteq> q" using ParsePath_neq [OF remove(2)] by simp
  obtain m where m: "node_at t q = Some m"
    and u: "Delete_unlink txn q c (Delete_node ?p n t) =
       (RC_OK, (Delete_node ?p n t)
          \<lparr>nodes := um_set q (touch_parent txn (us_erase c (kids t q)) m) (um_erase ?p (nodes t)),
           childrens := bk_remove q c (childrens t)\<rparr>)"
    using Delete_unlink_OK [OF ok remove(2,3)] by metis
  have N: "node_at t' = (node_at t)(?p := None, q \<mapsto> touch_parent txn (kids t' q) m)"
    and C: "childrens t' = bk_remove q c (childrens t)"
    and W: "data_watches ?t0 = data_watches t \<and> child_watches ?t0 = child_watches t"
    using pq by (simp_all add: remove(7) u bk_at_remove)
  have K: "content t' = (content t)(?p := None)"
    using content_Delete [OF ok remove(2,3), of txn] by (simp add: remove(7) content_def fun_eq_iff)
  show ?thesis
    by (rule that [OF remove(2-5) m N C K]) (use remove W in \<open>auto intro!: exI [of _ ?t0]\<close>)
qed

theorem Delete_code:
  assumes "tree_ok t"
  shows "dlr_code (fst (snd (DataTree_Delete r txn resp False t))) =
     (if fst (ParsePath (dlq_path r)) \<noteq> RC_OK then RC_ERRPATH
      else case node_at t (dlq_path r) of
        None \<Rightarrow> RC_NO_NODE
      | Some n \<Rightarrow> if dlq_version r \<noteq> - 1 \<and> dlq_version r \<noteq> version (dn_stat n) then RC_BAD_VERSION
          else if um_find (childrens t) (dlq_path r) \<noteq> None then RC_CHILDREN_EXISTS else RC_OK)"
proof -
  obtain rc q c where P: "ParsePath (dlq_path r) = (rc, q, c)" by (cases "ParsePath (dlq_path r)") auto
  have u: "fst (Delete_unlink txn q c (Delete_node (dlq_path r) n t)) = RC_OK"
    if "node_at t (dlq_path r) = Some n" and "rc = RC_OK" for n
    by (rule Delete_unlink_OK [OF assms [unfolded tree_ok_def] P [unfolded that(2)] that(1), of txn]) simp
  show ?thesis using ParsePath_code [of "dlq_path r"] u
    by (auto simp: DataTree_Delete_def Let_def P case_prod_beta split: option.splits)
qed

theorem Delete_changes_one_path:
  assumes "tree_ok t" and "DataTree_Delete r txn resp False t = (t', resp', ns)"
  shows "if dlr_code resp' = RC_OK
    then node_at t (dlq_path r) \<noteq> None \<and> content t' = (content t)(dlq_path r := None)
    else t' = t \<and> ns = []"
proof (cases "dlr_code resp' = RC_OK")
  case True
  show ?thesis
    by (rule Delete_OK [OF assms(1) [unfolded tree_ok_def] assms(2) True]) (simp add: True)
next
  case False
  from assms(2) show ?thesis
  proof (cases rule: Delete_elim)
    case (remove q c n)
    have "fst (Delete_unlink txn q c (Delete_node (dlq_path r) n t)) = RC_OK"
      by (rule Delete_unlink_OK [OF assms(1) [unfolded tree_ok_def] remove(2,3), of txn]) simp
    then show ?thesis using remove False by simp
  qed (use False in \<open>simp_all\<close>)
qed

theorem SetData_compare_and_set:
  "DataTree_SetData r txn resp False t = (t', resp', ns) \<Longrightarrow>
   (if sdr_code resp' = RC_OK
    then \<exists>n. node_at t (sdq_path r) = Some n \<and>
       (sdq_version r = - 1 \<or> sdq_version r = version (dn_stat n)) \<and>
       node_at t' = (node_at t)(sdq_path r \<mapsto> write_node r txn n) \<and>
       childrens t' = childrens t \<and> ephemerals t' = ephemerals t \<and>
       sdr_stat resp' = dn_stat (write_node r txn n) \<and>
       version (sdr_stat resp') = version (dn_stat n) + 1
    else t' = t \<and> ns = [])"
  by (erule SetData_elim) (auto simp: write_node_def)

end
