(* ===== verification/Refinement.thy ===== *)
theory Refinement
  imports Main
begin

text \<open>
  Runs of a component and the two interfaces the components are verified against: an invariant kept
  by every operation (\<open>invariant_system\<close>), and a functional refinement (\<open>functional_refinement\<close>): the
  abstraction of the state after an operation, and what the operation returned, are what the
  specification computes. Both are lifted to runs here, once.
\<close>

fun run_ops :: "('op \<Rightarrow> 's \<Rightarrow> 's \<times> 'r) \<Rightarrow> 'op list \<Rightarrow> 's \<Rightarrow> 's \<times> 'r list" where
  "run_ops step [] s = (s, [])"
| "run_ops step (x # xs) s =
     (let (s', r) = step x s; (s'', rs) = run_ops step xs s' in (s'', r # rs))"

lemma run_ops_append:
  "run_ops step (xs @ ys) s =
     (let (s', rs) = run_ops step xs s; (s'', rs') = run_ops step ys s' in (s'', rs @ rs'))"
  by (induction xs arbitrary: s) (simp_all add: case_prod_beta Let_def)

lemma run_ops_length: "length (snd (run_ops step xs s)) = length xs"
  by (induction xs arbitrary: s) (simp_all add: case_prod_beta Let_def)

locale invariant_system =
  fixes inv :: "'s \<Rightarrow> bool"
    and legal :: "'op \<Rightarrow> bool"
    and step :: "'op \<Rightarrow> 's \<Rightarrow> 's \<times> 'r"
  assumes step_inv: "inv s \<Longrightarrow> legal x \<Longrightarrow> inv (fst (step x s))"
begin

lemma run_inv: "inv s \<Longrightarrow> list_all legal xs \<Longrightarrow> inv (fst (run_ops step xs s))"
  by (induction xs arbitrary: s) (simp_all add: case_prod_beta Let_def step_inv)

end

locale functional_refinement = invariant_system inv legal cstep
  for inv :: "'c \<Rightarrow> bool" and legal :: "'op \<Rightarrow> bool" and cstep :: "'op \<Rightarrow> 'c \<Rightarrow> 'c \<times> 'r" +
  fixes abs :: "'c \<Rightarrow> 'a"
    and astep :: "'op \<Rightarrow> 'a \<Rightarrow> 'a \<times> 'r"
  assumes step_sim: "inv s \<Longrightarrow> legal x \<Longrightarrow>
    astep x (abs s) = (abs (fst (cstep x s)), snd (cstep x s))"
begin

lemma run_sim:
  "inv s \<Longrightarrow> list_all legal xs \<Longrightarrow>
     run_ops astep xs (abs s) = (abs (fst (run_ops cstep xs s)), snd (run_ops cstep xs s))"
  by (induction xs arbitrary: s) (simp_all add: case_prod_beta Let_def step_inv step_sim)

end

text \<open>
  A replicated state machine with checkpoints: \<open>agree\<close> relates the states that answer alike, every legal
  log entry keeps it, and a state read back from a checkpoint agrees with the one that was saved.
\<close>

locale replicated_machine =
  fixes agree :: "'s \<Rightarrow> 's \<Rightarrow> bool"
    and legal :: "'e \<Rightarrow> bool"
    and exec :: "'e \<Rightarrow> 's \<Rightarrow> 's"
    and save :: "'s \<Rightarrow> 'c"
    and load :: "'c \<Rightarrow> 's"
  assumes agree_exec: "agree s s' \<Longrightarrow> legal e \<Longrightarrow> agree (exec e s) (exec e s')"
    and agree_load: "agree s s' \<Longrightarrow> agree s (load (save s'))"
begin

lemma agree_replay: "agree s s' \<Longrightarrow> list_all legal es \<Longrightarrow> agree (fold exec es s) (fold exec es s')"
  by (induction es arbitrary: s s') (simp_all add: agree_exec)

lemma agree_catch_up:
  assumes "agree s s'" and "list_all legal (xs @ ys)"
  shows "agree (fold exec (xs @ ys) s) (fold exec ys (load (save (fold exec xs s'))))"
  using assms by (simp add: agree_replay agree_load)

end

end
