(* ===== verification/DataTree_Spec.thy ===== *)
theory DataTree_Spec
  imports DataTree_Props Refinement
begin

text \<open>
  The specification of the writes of \<^verbatim>\<open>DataTree\<close> and the proof that the code implements it. The
  specification knows the map from paths to nodes only: no children index, no ephemerals index, no
  watches. The refinement holds from states without an empty children bucket, which is what the
  replicated log alone leads to.
\<close>

section \<open>The specification\<close>

type_synonym tree_spec = "string \<rightharpoonup> DataNode"

datatype tree_write =
    WCreate CreateRequest
  | WDelete DeleteRequest
  | WSetData SetDataRequest

definition spec_bump :: "Transaction \<Rightarrow> string \<Rightarrow> tree_spec \<Rightarrow> tree_spec" where
  "spec_bump txn q N =
     (case N q of
        None \<Rightarrow> N
      | Some m \<Rightarrow>
          N(q \<mapsto> m\<lparr>dn_stat := (dn_stat m)
                     \<lparr>children_version := children_version (dn_stat m) + 1,
                      children_num := word_of_nat (card (child_names N q)),
                      children_id := tx_instance_id txn\<rparr>\<rparr>))"

definition version_matches :: "i32 \<Rightarrow> DataNode \<Rightarrow> bool" where
  "version_matches v n \<longleftrightarrow> v = - 1 \<or> v = version (dn_stat n)"

fun spec_write :: "tree_write \<times> Transaction \<Rightarrow> tree_spec \<Rightarrow> tree_spec \<times> ResponseCode" where
  "spec_write (WCreate r, txn) N =
     (case ParsePath (crq_path r) of (rc, q, c) \<Rightarrow>
        if rc \<noteq> RC_OK then (N, RC_ERRPATH)
        else case N q of
          None \<Rightarrow> (N, RC_NO_PARENT)
        | Some m \<Rightarrow>
            if is_ephemeral (dn_type m) then (N, RC_PARENT_EPHEMERAL)
            else if N (crq_path r @ create_suffix m) \<noteq> None then (N, RC_NODE_EXISTS)
            else (spec_bump txn q
                    (N(crq_path r @ create_suffix m \<mapsto> fill_node r txn DataNode_default)), RC_OK))"
| "spec_write (WDelete r, txn) N =
     (case ParsePath (dlq_path r) of (rc, q, c) \<Rightarrow>
        if rc \<noteq> RC_OK then (N, RC_ERRPATH)
        else case N (dlq_path r) of
          None \<Rightarrow> (N, RC_NO_NODE)
        | Some n \<Rightarrow>
            if \<not> version_matches (dlq_version r) n then (N, RC_BAD_VERSION)
            else if child_names N (dlq_path r) \<noteq> {} then (N, RC_CHILDREN_EXISTS)
            else (spec_bump txn q (N(dlq_path r := None)), RC_OK))"
| "spec_write (WSetData r, txn) N =
     (if fst (ParsePath (sdq_path r)) \<noteq> RC_OK then (N, RC_ERRPATH)
      else case N (sdq_path r) of
        None \<Rightarrow> (N, RC_NO_NODE)
      | Some n \<Rightarrow>
          if \<not> version_matches (sdq_version r) n then (N, RC_BAD_VERSION)
          else (N(sdq_path r \<mapsto> write_node r txn n), RC_OK))"

fun do_write :: "tree_write \<times> Transaction \<Rightarrow> DataTree \<Rightarrow> DataTree \<times> ResponseCode" where
  "do_write (WCreate r, txn) t =
     (let (t', resp, ns) = DataTree_Create r txn CreateResponse_default False t in (t', crr_code resp))"
| "do_write (WDelete r, txn) t =
     (let (t', resp, ns) = DataTree_Delete r txn DeleteResponse_default False t in (t', dlr_code resp))"
| "do_write (WSetData r, txn) t =
     (let (t', resp, ns) = DataTree_SetData r txn SetDataResponse_default False t in (t', sdr_code resp))"

fun legal_write :: "tree_write \<times> Transaction \<Rightarrow> bool" where
  "legal_write (WCreate r, txn) = (is_ephemeral (crq_node_type r) \<longrightarrow> tx_session_id txn \<noteq> 0)"
| "legal_write (WDelete r, txn) = True"
| "legal_write (WSetData r, txn) = True"

section \<open>The refinement\<close>

lemma card_child_names: "tree_okx D t \<Longrightarrow> card (child_names (node_at t) q) = length (kids t q)"
  using tree_okx_kids [of D t q] distinct_card [of "kids t q"]
  by (simp add: tree_okx_def containers_ok_def bk_wf_def)

lemma spec_bump_touch:
  assumes ok: "tree_okx D t'" and N: "node_at t' = M(q \<mapsto> touch_parent txn (kids t' q) m)" and q: "M q = Some m"
  shows "spec_bump txn q M = node_at t'"
proof -
  have "child_names (node_at t') = child_names M" using q by (simp add: N child_names_replace)
  then have "card (child_names M q) = length (kids t' q)" using card_child_names [OF ok, of q] by simp
  then show ?thesis using q by (simp add: spec_bump_def N touch_parent_def)
qed

lemma Create_refines:
  assumes ok: "tree_okx {} t" and legal: "legal_write (WCreate r, txn)"
  shows "spec_write (WCreate r, txn) (node_at t) =
    (node_at (fst (do_write (WCreate r, txn) t)), snd (do_write (WCreate r, txn) t))"
proof -
  obtain t' resp ns where E: "DataTree_Create r txn CreateResponse_default False t = (t', resp, ns)"
    by (cases "DataTree_Create r txn CreateResponse_default False t") auto
  obtain rc q c where P: "ParsePath (crq_path r) = (rc, q, c)" by (cases "ParsePath (crq_path r)") auto
  have code: "snd (spec_write (WCreate r, txn) (node_at t)) = crr_code resp"
  proof -
    have "c @ create_suffix m \<in> set (kids t q) \<longleftrightarrow> node_at t (crq_path r @ create_suffix m) \<noteq> None"
      if "rc = RC_OK" for m
      using fresh_child [OF ok ParsePath_append [OF P [unfolded that]]]
      by (auto simp: create_suffix_def slash_not_in_seq_suffix)
    then show ?thesis using Create_code [of r txn CreateResponse_default t]
      by (auto simp: E P split: option.splits)
  qed
  show ?thesis
  proof (cases "crr_code resp = RC_OK")
    case True
    have ok': "tree_okx {} t'" using tree_okx_Create [OF ok, of r txn CreateResponse_default False] legal E by simp
    from True obtain q' c' m p where
      O: "ParsePath (crq_path r) = (RC_OK, q', c')" "node_at t q' = Some m" "\<not> is_ephemeral (dn_type m)"
        "p = crq_path r @ create_suffix m" "ParsePath p = (RC_OK, q', c' @ create_suffix m)"
        "node_at t p = None"
      and N: "node_at t' = (node_at t)(q' \<mapsto> touch_parent txn (kids t' q') m, p \<mapsto> fill_node r txn DataNode_default)"
      by (rule Create_OK [OF ok E])
    have "node_at t' = ((node_at t)(p \<mapsto> fill_node r txn DataNode_default))(q' \<mapsto> touch_parent txn (kids t' q') m)"
      using N ParsePath_neq [OF O(5)] by (simp add: fun_upd_twist)
    then have "spec_bump txn q' ((node_at t)(p \<mapsto> fill_node r txn DataNode_default)) = node_at t'"
      by (rule spec_bump_touch [OF ok']) (use O ParsePath_neq [OF O(5)] in simp)
    then show ?thesis using O True by (simp add: E)
  next
    case False
    then have "t' = t" using Create_changes_one_path [of t r txn CreateResponse_default t' resp ns] ok E
      by (simp add: tree_ok_def)
    moreover have "fst (spec_write (WCreate r, txn) (node_at t)) = node_at t"
      using code False by (auto split: prod.splits option.splits if_splits)
    ultimately show ?thesis using code by (simp add: E prod_eq_iff)
  qed
qed

lemma no_phantom_leaf:
  assumes "tree_okx D t" and "no_phantom t"
  shows "um_find (childrens t) p = None \<longleftrightarrow> child_names (node_at t) p = {}"
  using bk_tight_find [of "childrens t" p] tree_okx_kids [OF assms(1), of p] assms(2)
  by (simp add: no_phantom_def flip: set_empty)

lemma Delete_refines:
  assumes ok: "tree_okx {} t" and tight: "no_phantom t"
  shows "spec_write (WDelete r, txn) (node_at t) =
    (node_at (fst (do_write (WDelete r, txn) t)), snd (do_write (WDelete r, txn) t))"
proof -
  obtain t' resp ns where E: "DataTree_Delete r txn DeleteResponse_default False t = (t', resp, ns)"
    by (cases "DataTree_Delete r txn DeleteResponse_default False t") auto
  have tok: "tree_ok t" using ok by (simp add: tree_ok_def)
  have code: "snd (spec_write (WDelete r, txn) (node_at t)) = dlr_code resp"
    using Delete_code [OF tok, of r txn DeleteResponse_default] no_phantom_leaf [OF ok tight, of "dlq_path r"]
    by (auto simp: E version_matches_def split: option.splits prod.splits)
  show ?thesis
  proof (cases "dlr_code resp = RC_OK")
    case True
    have ok': "tree_okx {} t'" using tree_okx_Delete_op [OF ok, of r txn DeleteResponse_default False] E by simp
    from True obtain q c n m where
      O: "ParsePath (dlq_path r) = (RC_OK, q, c)" "node_at t (dlq_path r) = Some n"
        "dlq_version r = - 1 \<or> dlq_version r = version (dn_stat n)"
        "um_find (childrens t) (dlq_path r) = None" "node_at t q = Some m"
      and N: "node_at t' = (node_at t)(dlq_path r := None, q \<mapsto> touch_parent txn (kids t' q) m)"
      by (rule Delete_OK [OF ok E])
    have "spec_bump txn q ((node_at t)(dlq_path r := None)) = node_at t'"
      by (rule spec_bump_touch [OF ok' N]) (use O ParsePath_neq [OF O(1)] in simp)
    moreover have "child_names (node_at t) (dlq_path r) = {}"
      using no_phantom_leaf [OF ok tight] O(4) by blast
    ultimately show ?thesis using O True by (simp add: E version_matches_def)
  next
    case False
    then have "t' = t" using Delete_changes_one_path [OF tok E] by simp
    moreover have "fst (spec_write (WDelete r, txn) (node_at t)) = node_at t"
      using code False by (auto split: prod.splits option.splits if_splits)
    ultimately show ?thesis using code by (simp add: E prod_eq_iff)
  qed
qed

lemma SetData_refines:
  "spec_write (WSetData r, txn) (node_at t) =
    (node_at (fst (do_write (WSetData r, txn) t)), snd (do_write (WSetData r, txn) t))"
  using ParsePath_code [of "sdq_path r"]
  by (auto simp: DataTree_SetData_def Let_def case_prod_beta version_matches_def split: option.splits)

lemma do_write_ok:
  "tree_ok t \<Longrightarrow> legal_write x \<Longrightarrow> tree_ok (fst (do_write x t))"
  by (cases x rule: legal_write.cases)
    (auto simp: tree_ok_def case_prod_beta Let_def tree_okx_Create tree_okx_Delete_op tree_okx_SetData)

lemma do_write_tight:
  assumes "tree_ok t" and "no_phantom t"
  shows "no_phantom (fst (do_write x t))"
proof (cases x rule: legal_write.cases)
  case (1 r txn)
  obtain t' resp ns where E: "DataTree_Create r txn CreateResponse_default False t = (t', resp, ns)"
    by (cases "DataTree_Create r txn CreateResponse_default False t") auto
  from E have "no_phantom t'"
    by (cases rule: Create_elim) (use assms in \<open>auto simp: no_phantom_def Create_insert_def Let_def\<close>)
  then show ?thesis by (simp add: 1 E)
next
  case (2 r txn)
  obtain t' resp ns where E: "DataTree_Delete r txn DeleteResponse_default False t = (t', resp, ns)"
    by (cases "DataTree_Delete r txn DeleteResponse_default False t") auto
  from E have "no_phantom t'"
    by (cases rule: Delete_elim)
      (use assms in \<open>auto simp: no_phantom_def Delete_unlink_def Let_def split: option.splits\<close>)
  then show ?thesis by (simp add: 2 E)
next
  case (3 r txn)
  obtain t' resp ns where E: "DataTree_SetData r txn SetDataResponse_default False t = (t', resp, ns)"
    by (cases "DataTree_SetData r txn SetDataResponse_default False t") auto
  from E have "no_phantom t'" by (cases rule: SetData_elim) (use assms in \<open>auto simp: no_phantom_def\<close>)
  then show ?thesis by (simp add: 3 E)
qed

lemma do_write_sim:
  assumes "tree_ok t" and "no_phantom t" and "legal_write x"
  shows "spec_write x (node_at t) = (node_at (fst (do_write x t)), snd (do_write x t))"
proof (cases x rule: legal_write.cases)
  case (1 r txn)
  then show ?thesis using Create_refines [of t r txn] assms by (simp only: tree_ok_def)
next
  case (2 r txn)
  then show ?thesis using Delete_refines [of t r txn] assms by (simp only: tree_ok_def)
next
  case (3 r txn)
  then show ?thesis by (simp only: SetData_refines)
qed

interpretation tree: functional_refinement "\<lambda>t. tree_ok t \<and> no_phantom t" legal_write do_write node_at spec_write
  by unfold_locales (auto simp: do_write_ok do_write_tight do_write_sim)

end
