(* ===== verification/DataTree_Watch.thy ===== *)
theory DataTree_Watch
  imports DataTree_Spec
begin

text \<open>
  Which notifications the writes of \<^verbatim>\<open>DataTree\<close> send: the data watchers of the path that changed and
  the child watchers of its parent, each once, and nobody when the write fails.
\<close>

section \<open>Watches\<close>

fun write_notifications :: "tree_write \<times> Transaction \<Rightarrow> DataTree \<Rightarrow> notification list" where
  "write_notifications (WCreate r, txn) t = snd (snd (DataTree_Create r txn CreateResponse_default False t))"
| "write_notifications (WDelete r, txn) t = snd (snd (DataTree_Delete r txn DeleteResponse_default False t))"
| "write_notifications (WSetData r, txn) t = snd (snd (DataTree_SetData r txn SetDataResponse_default False t))"

lemma notified_data:
  "set (snd (trigger_data p ty t)) = {(w, watched_event p ty) | w. (p, w) \<in> registered (data_watches t)}"
  by (auto simp: trigger_data_def case_prod_beta notified_Trigger registered_def)

lemma notified_change:
  "set (snd (trigger_change p ty q t)) =
     {(w, watched_event p ty) | w. (p, w) \<in> registered (data_watches t)} \<union>
     {(w, watched_event q ET_NODE_CHILDREN_CHANGED) | w. q \<noteq> [] \<and> (q, w) \<in> registered (child_watches t)}"
  by (auto simp: trigger_change_def trigger_data_def trigger_child_def case_prod_beta Let_def
      notified_Trigger registered_def)

lemma Create_notified:
  assumes ok: "tree_okx {} t" and E: "DataTree_Create r txn resp False t = (t', resp', ns)"
    and code: "crr_code resp' = RC_OK"
  obtains q c where "ParsePath (crr_path resp') = (RC_OK, q, c)"
    "set ns = {(w, watched_event (crr_path resp') ET_NODE_CREATED) | w.
         (crr_path resp', w) \<in> registered (data_watches t)} \<union>
       {(w, watched_event q ET_NODE_CHILDREN_CHANGED) | w. q \<noteq> [] \<and> (q, w) \<in> registered (child_watches t)}"
    "\<forall>x. x \<noteq> q \<longrightarrow> kids t' x = kids t x"
proof (rule Create_OK [OF ok E code])
  fix q c m p
  assume P: "ParsePath p = (RC_OK, q, c @ create_suffix m)"
    and r: "resp' = resp\<lparr>crr_code := RC_OK, crr_path := p\<rparr>"
    and C: "childrens t' = bk_insert q (c @ create_suffix m) (bk_touch q (childrens t))"
    and "\<exists>t0. data_watches t0 = data_watches t \<and> child_watches t0 = child_watches t \<and>
      (t', ns) = trigger_change p ET_NODE_CREATED q t0"
  then obtain t0 where t0: "data_watches t0 = data_watches t" "child_watches t0 = child_watches t"
    and "(t', ns) = trigger_change p ET_NODE_CREATED q t0" by blast
  then have "ns = snd (trigger_change p ET_NODE_CREATED q t0)" by (metis snd_conv)
  then show ?thesis using P r C by (intro that [of q "c @ create_suffix m"]) (simp_all add: notified_change t0 bk_at_insert)
qed

lemma Delete_notified:
  assumes ok: "tree_okx {} t" and E: "DataTree_Delete r txn resp False t = (t', resp', ns)"
    and code: "dlr_code resp' = RC_OK"
  obtains q c where "ParsePath (dlq_path r) = (RC_OK, q, c)"
    "set ns = {(w, watched_event (dlq_path r) ET_NODE_DELETED) | w.
         (dlq_path r, w) \<in> registered (data_watches t)} \<union>
       {(w, watched_event q ET_NODE_CHILDREN_CHANGED) | w. q \<noteq> [] \<and> (q, w) \<in> registered (child_watches t)}"
    "\<forall>x. x \<noteq> q \<longrightarrow> kids t' x = kids t x"
proof (rule Delete_OK [OF ok E code])
  fix q c n m
  assume P: "ParsePath (dlq_path r) = (RC_OK, q, c)" and C: "childrens t' = bk_remove q c (childrens t)"
    and "\<exists>t0. data_watches t0 = data_watches t \<and> child_watches t0 = child_watches t \<and>
      (t', ns) = trigger_change (dlq_path r) ET_NODE_DELETED q t0"
  then obtain t0 where t0: "data_watches t0 = data_watches t" "child_watches t0 = child_watches t"
    and "(t', ns) = trigger_change (dlq_path r) ET_NODE_DELETED q t0" by blast
  then have "ns = snd (trigger_change (dlq_path r) ET_NODE_DELETED q t0)" by (metis snd_conv)
  then show ?thesis using P C by (intro that [of q c]) (simp_all add: notified_change t0 bk_at_remove)
qed

lemma SetData_notified:
  "DataTree_SetData r txn resp False t = (t', resp', ns) \<Longrightarrow> sdr_code resp' = RC_OK \<Longrightarrow>
     set ns = {(w, watched_event (sdq_path r) ET_NODE_DATA_CHANGED) | w.
        (sdq_path r, w) \<in> registered (data_watches t)}"
  by (erule SetData_elim) (auto simp: notified_data)

text \<open>
  A write names the path it changes: the path of the request, or the path in the response of a
  create. It either fails, and then nothing happens, or changes the content at that path only and
  notifies the data watchers of the path and the child watchers of its parent.
\<close>

fun write_target :: "tree_write \<times> Transaction \<Rightarrow> DataTree \<Rightarrow> string" where
  "write_target (WCreate r, txn) t =
     crr_path (fst (snd (DataTree_Create r txn CreateResponse_default False t)))"
| "write_target (WDelete r, txn) t = dlq_path r"
| "write_target (WSetData r, txn) t = sdq_path r"

fun structural :: "tree_write \<times> Transaction \<Rightarrow> bool" where
  "structural (WSetData r, txn) = False"
| "structural x = True"

definition data_event :: "DataTree \<Rightarrow> DataTree \<Rightarrow> string \<Rightarrow> EventType" where
  "data_event t t' p =
     (if node_at t p = None then ET_NODE_CREATED
      else if node_at t' p = None then ET_NODE_DELETED else ET_NODE_DATA_CHANGED)"

lemma write_notifies:
  assumes ok: "tree_ok t" and W: "do_write x t = (t', code)"
  shows "if code = RC_OK
    then (\<forall>y. y \<noteq> write_target x t \<longrightarrow> content t' y = content t y) \<and>
      (\<exists>q c. ParsePath (write_target x t) = (RC_OK, q, c) \<and>
        (\<forall>y. y \<noteq> q \<longrightarrow> kids t' y = kids t y) \<and>
        set (write_notifications x t) =
          {(w, watched_event (write_target x t) (data_event t t' (write_target x t))) | w.
             (write_target x t, w) \<in> registered (data_watches t)} \<union>
          {(w, watched_event q ET_NODE_CHILDREN_CHANGED) | w.
             structural x \<and> q \<noteq> [] \<and> (q, w) \<in> registered (child_watches t)})
    else t' = t \<and> write_notifications x t = []"
proof (cases x rule: legal_write.cases)
  case (1 r txn)
  obtain resp ns where E: "DataTree_Create r txn CreateResponse_default False t = (t', resp, ns)"
    and c: "code = crr_code resp" using W by (auto simp: 1 case_prod_beta Let_def) (metis prod.collapse)
  note F = Create_changes_one_path [OF ok E]
  show ?thesis
  proof (cases "code = RC_OK")
    case True
    have "data_event t t' (crr_path resp) = ET_NODE_CREATED" using F True c by (simp add: data_event_def)
    then show ?thesis
      by (rule_tac Create_notified [OF ok [unfolded tree_ok_def] E True [unfolded c]])
        (use F True c in \<open>auto simp: 1 E\<close>)
  qed (use F c in \<open>simp add: 1 E\<close>)
next
  case (2 r txn)
  obtain resp ns where E: "DataTree_Delete r txn DeleteResponse_default False t = (t', resp, ns)"
    and c: "code = dlr_code resp" using W by (auto simp: 2 case_prod_beta Let_def) (metis prod.collapse)
  note F = Delete_changes_one_path [OF ok E]
  show ?thesis
  proof (cases "code = RC_OK")
    case True
    have "content t' (dlq_path r) = None" using F True c by simp
    then have "data_event t t' (dlq_path r) = ET_NODE_DELETED"
      using F True c by (simp add: data_event_def content_def)
    then show ?thesis
      by (rule_tac Delete_notified [OF ok [unfolded tree_ok_def] E True [unfolded c]])
        (use F True c in \<open>auto simp: 2 E\<close>)
  qed (use F c in \<open>simp add: 2 E\<close>)
next
  case (3 r txn)
  obtain resp ns where E: "DataTree_SetData r txn SetDataResponse_default False t = (t', resp, ns)"
    and c: "code = sdr_code resp" using W by (auto simp: 3 case_prod_beta Let_def) (metis prod.collapse)
  note F = SetData_compare_and_set [OF E]
  show ?thesis
  proof (cases "code = RC_OK")
    case True
    then obtain n where n: "node_at t (sdq_path r) = Some n"
      "node_at t' = (node_at t)(sdq_path r \<mapsto> write_node r txn n)" "childrens t' = childrens t"
      using F c by auto
    from E obtain q k where P: "ParsePath (sdq_path r) = (RC_OK, q, k)"
      by (cases rule: SetData_elim) (use True c in auto)
    then show ?thesis using n True SetData_notified [OF E] c
      by (simp add: 3 E content_def data_event_def)
  qed (use F c in \<open>simp add: 3 E\<close>)
qed

end
