(* ===== verification/DataTree_Check.thy ===== *)
theory DataTree_Check
  imports DataTree_Props
begin

text \<open>
  The \<^verbatim>\<open>only_check\<close> mode of the writes of \<^verbatim>\<open>DataTree\<close>, which the session of a client runs before it
  proposes a write: what a check answers, that it does not read the transaction, and the one trace
  it leaves in the tree, an empty children bucket.
\<close>

section \<open>Checks\<close>

lemma Create_check_ignores_txn: "DataTree_Create r txn resp True t = DataTree_Create r txn' resp True t"
  by (simp add: DataTree_Create_def Let_def case_prod_beta cong: option.case_cong if_cong)

lemma Delete_check_ignores_txn: "DataTree_Delete r txn resp True t = DataTree_Delete r txn' resp True t"
  by (simp add: DataTree_Delete_def Let_def case_prod_beta cong: option.case_cong if_cong)

lemma SetData_check_ignores_txn: "DataTree_SetData r txn resp True t = DataTree_SetData r txn' resp True t"
  by (simp add: DataTree_SetData_def Let_def case_prod_beta cong: option.case_cong if_cong)

lemma Create_check_frame:
  "DataTree_Create r txn resp True t = (t', resp', ns) \<Longrightarrow>
     t' = t\<lparr>childrens := childrens t'\<rparr> \<and> kids t' = kids t \<and> ns = []"
  by (erule Create_elim) (auto simp: fun_eq_iff)

lemma Create_check_code:
  assumes "\<forall>q c m. ParsePath (crq_path r) = (RC_OK, q, c) \<longrightarrow> node_at t q = Some m \<longrightarrow> \<not> is_sequential (dn_type m)"
  shows "crr_code (fst (snd (DataTree_Create r txn resp True t))) =
    crr_code (fst (snd (DataTree_Create r txn' resp' False t)))"
proof -
  obtain rc q c where P: "ParsePath (crq_path r) = (rc, q, c)" by (cases "ParsePath (crq_path r)") auto
  show ?thesis using assms
    by (auto simp: DataTree_Create_def P Let_def case_prod_beta split: option.splits)
qed

lemma Delete_check_state: "fst (DataTree_Delete r txn resp True t) = t"
  by (simp add: DataTree_Delete_def Let_def case_prod_beta split: option.splits)

lemma SetData_check_state: "fst (DataTree_SetData r txn resp True t) = t"
  by (simp add: DataTree_SetData_def Let_def case_prod_beta split: option.splits)

lemma Delete_check_code:
  assumes "tree_ok t"
  shows "dlr_code (fst (snd (DataTree_Delete r txn resp True t))) =
    dlr_code (fst (snd (DataTree_Delete r txn' resp' False t)))"
  using ParsePath_code [of "dlq_path r"] unfolding Delete_code [OF assms]
  by (auto simp: DataTree_Delete_def Let_def case_prod_beta split: option.splits)

lemma SetData_check_code:
  "sdr_code (fst (snd (DataTree_SetData r txn resp True t))) =
    sdr_code (fst (snd (DataTree_SetData r txn' resp' False t)))"
  by (auto simp: DataTree_SetData_def Let_def case_prod_beta split: option.splits)

section \<open>The empty bucket that a check leaves behind\<close>

lemma check_blocks_delete:
  assumes ok: "tree_ok t" and P: "ParsePath (crq_path r) = (RC_OK, q, c)"
    and n: "node_at t q = Some n" "\<not> is_ephemeral (dn_type n)"
    and leaf: "um_find (childrens t) q = None" and q: "q \<noteq> []"
    and v: "dlq_version d = - 1" "dlq_path d = q"
    and C: "DataTree_Create r txn resp True t = (t', resp', ns)"
  shows "crr_code resp' = RC_OK"
    and "dlr_code (fst (snd (DataTree_Delete d txn1 dresp False t))) = RC_OK"
    and "dlr_code (fst (snd (DataTree_Delete d txn1 dresp False t'))) = RC_CHILDREN_EXISTS"
    and "kids t' q = []"
proof -
  have okx: "tree_okx {} t" using ok by (simp add: tree_ok_def)
  have kids: "kids t q = []" using leaf by (simp add: bk_at_def)
  have t': "t' = t\<lparr>childrens := bk_touch q (childrens t)\<rparr>" and r: "crr_code resp' = RC_OK"
    using C P n kids by (auto simp: DataTree_Create_def Let_def)
  have Pq: "fst (ParsePath q) = RC_OK" using okx n(1) q by (auto simp: tree_okx_def shape_ok_def)
  show "crr_code resp' = RC_OK" by (fact r)
  show "kids t' q = []" by (simp add: t' kids)
  show "dlr_code (fst (snd (DataTree_Delete d txn1 dresp False t))) = RC_OK"
    using Pq n leaf v by (simp add: Delete_code [OF ok])
  have ok': "tree_ok t'" using tree_okx_Create [OF okx, of r]
    using tree_okx_touch [OF okx] n by (simp add: t' tree_ok_def persistent_at_def)
  show "dlr_code (fst (snd (DataTree_Delete d txn1 dresp False t'))) = RC_CHILDREN_EXISTS"
    unfolding Delete_code [OF ok'] using Pq n v by (simp add: t' find_bk_touch)
qed

end
