(* ===== verification/DataTree_Checkpoint.thy ===== *)
theory DataTree_Checkpoint
  imports DataTree_Ops
begin

text \<open>
  \<^verbatim>\<open>GetDataNodeList\<close> and \<^verbatim>\<open>Recover\<close>: a tree written to a checkpoint and read back into a fresh tree is
  the same tree, without its watches and without empty children buckets.
\<close>

section \<open>Checkpoint\<close>

lemma bk_at_insert_list:
  "bk_at (fold (bk_insert k) vs m) j = (if j = k then fold us_insert vs (bk_at m k) else bk_at m j)"
  by (induction vs arbitrary: m) (auto simp: bk_at_insert)

lemma fold_us_insert_append:
  "distinct (s @ vs) \<Longrightarrow> fold us_insert vs s = s @ vs"
  by (induction vs arbitrary: s) (auto simp: us_insert_def)

lemma fold_us_insert_self: "distinct vs \<Longrightarrow> fold us_insert vs [] = vs"
  using fold_us_insert_append [of "[]" vs] by simp

definition checkpoint_node :: "DataTree \<Rightarrow> string \<times> DataNode \<Rightarrow> DataNode" where
  "checkpoint_node t = (\<lambda>(path, n). n\<lparr>dn_path := path, dn_children := dn_children n @ kids t path\<rparr>)"

lemma GetDataNodeList_checkpoint: "GetDataNodeList t = map (checkpoint_node t) (nodes t)"
  by (simp add: GetDataNodeList_def checkpoint_node_def)

definition plain :: "DataNode \<Rightarrow> bool" where
  "plain n \<longleftrightarrow> dn_path n = [] \<and> dn_children n = []"

lemma Recover_node_views:
  assumes "plain n" and "\<forall>k. node_at s p = Some k \<longrightarrow> plain k"
  shows "node_at (Recover_node (checkpoint_node t (p, n)) s) = (node_at s)(p \<mapsto> n)"
    and "kids (Recover_node (checkpoint_node t (p, n)) s) =
      (kids s)(p := fold us_insert (kids t p) (kids s p))"
    and "bk_rel (ephemerals (Recover_node (checkpoint_node t (p, n)) s)) = bk_rel (ephemerals s) \<union>
      (if 0 < ephemeral_id (dn_stat n) then {(ephemeral_id (dn_stat n), p)} else {})"
    and "data_watches (Recover_node (checkpoint_node t (p, n)) s) = data_watches s"
    and "child_watches (Recover_node (checkpoint_node t (p, n)) s) = child_watches s"
  using assms
  by (auto simp: Recover_node_def checkpoint_node_def Let_def plain_def DataNode_default_def
      bk_at_insert_list fun_eq_iff split: option.splits)

lemma Recover_node_wf:
  assumes "um_wf (nodes s)" "bk_wf (childrens s)" "bk_tight (childrens s)"
    "bk_wf (ephemerals s)" "bk_tight (ephemerals s)"
  shows "um_wf (nodes (Recover_node n s))" "bk_wf (childrens (Recover_node n s))"
    "bk_tight (childrens (Recover_node n s))"
    "bk_wf (ephemerals (Recover_node n s))" "bk_tight (ephemerals (Recover_node n s))"
  using assms bk.ok_add_vals [of "childrens s" "dn_path n" "dn_children n"]
  by (auto simp: Recover_node_def Let_def)

lemma Recover_list_wf:
  assumes "um_wf (nodes s)" "bk_wf (childrens s)" "bk_tight (childrens s)"
    "bk_wf (ephemerals s)" "bk_tight (ephemerals s)"
  shows "um_wf (nodes (fold Recover_node ns s)) \<and> bk_wf (childrens (fold Recover_node ns s)) \<and>
    bk_tight (childrens (fold Recover_node ns s)) \<and>
    bk_wf (ephemerals (fold Recover_node ns s)) \<and> bk_tight (ephemerals (fold Recover_node ns s))"
  using assms by (induction ns arbitrary: s) (simp_all add: Recover_node_wf)

lemma Recover_list_views:
  assumes "distinct (map fst xs)" and "\<forall>(p, n) \<in> set xs. plain n \<and> distinct (kids t p)"
    and "\<forall>p k. node_at s p = Some k \<longrightarrow> plain k"
    and "\<forall>p \<in> fst ` set xs. kids s p = []"
  defines "R \<equiv> fold Recover_node (map (checkpoint_node t) xs) s"
  shows "node_at R = node_at s ++ map_of xs \<and>
    kids R = (\<lambda>p. if p \<in> fst ` set xs then kids t p else kids s p) \<and>
    bk_rel (ephemerals R) = bk_rel (ephemerals s) \<union>
      {(sid, p). \<exists>n. map_of xs p = Some n \<and> ephemeral_id (dn_stat n) = sid \<and> 0 < sid} \<and>
    data_watches R = data_watches s \<and> child_watches R = child_watches s"
  using assms(1-4) unfolding R_def
proof (induction xs arbitrary: s)
  case Nil
  then show ?case by simp
next
  case (Cons x xs)
  obtain p n where x: "x = (p, n)" by (cases x)
  let ?s = "Recover_node (checkpoint_node t (p, n)) s"
  have pl: "plain n" "distinct (kids t p)" "\<forall>k. node_at s p = Some k \<longrightarrow> plain k" "kids s p = []"
    using Cons.prems by (auto simp: x)
  note V = Recover_node_views [OF pl(1,3), of t]
  have px: "p \<notin> fst ` set xs" using Cons.prems(1) by (simp add: x)
  have IH: "node_at (fold Recover_node (map (checkpoint_node t) xs) ?s) = node_at ?s ++ map_of xs \<and>
    kids (fold Recover_node (map (checkpoint_node t) xs) ?s) =
      (\<lambda>p. if p \<in> fst ` set xs then kids t p else kids ?s p) \<and>
    bk_rel (ephemerals (fold Recover_node (map (checkpoint_node t) xs) ?s)) = bk_rel (ephemerals ?s) \<union>
      {(sid, p). \<exists>n. map_of xs p = Some n \<and> ephemeral_id (dn_stat n) = sid \<and> 0 < sid} \<and>
    data_watches (fold Recover_node (map (checkpoint_node t) xs) ?s) = data_watches ?s \<and>
    child_watches (fold Recover_node (map (checkpoint_node t) xs) ?s) = child_watches ?s"
    by (rule Cons.IH) (use Cons.prems pl px in \<open>auto simp: V x split: if_splits\<close>)
  have "map_of xs p = None" using px by (simp add: map_of_eq_None_iff)
  then show ?case using IH px fold_us_insert_self [OF pl(2)]
    by (auto simp: x V pl(4) fun_eq_iff map_add_def split: option.splits if_splits)
qed

lemma checkpoint_views:
  assumes okx: "tree_okx {} t"
  defines "R \<equiv> DataTree_Recover (GetDataNodeList t) DataTree_new"
  shows "node_at R = node_at t" and "kids R = kids t"
    and "bk_rel (ephemerals R) = bk_rel (ephemerals t)"
    and "data_watches R = ServerWatchManager_new" and "child_watches R = ServerWatchManager_new"
proof -
  have wf: "um_wf (nodes t)" using okx by (simp add: tree_okx_def containers_ok_def)
  have pl: "\<forall>(p, n) \<in> set (nodes t). plain n \<and> distinct (kids t p)"
    using okx wf by (auto simp: tree_okx_def containers_ok_def bk_wf_def um_find_in_set node_ok_def plain_def)
  have keys: "fst ` set (nodes t) = dom (node_at t)" by (simp add: dom_map_of_conv_image_fst)
  have V: "node_at R = node_at DataTree_new ++ node_at t \<and>
    kids R = (\<lambda>p. if p \<in> fst ` set (nodes t) then kids t p else kids DataTree_new p) \<and>
    bk_rel (ephemerals R) = bk_rel (ephemerals DataTree_new) \<union>
      {(sid, p). \<exists>n. node_at t p = Some n \<and> ephemeral_id (dn_stat n) = sid \<and> 0 < sid} \<and>
    data_watches R = data_watches DataTree_new \<and> child_watches R = child_watches DataTree_new"
    unfolding R_def DataTree_Recover_def GetDataNodeList_checkpoint
    by (rule Recover_list_views)
      (use wf pl in \<open>auto simp: um_wf_def DataTree_new_def plain_def DataNode_default_def split: if_splits\<close>)
  have "\<exists>r. node_at t [] = Some r" using okx by (auto simp: tree_okx_def shape_ok_def persistent_at_def)
  then show "node_at R = node_at t"
    using V by (auto simp: DataTree_new_def map_add_def fun_eq_iff split: option.splits)
  show "kids R = kids t"
  proof
    fix p show "kids R p = kids t p"
      using V tree_okx_no_bucket [OF okx, of p]
      by (cases "node_at t p") (auto simp: keys DataTree_new_def persistent_at_None)
  qed
  show "bk_rel (ephemerals R) = bk_rel (ephemerals t)"
    using V okx by (auto simp: tree_okx_def ephemeral_rel_def node_ok_def DataTree_new_def word_gt_0
        simp flip: bk_rel_iff)
  show "data_watches R = ServerWatchManager_new" and "child_watches R = ServerWatchManager_new"
    using V by (simp_all add: DataTree_new_def)
qed

lemma checkpoint_wf:
  "um_wf (nodes (DataTree_Recover ns DataTree_new)) \<and> bk_wf (childrens (DataTree_Recover ns DataTree_new)) \<and>
   bk_tight (childrens (DataTree_Recover ns DataTree_new)) \<and>
   bk_wf (ephemerals (DataTree_Recover ns DataTree_new)) \<and> bk_tight (ephemerals (DataTree_Recover ns DataTree_new))"
  unfolding DataTree_Recover_def by (rule Recover_list_wf) (simp_all add: DataTree_new_def um_wf_def)

lemma checkpoint_tree_ok:
  assumes okx: "tree_okx {} t"
  shows "tree_okx {} (DataTree_Recover (GetDataNodeList t) DataTree_new)" (is "tree_okx {} ?R")
proof -
  note V = checkpoint_views [OF okx] and W = checkpoint_wf [of "GetDataNodeList t"]
  have "persistent_at (node_at t) q" if "q \<in> dom (um_find (childrens ?R))" for q
  proof -
    have "kids t q \<noteq> []" using that W V(2) bk_tight_find [of "childrens ?R" q] by auto
    then show ?thesis using tree_okx_no_bucket [OF okx, of q] by blast
  qed
  then have "children_ok (node_at t) (childrens ?R)"
    using tree_okx_kids [OF okx] V(2) by (simp add: children_ok_def)
  then show ?thesis using W okx
    by (auto simp: tree_okx_def V containers_ok_def swm_ok_new node_ok_def)
qed

end
