(* ===== verification/DataTree_Replica.thy ===== *)
theory DataTree_Replica
  imports DataTree_Spec DataTree_Checkpoint
begin

text \<open>
  Agreement of replicas at the level of one tree. \<^verbatim>\<open>KillSession\<close> gets a closed specification on the map
  of nodes, independent of the order in which the hash set of paths is iterated; with the refinement
  of the writes this makes everything that the log executes a function of the map of nodes.
\<close>

section \<open>The specification of KillSession\<close>

definition dead_children :: "string set \<Rightarrow> string \<Rightarrow> string set" where
  "dead_children S x = {p \<in> S. \<exists>c. ParsePath p = (RC_OK, x, c)}"

definition bump_by :: "Transaction \<Rightarrow> nat \<Rightarrow> nat \<Rightarrow> DataNode \<Rightarrow> DataNode" where
  "bump_by txn k len m =
     (if k = 0 then m
      else m\<lparr>dn_stat := (dn_stat m)
               \<lparr>children_version := children_version (dn_stat m) + word_of_nat k,
                children_num := word_of_nat len,
                children_id := tx_instance_id txn\<rparr>\<rparr>)"

definition spec_kill :: "Transaction \<Rightarrow> string set \<Rightarrow> tree_spec \<Rightarrow> tree_spec" where
  "spec_kill txn S N x =
     (if x \<in> S then None
      else map_option (bump_by txn (card (dead_children S x)) (card (child_names (N |` (- S)) x))) (N x))"

lemma spec_kill_empty [simp]: "spec_kill txn {} N = N"
  by (rule ext) (simp add: spec_kill_def dead_children_def bump_by_def map_option_case split: option.splits)

lemma child_names_dom: "dom N = dom M \<Longrightarrow> child_names N = child_names M"
  by (simp add: child_names_def fun_eq_iff)

lemma child_names_no_dead:
  "dead_children S x = {} \<Longrightarrow> child_names (N |` (- S)) x = child_names N x"
proof -
  assume "dead_children S x = {}"
  then have "p \<notin> S" if "ParsePath p = (RC_OK, x, c)" for p c using that by (auto simp: dead_children_def)
  then show ?thesis by (auto simp: child_names_def)
qed

lemma dead_children_insert:
  "ParsePath p = (RC_OK, q, c) \<Longrightarrow>
     dead_children (insert p S) x = (if x = q then insert p (dead_children S x) else dead_children S x)"
  by (auto simp: dead_children_def)

lemma spec_kill_step:
  assumes fin: "finite S" and p: "p \<notin> S" and P: "ParsePath p = (RC_OK, q, c)" and q: "q \<notin> S" "N q = Some m"
    and M: "M = N(p := None, q \<mapsto> touch_parent txn ks m)" and ks: "length ks = card (child_names M q)"
  shows "spec_kill txn S M = spec_kill txn (insert p S) N"
proof
  fix x
  have pq: "p \<noteq> q" "q \<noteq> p" using ParsePath_neq [OF P] by auto
  have names: "child_names (M |` (- S)) = child_names (N |` (- insert p S))"
    using q pq by (intro child_names_dom) (auto simp: M restrict_map_def split: if_splits)
  have finD: "finite (dead_children S q)" and pD: "p \<notin> dead_children S q"
    using fin p by (auto simp: dead_children_def)
  consider "x \<in> insert p S" | "x = q" | "x \<notin> insert p S" "x \<noteq> q" by blast
  then show "spec_kill txn S M x = spec_kill txn (insert p S) N x"
  proof cases
    case 1
    then show ?thesis using pq by (auto simp: spec_kill_def M)
  next
    case 2
    have "bump_by txn (card (dead_children S q)) (card (child_names (M |` (- S)) q)) (touch_parent txn ks m) =
      bump_by txn (Suc (card (dead_children S q))) (card (child_names (M |` (- S)) q)) m"
      using finD child_names_no_dead [of S q M] ks
      by (cases "dead_children S q = {}") (auto simp: bump_by_def touch_parent_def add_ac)
    then show ?thesis using 2 q pq finD pD P
      by (simp add: spec_kill_def M [symmetric] names dead_children_insert) (simp add: M)
  next
    case 3
    then show ?thesis using P by (simp add: spec_kill_def names dead_children_insert) (simp add: M)
  qed
qed

lemma ephemeral_leaf:
  assumes ok: "tree_okx D t" and n: "node_at t p = Some n" and eph: "is_ephemeral (dn_type n)"
  obtains q c where "ParsePath p = (RC_OK, q, c)" "um_find (childrens t) p = None"
    "persistent_at (node_at t) q"
proof -
  have "p \<noteq> []" using ok n eph by (auto simp: tree_okx_def shape_ok_def persistent_at_def)
  then have "fst (ParsePath p) = RC_OK" using ok n by (auto simp: tree_okx_def shape_ok_def)
  then obtain q c where P: "ParsePath p = (RC_OK, q, c)" by (metis prod.collapse)
  have "um_find (childrens t) p = None"
    using tree_okx_no_bucket [OF ok, of p] n eph by (simp add: persistent_at_Some)
  then show ?thesis using that [OF P] tree_okx_parent [OF ok _ P] n by simp
qed

lemma kill_loop_refines:
  assumes "tree_okx D t" and "distinct ps"
    and "\<forall>p \<in> set ps. \<exists>n. node_at t p = Some n \<and> is_ephemeral (dn_type n)"
    and "kill_loop txn ps resp t = (t', ns)"
  shows "node_at t' = spec_kill txn (set ps) (node_at t)"
  using assms
proof (induction ps arbitrary: t resp t' ns)
  case Nil
  then show ?case by simp
next
  case (Cons p ps)
  obtain t1 resp1 ns1 where E: "DataTree_Delete \<lparr>dlq_path = p, dlq_version = - 1\<rparr> txn resp False t =
      (t1, resp1, ns1)" by (cases "DataTree_Delete \<lparr>dlq_path = p, dlq_version = - 1\<rparr> txn resp False t") auto
  obtain ns2 where L: "kill_loop txn ps resp1 t1 = (t', ns2)"
    using Cons.prems(4) E by (auto simp: case_prod_beta Let_def) (metis prod.collapse)
  obtain n where n: "node_at t p = Some n" "is_ephemeral (dn_type n)" using Cons.prems(3) by auto
  have D: "tree_okx D t1" "content t1 = (content t)(p := None)" "dlr_code resp1 = RC_OK"
    using Delete_ephemeral [OF Cons.prems(1) n E] by auto
  from Cons.prems(1) E D(3) obtain q c m where P: "ParsePath p = (RC_OK, q, c)" and m: "node_at t q = Some m"
    and N: "node_at t1 = (node_at t)(p := None, q \<mapsto> touch_parent txn (kids t1 q) m)"
    by (rule Delete_OK) auto
  have pers: "persistent_at (node_at t) q" using tree_okx_parent [OF Cons.prems(1) _ P] n by simp
  have qps: "q \<notin> set ps" using Cons.prems(3) pers by (auto simp: persistent_at_def)
  have eph: "\<forall>x \<in> set ps. \<exists>n. node_at t1 x = Some n \<and> is_ephemeral (dn_type n)"
    using Cons.prems(2,3) qps by (auto simp: N)
  have "node_at t' = spec_kill txn (set ps) (node_at t1)"
    using Cons.IH [OF D(1) _ eph L] Cons.prems(2) by simp
  also have "\<dots> = spec_kill txn (insert p (set ps)) (node_at t)"
    by (rule spec_kill_step [OF _ _ P qps m N])
      (use Cons.prems(2) card_child_names [OF D(1), of q] in simp_all)
  finally show ?case by simp
qed

lemma owned_by_spec: "owned_by sid t = {p. (sid, p) \<in> ephemeral_rel (node_at t)}"
  by (simp add: owned_by_def)

lemma KillSession_refines:
  assumes ok: "tree_ok t"
  shows "node_at (fst (DataTree_KillSession sid txn t)) = spec_kill txn (owned_by sid t) (node_at t)"
proof (cases "um_find (ephemerals t) sid")
  case None
  then have "owned_by sid t = {}" using owned_by_bucket [OF ok] by (simp add: bk_at_def)
  then show ?thesis using None by (simp add: DataTree_KillSession_def)
next
  case (Some paths)
  let ?t = "t\<lparr>ephemerals := um_erase sid (ephemerals t)\<rparr>"
  obtain t' ns where L: "kill_loop txn paths DeleteResponse_default ?t = (t', ns)"
    by (cases "kill_loop txn paths DeleteResponse_default ?t") auto
  have paths: "bk_at (ephemerals t) sid = paths" using Some by (simp add: bk_at_def)
  then have own: "set paths = owned_by sid t" using owned_by_bucket [OF ok] by simp
  have okt: "tree_okx {sid} ?t" using ok by (auto simp: tree_ok_def tree_okx_def containers_ok_def)
  have "distinct paths" using ok paths by (auto simp: tree_ok_def tree_okx_def containers_ok_def bk_wf_def)
  moreover have "\<forall>p \<in> set paths. \<exists>n. node_at ?t p = Some n \<and> is_ephemeral (dn_type n)"
    using own by (auto simp: owned_by_def ephemeral_rel_def)
  ultimately have "node_at t' = spec_kill txn (set paths) (node_at ?t)"
    using kill_loop_refines [OF okt _ _ L] by blast
  then show ?thesis using own Some L by (simp add: DataTree_KillSession_def)
qed

lemma no_phantom_Delete:
  "no_phantom t \<Longrightarrow> no_phantom (fst (DataTree_Delete r txn resp oc t))"
proof -
  assume np: "no_phantom t"
  obtain t' resp' ns where E: "DataTree_Delete r txn resp oc t = (t', resp', ns)"
    by (cases "DataTree_Delete r txn resp oc t") auto
  from E have "no_phantom t'"
    by (cases rule: Delete_elim)
      (use np in \<open>auto simp: no_phantom_def Delete_unlink_def Let_def split: option.splits\<close>)
  then show ?thesis by (simp add: E)
qed

lemma no_phantom_kill_loop: "no_phantom t \<Longrightarrow> no_phantom (fst (kill_loop txn ps resp t))"
proof (induction ps arbitrary: t resp)
  case (Cons p ps)
  then show ?case
    using no_phantom_Delete [OF Cons.prems, of "\<lparr>dlq_path = p, dlq_version = - 1\<rparr>" txn resp False]
    by (auto simp: case_prod_beta Let_def)
qed simp

lemma no_phantom_KillSession: "no_phantom t \<Longrightarrow> no_phantom (fst (DataTree_KillSession sid txn t))"
  using no_phantom_kill_loop [of "t\<lparr>ephemerals := um_erase sid (ephemerals t)\<rparr>"]
  by (auto simp: DataTree_KillSession_def no_phantom_def split: option.splits)

section \<open>Trees that agree\<close>

text \<open>
  Two replicas of a tree agree when both satisfy the invariant, neither has an empty children bucket,
  and they map every path to the same node. The order of the containers and the watches may differ.
\<close>

definition tree_agree :: "DataTree \<Rightarrow> DataTree \<Rightarrow> bool" where
  "tree_agree t u \<longleftrightarrow> tree_ok t \<and> tree_ok u \<and> no_phantom t \<and> no_phantom u \<and> node_at t = node_at u"

lemma tree_agree_refl: "tree_ok t \<Longrightarrow> no_phantom t \<Longrightarrow> tree_agree t t"
  by (simp add: tree_agree_def)

lemma tree_agree_write:
  assumes "tree_agree t u" and "legal_write x"
  shows "tree_agree (fst (do_write x t)) (fst (do_write x u)) \<and> snd (do_write x t) = snd (do_write x u)"
  using do_write_sim [of t x] do_write_sim [of u x] assms
  by (auto simp: tree_agree_def do_write_ok do_write_tight)

lemma tree_agree_Kill:
  assumes "tree_agree t u"
  shows "tree_agree (fst (DataTree_KillSession sid txn t)) (fst (DataTree_KillSession sid txn u))"
  using assms KillSession_refines [of t sid txn] KillSession_refines [of u sid txn]
  by (simp add: tree_agree_def KillSession_content no_phantom_KillSession owned_by_spec)

lemma tree_agree_checkpoint:
  assumes "tree_agree t u"
  shows "tree_agree t (DataTree_Recover (GetDataNodeList u) DataTree_new)"
  using assms checkpoint_views [of u] checkpoint_tree_ok [of u] checkpoint_wf [of "GetDataNodeList u"]
  by (simp add: tree_agree_def tree_ok_def no_phantom_def)

section \<open>Equal responses\<close>

lemma tree_agree_kids: "tree_agree t u \<Longrightarrow> set (kids t q) = set (kids u q)"
  using tree_okx_kids [of "{}" t q] tree_okx_kids [of "{}" u q] by (simp add: tree_agree_def tree_ok_def)

lemma tree_agree_bucket: "tree_agree t u \<Longrightarrow> um_find (childrens t) p = None \<longleftrightarrow> um_find (childrens u) p = None"
  using no_phantom_leaf [of "{}" t p] no_phantom_leaf [of "{}" u p] by (simp add: tree_agree_def tree_ok_def)

lemma tree_agree_responses:
  assumes A: "tree_agree t u"
  shows "fst (snd (DataTree_Create r txn cresp False t)) = fst (snd (DataTree_Create r txn cresp False u))"
    and "fst (snd (DataTree_Delete d txn dresp False t)) = fst (snd (DataTree_Delete d txn dresp False u))"
    and "fst (snd (DataTree_SetData s txn sresp False t)) = fst (snd (DataTree_SetData s txn sresp False u))"
proof -
  note kids = tree_agree_kids [OF A] and N = A [unfolded tree_agree_def]
  show "fst (snd (DataTree_Create r txn cresp False t)) = fst (snd (DataTree_Create r txn cresp False u))"
    using N kids by (simp add: DataTree_Create_def Let_def case_prod_beta split: option.splits)
  show "fst (snd (DataTree_SetData s txn sresp False t)) = fst (snd (DataTree_SetData s txn sresp False u))"
    using N by (simp add: DataTree_SetData_def Let_def case_prod_beta split: option.splits)
  have "dlr_code (fst (snd (DataTree_Delete d txn dresp False t))) = dlr_code (fst (snd (DataTree_Delete d txn dresp False u)))"
    using N tree_agree_bucket [OF A, of "dlq_path d"] by (auto simp: Delete_code split: option.splits)
  moreover have "resp' = dresp\<lparr>dlr_code := dlr_code resp'\<rparr>"
    if "resp' = fst (snd (DataTree_Delete d txn dresp False v))" for resp' v
    using that by (auto simp: DataTree_Delete_def Let_def case_prod_beta split: option.splits)
  ultimately show "fst (snd (DataTree_Delete d txn dresp False t)) = fst (snd (DataTree_Delete d txn dresp False u))"
    by metis
qed

end
