(* ===== verification/DataTree_Claims.thy ===== *)
theory DataTree_Claims
  imports DataTree_Watch DataTree_Check DataTree_Replica
begin

text \<open>
  The properties of one \<^verbatim>\<open>DataTree\<close>, stated for its callers, each with an instance on a small concrete
  tree: \<^verbatim>\<open>/a\<close> persistent, below it the ephemeral \<^verbatim>\<open>/a/b\<close> of session 7, and \<^verbatim>\<open>/s\<close> whose children are
  numbered.
\<close>

section \<open>The example tree\<close>

definition ex_create :: "NodeType \<Rightarrow> string \<Rightarrow> CreateRequest" where
  "ex_create ty p = \<lparr>crq_node_type = ty, crq_path = p, crq_data = ''x''\<rparr>"

definition ex_txn :: "u64 \<Rightarrow> Transaction" where
  "ex_txn sid = \<lparr>tx_group_id = 0, tx_instance_id = 1, tx_time = 5, tx_session_id = sid\<rparr>"

definition ex_add :: "NodeType \<Rightarrow> string \<Rightarrow> DataTree \<Rightarrow> DataTree" where
  "ex_add ty p t = fst (DataTree_Create (ex_create ty p) (ex_txn 7) CreateResponse_default False t)"

definition ex_tree :: DataTree where
  "ex_tree = ex_add NT_PERSISTENT_SEQUENTIAL ''/s'' (ex_add NT_EPHEMERAL ''/a/b'' (ex_add NT_PERSISTENT ''/a'' DataTree_new))"

definition ex_watched :: DataTree where
  "ex_watched = fst (DataTree_Exists \<lparr>exq_path = ''/a/b'', exq_watch = True\<rparr> (Some 3) ExistsResponse_default ex_tree)"

lemma ex_add_reach: "tree_reach t \<Longrightarrow> tree_reach (ex_add ty p t)"
  unfolding ex_add_def by (rule reach_step, assumption, rule step_create) (simp add: ex_txn_def)

lemma ex_tree_reach: "tree_reach ex_tree"
  unfolding ex_tree_def by (intro ex_add_reach reach_new)

lemma ex_watched_reach: "tree_reach ex_watched"
  unfolding ex_watched_def by (rule reach_step [OF ex_tree_reach], rule step_exists)

lemmas ex_ok = tree_reach_ok [OF ex_tree_reach] tree_reach_ok [OF ex_watched_reach]

section \<open>The shape of a reachable tree\<close>

text \<open>C4: in every reachable tree, a node other than the root lies below an existing node that is not
  ephemeral, under a name that is not empty and has no slash, and the children index of the parent
  lists that name.\<close>

theorem tree_reach_shape:
  assumes "tree_reach t" and "node_at t p = Some n" and "p \<noteq> []"
  shows "\<exists>q c m. p = q @ slash # c \<and> c \<noteq> [] \<and> slash \<notin> set c \<and>
           node_at t q = Some m \<and> \<not> is_ephemeral (dn_type m) \<and> c \<in> set (kids t q)"
proof -
  have ok: "tree_okx {} t" using tree_reach_ok [OF assms(1)] by (simp add: tree_ok_def)
  then have "fst (ParsePath p) = RC_OK" using assms(2,3) by (auto simp: tree_okx_def shape_ok_def)
  then obtain q c where P: "ParsePath p = (RC_OK, q, c)" by (metis prod.collapse)
  have "c \<in> set (kids t q)" using fresh_child [OF ok P] assms(2) by blast
  then show ?thesis using tree_okx_parent [OF ok _ P] P assms(2)
    by (auto simp: persistent_at_def ParsePath_OK)
qed

theorem tree_reach_shape_witness:
  "\<exists>q c m. ''/a/b'' = q @ slash # c \<and> c \<noteq> [] \<and> slash \<notin> set c \<and>
     node_at ex_tree q = Some m \<and> \<not> is_ephemeral (dn_type m) \<and> c \<in> set (kids ex_tree q)"
proof -
  have "node_at ex_tree ''/a/b'' = Some (the (node_at ex_tree ''/a/b''))" by code_simp
  from tree_reach_shape [OF ex_tree_reach this] show ?thesis by simp
qed

text \<open>C5: in every reachable tree the children index is exact: the children of a path are listed once
  each, they are exactly the names under which a node exists below the path, and the counter in the
  node is their number.\<close>

theorem tree_reach_children_exact:
  assumes "tree_reach t"
  shows "distinct (kids t q) \<and>
    set (kids t q) = {c. c \<noteq> [] \<and> slash \<notin> set c \<and> node_at t (q @ slash # c) \<noteq> None} \<and>
    (case node_at t q of None \<Rightarrow> True
     | Some n \<Rightarrow> children_num (dn_stat n) = word_of_nat (length (kids t q)))"
proof -
  have ok: "tree_okx {} t" using tree_reach_ok [OF assms] by (simp add: tree_ok_def)
  then have "distinct (kids t q)" by (simp add: tree_okx_def containers_ok_def bk_wf_def)
  moreover have "case node_at t q of None \<Rightarrow> True
     | Some n \<Rightarrow> children_num (dn_stat n) = word_of_nat (length (kids t q))"
    using ok by (auto simp: tree_okx_def node_ok_def split: option.splits)
  ultimately show ?thesis using tree_okx_kids [OF ok, of q] by (auto simp: child_names_def ParsePath_OK)
qed

theorem tree_reach_children_exact_witness:
  "set (kids ex_tree []) = {''a'', ''s''} \<and>
   {''a'', ''s''} = {c. c \<noteq> [] \<and> slash \<notin> set c \<and> node_at ex_tree ([] @ slash # c) \<noteq> None}"
proof -
  have "set (kids ex_tree []) = {''a'', ''s''}" by code_simp
  then show ?thesis using tree_reach_children_exact [OF ex_tree_reach, of "[]"] by simp
qed

text \<open>C6: in every reachable tree the index of ephemeral nodes is exact: the paths recorded for a
  session are those of the ephemeral nodes whose owner is the session.\<close>

theorem tree_reach_ephemerals_exact:
  assumes "tree_reach t"
  shows "p \<in> set (bk_at (ephemerals t) sid) \<longleftrightarrow>
    (\<exists>n. node_at t p = Some n \<and> is_ephemeral (dn_type n) \<and> ephemeral_id (dn_stat n) = sid)"
  using owned_by_bucket [OF tree_reach_ok [OF assms], of sid]
  by (auto simp: owned_by_def ephemeral_rel_def)

theorem tree_reach_ephemerals_exact_witness:
  "bk_at (ephemerals ex_tree) 7 = [''/a/b''] \<and>
   (\<exists>n. node_at ex_tree ''/a/b'' = Some n \<and> is_ephemeral (dn_type n) \<and> ephemeral_id (dn_stat n) = 7)"
proof -
  have "bk_at (ephemerals ex_tree) 7 = [''/a/b'']" by code_simp
  then show ?thesis using tree_reach_ephemerals_exact [OF ex_tree_reach, of "''/a/b''" 7] by simp
qed

section \<open>The writes\<close>

text \<open>C3: every run of writes from a new tree computes, response code by response code, what the
  specification on a plain map from paths to nodes computes, and ends in the same map.\<close>

theorem writes_refine_spec:
  assumes "list_all legal_write xs"
  shows "run_ops spec_write xs [[] \<mapsto> DataNode_default] =
    (node_at (fst (run_ops do_write xs DataTree_new)), snd (run_ops do_write xs DataTree_new))"
proof -
  have "node_at DataTree_new = [[] \<mapsto> DataNode_default]" by (simp add: DataTree_new_def)
  moreover have "tree_ok DataTree_new \<and> no_phantom DataTree_new"
    using tree_okx_new by (simp add: no_phantom_def DataTree_new_def)
  ultimately show ?thesis using tree.run_sim [OF _ assms, of DataTree_new] by simp
qed

theorem writes_refine_spec_witness:
  "snd (run_ops spec_write
     [(WCreate (ex_create NT_PERSISTENT ''/a''), ex_txn 7), (WCreate (ex_create NT_EPHEMERAL ''/a/b''), ex_txn 7),
      (WDelete \<lparr>dlq_path = ''/a'', dlq_version = - 1\<rparr>, ex_txn 7), (WCreate (ex_create NT_PERSISTENT ''/a/b/c''), ex_txn 7),
      (WDelete \<lparr>dlq_path = ''/a/b'', dlq_version = 3\<rparr>, ex_txn 7), (WDelete \<lparr>dlq_path = ''/a/b'', dlq_version = 0\<rparr>, ex_txn 7)]
     [[] \<mapsto> DataNode_default]) =
   [RC_OK, RC_OK, RC_CHILDREN_EXISTS, RC_PARENT_EPHEMERAL, RC_BAD_VERSION, RC_OK]"
  (is "snd (run_ops spec_write ?xs _) = _")
proof -
  have L: "list_all legal_write ?xs" by code_simp
  have "snd (run_ops do_write ?xs DataTree_new) =
     [RC_OK, RC_OK, RC_CHILDREN_EXISTS, RC_PARENT_EPHEMERAL, RC_BAD_VERSION, RC_OK]" by code_simp
  then show ?thesis unfolding writes_refine_spec [OF L] by (simp only: snd_conv)
qed

text \<open>C9: a create answers with the code of the first check that fails, in the order of the code; a
  create that fails leaves the tree and the watchers alone; a create that succeeds adds exactly one
  node, which was not there, and counts one more change among the children of the parent.\<close>

theorem create_effect:
  assumes "tree_ok t" and "DataTree_Create r txn resp False t = (t', resp', ns)"
  shows "crr_code resp' =
     (case ParsePath (crq_path r) of (rc, q, c) \<Rightarrow>
        if rc \<noteq> RC_OK then RC_ERRPATH
        else case node_at t q of
          None \<Rightarrow> RC_NO_PARENT
        | Some m \<Rightarrow> if is_ephemeral (dn_type m) then RC_PARENT_EPHEMERAL
            else if node_at t (crq_path r @ create_suffix m) \<noteq> None then RC_NODE_EXISTS else RC_OK) \<and>
    (if crr_code resp' \<noteq> RC_OK then t' = t \<and> ns = []
     else \<exists>q c m m'. ParsePath (crq_path r) = (RC_OK, q, c) \<and> node_at t q = Some m \<and>
       crr_path resp' = crq_path r @ create_suffix m \<and> node_at t (crr_path resp') = None \<and>
       content t' = (content t)(crr_path resp' \<mapsto> node_core (fill_node r txn DataNode_default)) \<and>
       node_at t' q = Some m' \<and> children_version (dn_stat m') = children_version (dn_stat m) + 1)"
proof -
  have okx: "tree_okx {} t" using assms(1) by (simp add: tree_ok_def)
  have fresh: "c @ create_suffix m \<in> set (kids t q) \<longleftrightarrow> node_at t (crq_path r @ create_suffix m) \<noteq> None"
    if "ParsePath (crq_path r) = (RC_OK, q, c)" for q c m
    using fresh_child [OF okx ParsePath_append [OF that]]
    by (auto simp: create_suffix_def slash_not_in_seq_suffix)
  have eff: "if crr_code resp' \<noteq> RC_OK then t' = t \<and> ns = []
     else \<exists>q c m m'. ParsePath (crq_path r) = (RC_OK, q, c) \<and> node_at t q = Some m \<and>
       crr_path resp' = crq_path r @ create_suffix m \<and> node_at t (crr_path resp') = None \<and>
       content t' = (content t)(crr_path resp' \<mapsto> node_core (fill_node r txn DataNode_default)) \<and>
       node_at t' q = Some m' \<and> children_version (dn_stat m') = children_version (dn_stat m) + 1"
  proof (cases "crr_code resp' = RC_OK")
    case True
    show ?thesis
      by (rule Create_OK [OF okx assms(2) True]) (auto simp: True touch_parent_def dest: ParsePath_neq)
  qed (use Create_changes_one_path [OF assms] in simp)
  show ?thesis using Create_code [of r txn resp t] fresh assms(2) eff
    by (auto simp: split: option.splits prod.splits)
qed

theorem create_effect_witness:
  "crr_code (fst (snd (DataTree_Create (ex_create NT_PERSISTENT ''/s/n'') (ex_txn 7) CreateResponse_default False ex_tree))) = RC_OK \<and>
   crr_path (fst (snd (DataTree_Create (ex_create NT_PERSISTENT ''/s/n'') (ex_txn 7) CreateResponse_default False ex_tree))) =
     ''/s/n_0000000001'' \<and>
   node_at ex_tree ''/s/n_0000000001'' = None"
proof -
  let ?C = "DataTree_Create (ex_create NT_PERSISTENT ''/s/n'') (ex_txn 7) CreateResponse_default False ex_tree"
  obtain t' resp' ns where E: "?C = (t', resp', ns)" by (cases ?C) auto
  have c: "crr_code (fst (snd ?C)) = RC_OK" "crr_path (fst (snd ?C)) = ''/s/n_0000000001''" by code_simp+
  then show ?thesis using create_effect [OF ex_ok(1) E] by (auto simp: E)
qed

text \<open>The data, the type and the metadata that a successful create stored are what a read of the
  path in its response returns.\<close>

lemma create_then_get_data:
  assumes "tree_ok t"
    and "DataTree_Create r txn resp False t = (t', resp', ns)" and "crr_code resp' = RC_OK"
  shows "DataTree_GetData \<lparr>gdq_path = crr_path resp', gdq_watch = False\<rparr> None gresp t' =
    (t', gresp\<lparr>gdr_code := RC_OK, gdr_node_type := crq_node_type r, gdr_data := crq_data r,
      gdr_stat := dn_stat (fill_node r txn DataNode_default)\<rparr>)"
  by (rule Create_OK [OF assms(1) [unfolded tree_ok_def] assms(2,3)])
    (simp add: DataTree_GetData_def Let_def add_data_watch_def fill_node_def)

text \<open>C10: a delete answers with the code of the first check that fails; a delete that fails changes
  nothing; one that succeeds removes exactly the node of the path, and no other delete of the path
  can succeed before it is created again.\<close>

theorem delete_effect:
  assumes "tree_ok t" and "DataTree_Delete r txn resp False t = (t', resp', ns)"
  shows "dlr_code resp' =
     (if fst (ParsePath (dlq_path r)) \<noteq> RC_OK then RC_ERRPATH
      else case node_at t (dlq_path r) of
        None \<Rightarrow> RC_NO_NODE
      | Some n \<Rightarrow> if dlq_version r \<noteq> - 1 \<and> dlq_version r \<noteq> version (dn_stat n) then RC_BAD_VERSION
          else if um_find (childrens t) (dlq_path r) \<noteq> None then RC_CHILDREN_EXISTS else RC_OK) \<and>
    (if dlr_code resp' = RC_OK
     then content t' = (content t)(dlq_path r := None) \<and>
       dlr_code (fst (snd (DataTree_Delete r txn1 resp1 False t'))) = RC_NO_NODE
     else t' = t \<and> ns = [])"
proof -
  have ok': "tree_ok t'"
    using tree_okx_Delete_op [OF assms(1) [unfolded tree_ok_def], of r txn resp False] assms(2)
    by (simp add: tree_ok_def)
  have code: "dlr_code resp' =
     (if fst (ParsePath (dlq_path r)) \<noteq> RC_OK then RC_ERRPATH
      else case node_at t (dlq_path r) of
        None \<Rightarrow> RC_NO_NODE
      | Some n \<Rightarrow> if dlq_version r \<noteq> - 1 \<and> dlq_version r \<noteq> version (dn_stat n) then RC_BAD_VERSION
          else if um_find (childrens t) (dlq_path r) \<noteq> None then RC_CHILDREN_EXISTS else RC_OK)"
    using Delete_code [OF assms(1), of r txn resp] by (simp add: assms(2))
  note F = Delete_changes_one_path [OF assms]
  show ?thesis
  proof (cases "dlr_code resp' = RC_OK")
    case True
    then have K: "content t' = (content t)(dlq_path r := None)" using F by simp
    then have "content t' (dlq_path r) = None" by simp
    then have "node_at t' (dlq_path r) = None" by (simp add: content_def)
    moreover have "fst (ParsePath (dlq_path r)) = RC_OK" using code True by (auto split: if_splits)
    ultimately show ?thesis using code K True by (simp add: Delete_code [OF ok'])
  qed (use F code in simp)
qed

theorem delete_effect_witness:
  "content (fst (DataTree_Delete \<lparr>dlq_path = ''/a/b'', dlq_version = 0\<rparr> (ex_txn 7) DeleteResponse_default False ex_tree)) =
     (content ex_tree)(''/a/b'' := None)"
proof -
  let ?D = "DataTree_Delete \<lparr>dlq_path = ''/a/b'', dlq_version = 0\<rparr> (ex_txn 7) DeleteResponse_default False ex_tree"
  obtain t' resp' ns where E: "?D = (t', resp', ns)" by (cases ?D) auto
  have "dlr_code (fst (snd ?D)) = RC_OK" by code_simp
  then show ?thesis using delete_effect [OF ex_ok(1) E] by (simp add: E)
qed

text \<open>C11: \<^verbatim>\<open>SetData\<close> is a compare-and-set on the version of the node: it succeeds only with version -1 or
  the current version, then stores the data and the next version and returns them; a second write
  with the same expected version is refused.\<close>

theorem set_data_compare_and_set:
  assumes "DataTree_SetData r txn resp False t = (t', resp', ns)"
  shows "if sdr_code resp' = RC_OK
    then \<exists>n. node_at t (sdq_path r) = Some n \<and>
       (sdq_version r = - 1 \<or> sdq_version r = version (dn_stat n)) \<and>
       node_at t' = (node_at t)(sdq_path r \<mapsto> write_node r txn n) \<and>
       sdr_stat resp' = dn_stat (write_node r txn n) \<and>
       version (sdr_stat resp') = version (dn_stat n) + 1 \<and>
       (sdq_version r \<noteq> - 1 \<longrightarrow>
          sdr_code (fst (snd (DataTree_SetData (r\<lparr>sdq_data := d\<rparr>) txn1 resp1 False t'))) = RC_BAD_VERSION)
    else t' = t \<and> ns = []"
  using assms
proof (cases rule: SetData_elim)
  case (update q c n)
  then show ?thesis
    by (auto simp: write_node_def DataTree_SetData_def Let_def case_prod_beta)
qed auto

theorem set_data_compare_and_set_witness:
  "(let (t', resp', ns) = DataTree_SetData \<lparr>sdq_path = ''/a'', sdq_data = ''y'', sdq_version = 0\<rparr> (ex_txn 7)
        SetDataResponse_default False ex_tree
    in sdr_code resp' = RC_OK \<and> version (sdr_stat resp') = 1 \<and>
      sdr_code (fst (snd (DataTree_SetData \<lparr>sdq_path = ''/a'', sdq_data = ''z'', sdq_version = 0\<rparr> (ex_txn 7)
        SetDataResponse_default False t'))) = RC_BAD_VERSION)"
proof -
  let ?S = "DataTree_SetData \<lparr>sdq_path = ''/a'', sdq_data = ''y'', sdq_version = 0\<rparr> (ex_txn 7)
        SetDataResponse_default False ex_tree"
  obtain t' resp' ns where E: "?S = (t', resp', ns)" by (cases ?S) auto
  have "sdr_code (fst (snd ?S)) = RC_OK" "version (sdr_stat (fst (snd ?S))) = 1" by code_simp+
  then show ?thesis
    using set_data_compare_and_set [OF E, of "''z''" "ex_txn 7" SetDataResponse_default] by (auto simp: E)
qed

section \<open>Sessions, watches, checkpoints\<close>

text \<open>C7: killing a session removes exactly the ephemeral nodes that the session owns, whatever the order
  in which their set is iterated; every other node keeps its content, and a parent that lost \<open>k\<close>
  children counts \<open>k\<close> more changes.\<close>

theorem kill_session_exact:
  assumes "tree_ok t"
  shows "content (fst (DataTree_KillSession sid txn t)) = (content t) |` (- owned_by sid t) \<and>
    node_at (fst (DataTree_KillSession sid txn t)) = spec_kill txn (owned_by sid t) (node_at t) \<and>
    bk_at (ephemerals (fst (DataTree_KillSession sid txn t))) sid = []"
proof -
  let ?t = "fst (DataTree_KillSession sid txn t)"
  note K = KillSession_content [OF assms, of sid txn]
  have "owned_by sid ?t = {}"
    using K by (auto simp: owned_by_def ephemeral_rel_content [symmetric])
      (auto simp: ephemeral_rel_def owned_by_def content_def restrict_map_def split: if_splits)
  then have "bk_at (ephemerals ?t) sid = []" using owned_by_bucket [of ?t sid] K by simp
  then show ?thesis using K KillSession_refines [OF assms] by simp
qed

theorem kill_session_exact_witness:
  "content (fst (DataTree_KillSession 7 (ex_txn 0) ex_tree)) ''/a/b'' = None \<and>
   content (fst (DataTree_KillSession 7 (ex_txn 0) ex_tree)) ''/a'' = content ex_tree ''/a''"
proof -
  have own: "owned_by 7 ex_tree = {''/a/b''}"
    unfolding owned_by_bucket [OF ex_ok(1)] by code_simp
  show ?thesis
    using kill_session_exact [OF ex_ok(1), of 7 "ex_txn 0"] unfolding own by (simp add: restrict_map_def)
qed

text \<open>C8: a write that succeeds notifies exactly the data watchers of the path it changed, with the
  kind of the change, and, when a node came or went, the child watchers of the parent; nobody is told
  about a write that failed; the content changes at the target only.\<close>

theorem writes_notify_exactly:
  assumes "tree_ok t" and "do_write x t = (t', code)"
  shows "if code = RC_OK
    then (\<forall>y. y \<noteq> write_target x t \<longrightarrow> content t' y = content t y) \<and>
      (\<exists>q c. ParsePath (write_target x t) = (RC_OK, q, c) \<and>
        set (write_notifications x t) =
          {(w, watched_event (write_target x t) (data_event t t' (write_target x t))) | w.
             (write_target x t, w) \<in> registered (data_watches t)} \<union>
          {(w, watched_event q ET_NODE_CHILDREN_CHANGED) | w.
             structural x \<and> q \<noteq> [] \<and> (q, w) \<in> registered (child_watches t)})
    else t' = t \<and> write_notifications x t = []"
  using write_notifies [OF assms] by (auto split: if_splits)

theorem writes_notify_exactly_witness:
  "set (write_notifications (WDelete \<lparr>dlq_path = ''/a/b'', dlq_version = - 1\<rparr>, ex_txn 7) ex_watched) =
     {(3, watched_event ''/a/b'' ET_NODE_DELETED)} \<and>
   snd (do_write (WDelete \<lparr>dlq_path = ''/a/b'', dlq_version = - 1\<rparr>, ex_txn 7) ex_watched) = RC_OK \<and>
   content (fst (do_write (WDelete \<lparr>dlq_path = ''/a/b'', dlq_version = - 1\<rparr>, ex_txn 7) ex_watched)) ''/a'' = content ex_watched ''/a''"
  (is "set (write_notifications ?x _) = _ \<and> _")
proof -
  obtain t' code where E: "do_write ?x ex_watched = (t', code)" by (cases "do_write ?x ex_watched")
  have "snd (do_write ?x ex_watched) = RC_OK" by code_simp
  then have c: "code = RC_OK" by (simp only: E snd_conv)
  have "set (write_notifications ?x ex_watched) = {(3, watched_event ''/a/b'' ET_NODE_DELETED)}" by code_simp
  then show ?thesis using writes_notify_exactly [OF ex_ok(2) E] c E by (simp del: do_write.simps write_notifications.simps)
qed

text \<open>A tree written to a checkpoint and read back into a fresh tree has the same nodes, the same
  children and the same ephemeral nodes of each session, satisfies the invariant, and has lost the
  empty children buckets, if it had any.\<close>

lemma tree_checkpoint_roundtrip:
  assumes "tree_ok t"
  shows "let R = DataTree_Recover (GetDataNodeList t) DataTree_new
    in node_at R = node_at t \<and> kids R = kids t \<and>
       bk_rel (ephemerals R) = bk_rel (ephemerals t) \<and> tree_ok R \<and> no_phantom R"
  using checkpoint_views [of t] checkpoint_tree_ok [of t] checkpoint_wf [of "GetDataNodeList t"] assms
  by (simp add: Let_def tree_ok_def no_phantom_def)

text \<open>C13: the check that a session runs before it proposes a write gives the code that the write
  itself would give in the same state, unless the parent numbers its children; it sends nothing and
  leaves all nodes, children, ephemerals and watches alone.\<close>

theorem checks_predict_writes:
  assumes "tree_ok t"
    and "\<forall>q c m. ParsePath (crq_path r) = (RC_OK, q, c) \<longrightarrow> node_at t q = Some m \<longrightarrow> \<not> is_sequential (dn_type m)"
  shows "crr_code (fst (snd (DataTree_Create r txn resp True t))) =
      crr_code (fst (snd (DataTree_Create r txn' resp' False t))) \<and>
    dlr_code (fst (snd (DataTree_Delete d txn dresp True t))) =
      dlr_code (fst (snd (DataTree_Delete d txn' dresp' False t))) \<and>
    sdr_code (fst (snd (DataTree_SetData s txn sresp True t))) =
      sdr_code (fst (snd (DataTree_SetData s txn' sresp' False t))) \<and>
    fst (DataTree_Delete d txn dresp True t) = t \<and> fst (DataTree_SetData s txn sresp True t) = t \<and>
    (let (t', _, ns) = DataTree_Create r txn resp True t
     in t'\<lparr>childrens := childrens t\<rparr> = t \<and> kids t' = kids t \<and> ns = [])"
proof -
  obtain t' resp2 ns where E: "DataTree_Create r txn resp True t = (t', resp2, ns)"
    by (cases "DataTree_Create r txn resp True t") auto
  have "t'\<lparr>childrens := childrens t\<rparr> = t \<and> kids t' = kids t \<and> ns = []"
    using E by (cases rule: Create_elim) (auto simp: fun_eq_iff)
  then show ?thesis
    using Create_check_code [OF assms(2), of txn resp txn' resp'] Delete_check_code [OF assms(1), of d txn dresp txn' dresp']
      SetData_check_code [of s txn sresp t txn' sresp'] Delete_check_state SetData_check_state
    by (simp add: E)
qed

theorem checks_predict_writes_witness:
  "crr_code (fst (snd (DataTree_Create (ex_create NT_PERSISTENT ''/a/b'') Transaction_default CreateResponse_default True ex_tree))) =
     RC_NODE_EXISTS \<and>
   crr_code (fst (snd (DataTree_Create (ex_create NT_PERSISTENT ''/a/b'') (ex_txn 7) CreateResponse_default False ex_tree))) =
     RC_NODE_EXISTS"
proof -
  have c: "crr_code (fst (snd (DataTree_Create (ex_create NT_PERSISTENT ''/a/b'') Transaction_default CreateResponse_default True ex_tree))) =
     RC_NODE_EXISTS" by code_simp
  have "ParsePath (crq_path (ex_create NT_PERSISTENT ''/a/b'')) = (RC_OK, ''/a'', ''b'')"
    "\<not> is_sequential (dn_type (the (node_at ex_tree ''/a'')))" by code_simp+
  then have "\<forall>q c m. ParsePath (crq_path (ex_create NT_PERSISTENT ''/a/b'')) = (RC_OK, q, c) \<longrightarrow>
      node_at ex_tree q = Some m \<longrightarrow> \<not> is_sequential (dn_type m)" by auto
  from checks_predict_writes [OF ex_ok(1) this, of Transaction_default CreateResponse_default "ex_txn 7" CreateResponse_default
      undefined undefined undefined undefined undefined undefined] c
  show ?thesis by simp
qed

end
