(* ===== verification/DataTree_Race.thy ===== *)
theory DataTree_Race
  imports DataTree_Claims
begin

text \<open>
  The operations of \<^verbatim>\<open>DataTree\<close> that are not one critical section. \<^verbatim>\<open>Exists\<close> and \<^verbatim>\<open>GetData\<close> touch the nodes under the mutex
  of the tree and the watches under the mutex of the watch manager, in different orders; \<^verbatim>\<open>SetData\<close> changes the node
  and then, with the mutex released, triggers the watches. The parts are steps here, the operations of the
  atomic model are proved to be their compositions, and a read that leaves a watch is interleaved with a write.
\<close>

section \<open>The parts\<close>

definition Exists_read :: "string \<Rightarrow> ExistsResponse \<Rightarrow> DataTree \<Rightarrow> ExistsResponse" where
  "Exists_read path response t =
     (case um_find (nodes t) path of
        Some n \<Rightarrow> response\<lparr>exr_code := RC_OK, exr_node_type := dn_type n, exr_stat := dn_stat n\<rparr>
      | None \<Rightarrow> response\<lparr>exr_code := RC_NO_NODE\<rparr>)"

definition GetData_read :: "string \<Rightarrow> GetDataResponse \<Rightarrow> DataTree \<Rightarrow> GetDataResponse" where
  "GetData_read path response t =
     (case um_find (nodes t) path of
        Some n \<Rightarrow> response\<lparr>gdr_code := RC_OK, gdr_node_type := dn_type n, gdr_data := dn_data n, gdr_stat := dn_stat n\<rparr>
      | None \<Rightarrow> response\<lparr>gdr_code := RC_NO_NODE\<rparr>)"

definition GetData_watch :: "string \<Rightarrow> watcher option \<Rightarrow> GetDataResponse \<Rightarrow> DataTree \<Rightarrow> DataTree" where
  "GetData_watch path watcher response t = (if gdr_code response = RC_OK then add_data_watch path watcher t else t)"

definition SetData_apply ::
    "SetDataRequest \<Rightarrow> Transaction \<Rightarrow> SetDataResponse \<Rightarrow> bool \<Rightarrow> DataTree \<Rightarrow> DataTree \<times> SetDataResponse" where
  "SetData_apply request txn response only_check t =
     (case um_find (nodes t) (sdq_path request) of
        None \<Rightarrow> (t, response\<lparr>sdr_code := RC_NO_NODE\<rparr>)
      | Some n \<Rightarrow>
          if sdq_version request \<noteq> - 1 \<and> sdq_version request \<noteq> version (dn_stat n)
          then (t, response\<lparr>sdr_code := RC_BAD_VERSION\<rparr>)
          else if only_check then (t, response\<lparr>sdr_code := RC_OK\<rparr>)
          else (let n' = write_node request txn n
                in (t\<lparr>nodes := um_set (sdq_path request) n' (nodes t)\<rparr>, response\<lparr>sdr_code := RC_OK, sdr_stat := dn_stat n'\<rparr>)))"

definition SetData_trigger ::
    "SetDataRequest \<Rightarrow> SetDataResponse \<Rightarrow> bool \<Rightarrow> DataTree \<Rightarrow> DataTree \<times> notification list" where
  "SetData_trigger request response only_check t =
     (if \<not> only_check \<and> sdr_code response = RC_OK then trigger_data (sdq_path request) ET_NODE_DATA_CHANGED t else (t, []))"

text \<open>The operations of the atomic model are the parts in the order of the code.\<close>

lemma Exists_parts:
  "fst (ParsePath (exq_path request)) = RC_OK \<Longrightarrow> DataTree_Exists request w response t =
     (let t = add_data_watch (exq_path request) w t in (t, Exists_read (exq_path request) response t))"
  by (auto simp: DataTree_Exists_def Exists_read_def Let_def case_prod_beta split: option.split)

lemma GetData_parts:
  "fst (ParsePath (gdq_path request)) = RC_OK \<Longrightarrow> DataTree_GetData request w response t =
     (let response = GetData_read (gdq_path request) response t in (GetData_watch (gdq_path request) w response t, response))"
  by (auto simp: DataTree_GetData_def GetData_read_def GetData_watch_def Let_def case_prod_beta split: option.split)

lemma SetData_parts:
  "fst (ParsePath (sdq_path request)) = RC_OK \<Longrightarrow> DataTree_SetData request txn response only_check t =
     (let (t, response) = SetData_apply request txn response only_check t;
          (t, ns) = SetData_trigger request response only_check t
      in (t, response, ns))"
  by (auto simp: DataTree_SetData_def SetData_apply_def SetData_trigger_def Let_def case_prod_beta split: option.split)

section \<open>Interleavings of a read and a write\<close>

datatype race_op = ExistsWatch | ExistsRead | GetRead | GetWatch | ApplyWrite | TriggerWatch

record race =
  rc_tree :: DataTree
  rc_seen :: "Stat option"
  rc_read :: GetDataResponse
  rc_written :: SetDataResponse
  rc_notes :: "notification list"

definition race_start :: "DataTree \<Rightarrow> race" where
  "race_start t = \<lparr>rc_tree = t, rc_seen = None, rc_read = GetDataResponse_default, rc_written = SetDataResponse_default, rc_notes = []\<rparr>"

fun race_step :: "watcher \<Rightarrow> SetDataRequest \<Rightarrow> Transaction \<Rightarrow> race_op \<Rightarrow> race \<Rightarrow> race" where
  "race_step w request txn ExistsWatch z = z\<lparr>rc_tree := add_data_watch (sdq_path request) (Some w) (rc_tree z)\<rparr>"
| "race_step w request txn ExistsRead z =
     z\<lparr>rc_seen := Some (exr_stat (Exists_read (sdq_path request) ExistsResponse_default (rc_tree z)))\<rparr>"
| "race_step w request txn GetRead z =
     (let r = GetData_read (sdq_path request) GetDataResponse_default (rc_tree z) in z\<lparr>rc_read := r, rc_seen := Some (gdr_stat r)\<rparr>)"
| "race_step w request txn GetWatch z = z\<lparr>rc_tree := GetData_watch (sdq_path request) (Some w) (rc_read z) (rc_tree z)\<rparr>"
| "race_step w request txn ApplyWrite z =
     (let (t, r) = SetData_apply request txn SetDataResponse_default False (rc_tree z) in z\<lparr>rc_tree := t, rc_written := r\<rparr>)"
| "race_step w request txn TriggerWatch z =
     (let (t, ns) = SetData_trigger request (rc_written z) False (rc_tree z) in z\<lparr>rc_tree := t, rc_notes := rc_notes z @ ns\<rparr>)"

definition run_race :: "watcher \<Rightarrow> SetDataRequest \<Rightarrow> Transaction \<Rightarrow> race_op list \<Rightarrow> DataTree \<Rightarrow> race" where
  "run_race w request txn ops t = fold (race_step w request txn) ops (race_start t)"

text \<open>The reader is informed of a write that left the node with the status \<open>st\<close>: it has read it, or it has been
  notified.\<close>

definition informed :: "watcher \<Rightarrow> Stat \<Rightarrow> race \<Rightarrow> bool" where
  "informed w st z \<longleftrightarrow> rc_seen z = Some st \<or> w \<in> fst ` set (rc_notes z)"

lemma trigger_reaches: "w \<in> fst ` set (snd (TriggerWatcher p ty m)) \<longleftrightarrow> (p, w) \<in> registered m"
  using targets_registered [where m = m and p = p and ty = ty] by auto

lemma written_stat_differs: "dn_stat (write_node request txn n) \<noteq> dn_stat n"
proof
  assume "dn_stat (write_node request txn n) = dn_stat n"
  then have "version (dn_stat (write_node request txn n)) = version (dn_stat n)" by simp
  then show False by (simp add: write_node_def)
qed

lemmas race_defs = run_race_def race_start_def Let_def case_prod_beta SetData_apply_def SetData_trigger_def trigger_data_def
  Exists_read_def GetData_read_def GetData_watch_def add_data_watch_def informed_def

text \<open>C12: a reader that leaves a watch while the node is written. With \<^verbatim>\<open>Exists\<close>, which adds the watch before it reads,
  the reader sees the write or is notified of it, in every interleaving of the critical sections. With
  \<^verbatim>\<open>GetData\<close>, which adds the watch after it has read, there is exactly one interleaving in which it does neither: the
  write happens between the two. The reader then holds old data and a watch that waits for the next
  change.\<close>

theorem watch_race:
  assumes n: "um_find (nodes t) (sdq_path request) = Some n"
    and ver: "sdq_version request = - 1 \<or> sdq_version request = version (dn_stat n)"
    and fresh: "(sdq_path request, w) \<notin> registered (data_watches t)"
    and st: "st = dn_stat (write_node request txn n)"
  shows "(\<forall>ops \<in> shuffles [ExistsWatch, ExistsRead] [ApplyWrite, TriggerWatch]. informed w st (run_race w request txn ops t)) \<and>
    (\<forall>ops \<in> shuffles [GetRead, GetWatch] [ApplyWrite, TriggerWatch].
       informed w st (run_race w request txn ops t) \<longleftrightarrow> ops \<noteq> [GetRead, ApplyWrite, TriggerWatch, GetWatch]) \<and>
    (let z = run_race w request txn [GetRead, ApplyWrite, TriggerWatch, GetWatch] t
     in rc_seen z = Some (dn_stat n) \<and> (sdq_path request, w) \<in> registered (data_watches (rc_tree z)))"
proof -
  let ?p = "sdq_path request" and ?m = "data_watches t"
  have hit: "w \<in> fst ` set (snd (TriggerWatcher ?p ET_NODE_DATA_CHANGED (AddWatcher ?p w ?m)))"
    by (simp add: trigger_reaches registered_Add)
  have miss: "w \<notin> fst ` set (snd (TriggerWatcher ?p ET_NODE_DATA_CHANGED ?m))"
    using fresh by (simp add: trigger_reaches)
  have reg: "(?p, w) \<in> registered (AddWatcher ?p w (fst (TriggerWatcher ?p ET_NODE_DATA_CHANGED ?m)))"
    by (simp add: registered_Add)
  have "\<forall>ops \<in> shuffles [ExistsWatch, ExistsRead] [ApplyWrite, TriggerWatch]. informed w st (run_race w request txn ops t)"
    using n ver hit st by (auto simp: race_defs)
  moreover have "\<forall>ops \<in> shuffles [GetRead, GetWatch] [ApplyWrite, TriggerWatch].
       informed w st (run_race w request txn ops t) \<longleftrightarrow> ops \<noteq> [GetRead, ApplyWrite, TriggerWatch, GetWatch]"
    using n ver hit miss st written_stat_differs [of request txn n] by (auto simp: race_defs)
  moreover have "let z = run_race w request txn [GetRead, ApplyWrite, TriggerWatch, GetWatch] t
     in rc_seen z = Some (dn_stat n) \<and> (?p, w) \<in> registered (data_watches (rc_tree z))"
    using n ver reg by (auto simp add: race_defs)
  ultimately show ?thesis by blast
qed

text \<open>The witness: on the example tree, \<^verbatim>\<open>/a\<close> is overwritten while watcher 9 reads it.\<close>

theorem watch_race_witness:
  "\<not> informed 9 (dn_stat (write_node \<lparr>sdq_path = ''/a'', sdq_data = ''y'', sdq_version = 0\<rparr> (ex_txn 7) (the (node_at ex_tree ''/a''))))
       (run_race 9 \<lparr>sdq_path = ''/a'', sdq_data = ''y'', sdq_version = 0\<rparr> (ex_txn 7) [GetRead, ApplyWrite, TriggerWatch, GetWatch] ex_tree) \<and>
   informed 9 (dn_stat (write_node \<lparr>sdq_path = ''/a'', sdq_data = ''y'', sdq_version = 0\<rparr> (ex_txn 7) (the (node_at ex_tree ''/a''))))
       (run_race 9 \<lparr>sdq_path = ''/a'', sdq_data = ''y'', sdq_version = 0\<rparr> (ex_txn 7) [GetRead, ApplyWrite, GetWatch, TriggerWatch] ex_tree)"
proof -
  let ?r = "\<lparr>sdq_path = ''/a'', sdq_data = ''y'', sdq_version = 0\<rparr>" and ?n = "the (node_at ex_tree ''/a'')"
  have n: "node_at ex_tree (sdq_path ?r) = Some ?n" and ver: "sdq_version ?r = - 1 \<or> sdq_version ?r = version (dn_stat ?n)"
    by code_simp+
  have "data_watches ex_tree = ServerWatchManager_new" by code_simp
  then have fresh: "(sdq_path ?r, 9) \<notin> registered (data_watches ex_tree)" by (simp add: registered_new)
  show ?thesis
    using watch_race [OF n ver fresh refl, of "ex_txn 7"] by simp
qed

end
