(* ===== verification/SessionManager.thy ===== *)
theory SessionManager
  imports Messages
begin

text \<open>
  \<^verbatim>\<open>SessionManager\<close> (\<^verbatim>\<open>saber/server/session_manager.{h,cc}\<close>): the sessions of one paxos group with
  their versions. The version of a session is the instance of the log that created it or moved it to
  another connection last; closing and moving are guarded by it. The contract is the locale
  \<open>fenced_store\<close>: a compare-and-swap register per key that can be removed by the holder of the
  current version only.
\<close>

record SessionManager =
  sessions :: "(u64, u64) umap"

definition SessionManager_new :: SessionManager where
  "SessionManager_new = \<lparr>sessions = []\<rparr>"

definition SM_Recover :: "Session list \<Rightarrow> SessionManager \<Rightarrow> SessionManager" where
  "SM_Recover session_list m =
     m\<lparr>sessions := fold (\<lambda>s. um_set (ss_session_id s) (ss_version s)) session_list (sessions m)\<rparr>"

definition GetSessionList :: "SessionManager \<Rightarrow> Session list" where
  "GetSessionList m =
     map (\<lambda>(session_id, version). \<lparr>ss_session_id = session_id, ss_version = version\<rparr>) (sessions m)"

definition SM_FindVersion :: "u64 \<Rightarrow> SessionManager \<Rightarrow> u64 option" where
  "SM_FindVersion session_id m = um_find (sessions m) session_id"

definition SM_FindSession :: "u64 \<Rightarrow> u64 \<Rightarrow> SessionManager \<Rightarrow> bool" where
  "SM_FindSession session_id ver m =
     (case um_find (sessions m) session_id of Some v \<Rightarrow> v = ver | None \<Rightarrow> False)"

definition SM_CreateSession ::
    "u64 \<Rightarrow> u64 \<Rightarrow> u64 \<Rightarrow> SessionManager \<Rightarrow> SessionManager \<times> bool" where
  "SM_CreateSession session_id new_version old_version m =
     (if old_version \<noteq> 0
      then (case um_find (sessions m) session_id of
              Some v \<Rightarrow>
                if v = old_version
                then (m\<lparr>sessions := um_set session_id new_version (sessions m)\<rparr>, True)
                else (m, False)
            | None \<Rightarrow> (m, False))
      else (m\<lparr>sessions := um_set session_id new_version (sessions m)\<rparr>, True))"

definition SM_CloseSession :: "u64 \<Rightarrow> u64 \<Rightarrow> SessionManager \<Rightarrow> SessionManager \<times> bool" where
  "SM_CloseSession session_id ver m =
     (case um_find (sessions m) session_id of
        Some v \<Rightarrow>
          if v = ver then (m\<lparr>sessions := um_erase session_id (sessions m)\<rparr>, True)
          else (m, False)
      | None \<Rightarrow> (m, True))"

definition SM_CopySessions :: "SessionManager \<Rightarrow> (u64, u64) umap" where
  "SM_CopySessions m = sessions m"

section \<open>The contract\<close>

abbreviation version_of :: "SessionManager \<Rightarrow> u64 \<rightharpoonup> u64" where
  "version_of m \<equiv> um_find (sessions m)"

locale fenced_store =
  fixes cur :: "'s \<Rightarrow> 'k \<rightharpoonup> 'v"
    and fresh :: 'v
    and swap :: "'k \<Rightarrow> 'v \<Rightarrow> 'v \<Rightarrow> 's \<Rightarrow> 's \<times> bool"
    and remove :: "'k \<Rightarrow> 'v \<Rightarrow> 's \<Rightarrow> 's \<times> bool"
  assumes swap_ok: "snd (swap k new old s) \<longleftrightarrow> old = fresh \<or> cur s k = Some old"
    and swap_cur: "cur (fst (swap k new old s)) =
      (if snd (swap k new old s) then (cur s)(k \<mapsto> new) else cur s)"
    and remove_ok: "snd (remove k v s) \<longleftrightarrow> cur s k = None \<or> cur s k = Some v"
    and remove_cur: "cur (fst (remove k v s)) =
      (if snd (remove k v s) then (cur s)(k := None) else cur s)"
begin

lemma stale_swap_rejected:
  "snd (swap k new old s) \<Longrightarrow> new \<noteq> old \<Longrightarrow> old \<noteq> fresh \<Longrightarrow> \<not> snd (swap k new' old (fst (swap k new old s)))"
  by (simp add: swap_ok swap_cur)

lemma stale_remove_rejected:
  "snd (swap k new old s) \<Longrightarrow> v \<noteq> new \<Longrightarrow>
     \<not> snd (remove k v (fst (swap k new old s))) \<and>
     cur (fst (remove k v (fst (swap k new old s)))) k = Some new"
  by (simp add: swap_cur remove_ok remove_cur)

lemma removed_cannot_swap:
  "snd (remove k v s) \<Longrightarrow> old \<noteq> fresh \<Longrightarrow> \<not> snd (swap k new old (fst (remove k v s)))"
  by (simp add: swap_ok remove_cur)

lemma other_key: "j \<noteq> k \<Longrightarrow>
    cur (fst (swap k new old s)) j = cur s j \<and> cur (fst (remove k v s)) j = cur s j"
  by (simp add: swap_cur remove_cur)

end

interpretation sm: fenced_store version_of 0 SM_CreateSession SM_CloseSession
  by unfold_locales (auto simp: SM_CreateSession_def SM_CloseSession_def split: option.splits)

lemma um_wf_SM:
  assumes "um_wf (sessions m)"
  shows "um_wf (sessions (fst (SM_CreateSession k new old m)))"
    and "um_wf (sessions (fst (SM_CloseSession k v m)))"
  using assms by (auto simp: SM_CreateSession_def SM_CloseSession_def split: option.splits)

lemma FindSession_cur: "SM_FindSession k v m \<longleftrightarrow> version_of m k = Some v"
  by (simp add: SM_FindSession_def split: option.splits)

section \<open>Checkpoint\<close>

lemma version_of_fold:
  "um_find (fold (\<lambda>s. um_set (ss_session_id s) (ss_version s)) xs m) =
     um_find m ++ map_of (rev (map (\<lambda>s. (ss_session_id s, ss_version s)) xs))"
  by (induction xs arbitrary: m) (simp_all add: map_add_assoc)

lemma um_wf_fold_sessions:
  "um_wf m \<Longrightarrow> um_wf (fold (\<lambda>s. um_set (ss_session_id s) (ss_version s)) xs m)"
  by (induction xs arbitrary: m) simp_all

lemma um_wf_recovered: "um_wf (sessions (SM_Recover xs SessionManager_new))"
  by (simp add: SM_Recover_def SessionManager_new_def um_wf_fold_sessions)

lemma sessions_recovered:
  assumes "um_wf (sessions m)"
  shows "version_of (SM_Recover (GetSessionList m) SessionManager_new) = version_of m"
proof -
  have "map (\<lambda>s. (ss_session_id s, ss_version s)) (GetSessionList m) = sessions m"
    by (simp add: GetSessionList_def comp_def case_prod_beta)
  moreover have "map_of (rev (sessions m)) = map_of (sessions m)"
    using assms by (intro map_of_inject_set [THEN iffD2]) (auto simp: um_wf_def rev_map [symmetric])
  ultimately show "version_of (SM_Recover (GetSessionList m) SessionManager_new) = version_of m"
    by (simp add: SM_Recover_def SessionManager_new_def version_of_fold)
qed

end
