(* ===== verification/SaberDB.thy ===== *)
theory SaberDB
  imports SessionManager DataTree
begin

text \<open>
  \<^verbatim>\<open>SaberDB\<close> (\<^verbatim>\<open>saber/server/saber_db.{h,cc}\<close>): the state machine that the paxos log drives, one tree and
  one session manager for each group. \<open>Execute\<close> takes the serialised value of a log entry and the
  reply message of the session that proposed it (the \<^verbatim>\<open>context\<close>, absent on every other replica) and
  returns the new state, the boolean result, the reply as it is left and the notifications sent.
  The serialisers are the parameter \<open>pb\<close>; reading and writing a checkpoint file, which
  \<^verbatim>\<open>skywalker::StateMachine\<close> does, is the parameter \<open>io\<close>. A \<^verbatim>\<open>group_id\<close> indexes both vectors without
  a check; the theorems below require it to be in range.
\<close>

record SaberDB =
  trees :: "DataTree list"
  db_sessions :: "SessionManager list"

definition SaberDB_new :: "u32 \<Rightarrow> SaberDB" where
  "SaberDB_new paxos_group_size =
     \<lparr>trees = replicate (unat paxos_group_size) DataTree_new,
      db_sessions = replicate (unat paxos_group_size) SessionManager_new\<rparr>"

definition valid_group :: "SaberDB \<Rightarrow> u32 \<Rightarrow> bool" where
  "valid_group db g \<longleftrightarrow> unat g < length (trees db) \<and> length (db_sessions db) = length (trees db)"

abbreviation tree_of :: "SaberDB \<Rightarrow> u32 \<Rightarrow> DataTree" where
  "tree_of db g \<equiv> trees db ! unat g"

abbreviation sessions_of :: "SaberDB \<Rightarrow> u32 \<Rightarrow> SessionManager" where
  "sessions_of db g \<equiv> db_sessions db ! unat g"

definition put_tree :: "u32 \<Rightarrow> DataTree \<Rightarrow> SaberDB \<Rightarrow> SaberDB" where
  "put_tree g t db = db\<lparr>trees := (trees db)[unat g := t]\<rparr>"

definition put_sessions :: "u32 \<Rightarrow> SessionManager \<Rightarrow> SaberDB \<Rightarrow> SaberDB" where
  "put_sessions g m db = db\<lparr>db_sessions := (db_sessions db)[unat g := m]\<rparr>"

section \<open>Checkpoints\<close>

record 'fs checkpoint_io =
  read_nodes :: "u32 \<Rightarrow> u64 \<Rightarrow> string \<Rightarrow> 'fs \<Rightarrow> DataNode list option"
  read_sessions :: "u32 \<Rightarrow> u64 \<Rightarrow> string \<Rightarrow> 'fs \<Rightarrow> Session list option"
  write_nodes :: "u32 \<Rightarrow> u64 \<Rightarrow> string \<Rightarrow> DataNode list \<Rightarrow> 'fs \<Rightarrow> 'fs \<times> bool"
  write_sessions :: "u32 \<Rightarrow> u64 \<Rightarrow> string \<Rightarrow> Session list \<Rightarrow> 'fs \<Rightarrow> 'fs \<times> bool"

definition kDataCheckpoint :: string where
  "kDataCheckpoint = ''SABERDATA.db''"

definition kSessionCheckpoint :: string where
  "kSessionCheckpoint = ''SABERSESSION.db''"

definition DB_Recover ::
    "'fs checkpoint_io \<Rightarrow> 'fs \<Rightarrow> u32 \<Rightarrow> u64 \<Rightarrow> string \<Rightarrow> SaberDB \<Rightarrow> SaberDB \<times> bool" where
  "DB_Recover io fs gid instance_id dir db =
     (case read_nodes io gid instance_id (dir @ ''/'' @ kDataCheckpoint) fs of
        None \<Rightarrow> (db, False)
      | Some node_list \<Rightarrow>
          (case read_sessions io gid instance_id (dir @ ''/'' @ kSessionCheckpoint) fs of
             None \<Rightarrow> (db, False)
           | Some session_list \<Rightarrow>
               (put_sessions gid (SM_Recover session_list (sessions_of db gid))
                  (put_tree gid (DataTree_Recover node_list (tree_of db gid)) db), True)))"

text \<open>
  \<^verbatim>\<open>MakeCheckpoint\<close> copies the state in the thread that executes the log and queues a task in the run
  loop; the task writes the two files and reports the result through the callback.
\<close>

record checkpoint_task =
  ct_group :: u32
  ct_instance :: u64
  ct_dir :: string
  ct_nodes :: "DataNode list"
  ct_sessions :: "Session list"

definition MakeCheckpoint :: "u32 \<Rightarrow> u64 \<Rightarrow> string \<Rightarrow> SaberDB \<Rightarrow> checkpoint_task \<times> bool" where
  "MakeCheckpoint gid instance_id dir db =
     (\<lparr>ct_group = gid, ct_instance = instance_id, ct_dir = dir,
       ct_nodes = GetDataNodeList (tree_of db gid),
       ct_sessions = GetSessionList (sessions_of db gid)\<rparr>, True)"

definition run_checkpoint_task ::
    "'fs checkpoint_io \<Rightarrow> checkpoint_task \<Rightarrow> 'fs \<Rightarrow> 'fs \<times> (u32 \<times> u64 \<times> bool)" where
  "run_checkpoint_task io task fs =
     (let (fs1, b1) = write_nodes io (ct_group task) (ct_instance task)
                        (ct_dir task @ ''/'' @ kDataCheckpoint) (ct_nodes task) fs
      in if b1
         then (let (fs2, b2) = write_sessions io (ct_group task) (ct_instance task)
                                 (ct_dir task @ ''/'' @ kSessionCheckpoint) (ct_sessions task) fs1
               in (fs2, ct_group task, ct_instance task, b2))
         else (fs1, ct_group task, ct_instance task, False))"

definition GetCheckpoint :: "u32 \<Rightarrow> u64 \<Rightarrow> string \<Rightarrow> string list \<Rightarrow> string list \<times> bool" where
  "GetCheckpoint gid instance_id dir files = (files @ [kDataCheckpoint, kSessionCheckpoint], True)"

section \<open>Operations on one group\<close>

definition DB_Create ::
    "u32 \<Rightarrow> CreateRequest \<Rightarrow> Transaction \<Rightarrow> CreateResponse \<Rightarrow> SaberDB \<Rightarrow>
     SaberDB \<times> CreateResponse \<times> notification list" where
  "DB_Create gid request txn response db =
     (let (t, response, ns) = DataTree_Create request txn response False (tree_of db gid)
      in (put_tree gid t db, response, ns))"

definition DB_Delete ::
    "u32 \<Rightarrow> DeleteRequest \<Rightarrow> Transaction \<Rightarrow> DeleteResponse \<Rightarrow> SaberDB \<Rightarrow>
     SaberDB \<times> DeleteResponse \<times> notification list" where
  "DB_Delete gid request txn response db =
     (let (t, response, ns) = DataTree_Delete request txn response False (tree_of db gid)
      in (put_tree gid t db, response, ns))"

definition DB_SetData ::
    "u32 \<Rightarrow> SetDataRequest \<Rightarrow> Transaction \<Rightarrow> SetDataResponse \<Rightarrow> SaberDB \<Rightarrow>
     SaberDB \<times> SetDataResponse \<times> notification list" where
  "DB_SetData gid request txn response db =
     (let (t, response, ns) = DataTree_SetData request txn response False (tree_of db gid)
      in (put_tree gid t db, response, ns))"

definition DB_Exists ::
    "u32 \<Rightarrow> ExistsRequest \<Rightarrow> watcher option \<Rightarrow> ExistsResponse \<Rightarrow> SaberDB \<Rightarrow> SaberDB \<times> ExistsResponse" where
  "DB_Exists gid request watcher response db =
     (let (t, response) = DataTree_Exists request watcher response (tree_of db gid)
      in (put_tree gid t db, response))"

definition DB_GetData ::
    "u32 \<Rightarrow> GetDataRequest \<Rightarrow> watcher option \<Rightarrow> GetDataResponse \<Rightarrow> SaberDB \<Rightarrow>
     SaberDB \<times> GetDataResponse" where
  "DB_GetData gid request watcher response db =
     (let (t, response) = DataTree_GetData request watcher response (tree_of db gid)
      in (put_tree gid t db, response))"

definition DB_GetChildren ::
    "u32 \<Rightarrow> GetChildrenRequest \<Rightarrow> watcher option \<Rightarrow> GetChildrenResponse \<Rightarrow> SaberDB \<Rightarrow>
     SaberDB \<times> GetChildrenResponse" where
  "DB_GetChildren gid request watcher response db =
     (let (t, response) = DataTree_GetChildren request watcher response (tree_of db gid)
      in (put_tree gid t db, response))"

definition CheckCreate ::
    "u32 \<Rightarrow> CreateRequest \<Rightarrow> CreateResponse \<Rightarrow> SaberDB \<Rightarrow> SaberDB \<times> CreateResponse" where
  "CheckCreate gid request response db =
     (let (t, response, ns) =
            DataTree_Create request Transaction_default response True (tree_of db gid)
      in (put_tree gid t db, response))"

definition CheckDelete ::
    "u32 \<Rightarrow> DeleteRequest \<Rightarrow> DeleteResponse \<Rightarrow> SaberDB \<Rightarrow> SaberDB \<times> DeleteResponse" where
  "CheckDelete gid request response db =
     (let (t, response, ns) =
            DataTree_Delete request Transaction_default response True (tree_of db gid)
      in (put_tree gid t db, response))"

definition CheckSetData ::
    "u32 \<Rightarrow> SetDataRequest \<Rightarrow> SetDataResponse \<Rightarrow> SaberDB \<Rightarrow> SaberDB \<times> SetDataResponse" where
  "CheckSetData gid request response db =
     (let (t, response, ns) =
            DataTree_SetData request Transaction_default response True (tree_of db gid)
      in (put_tree gid t db, response))"

definition DB_RemoveWatcher :: "u32 \<Rightarrow> watcher \<Rightarrow> SaberDB \<Rightarrow> SaberDB" where
  "DB_RemoveWatcher gid w db = put_tree gid (DataTree_RemoveWatcher w (tree_of db gid)) db"

definition DB_FindVersion :: "u32 \<Rightarrow> u64 \<Rightarrow> SaberDB \<Rightarrow> u64 option" where
  "DB_FindVersion gid session_id db = SM_FindVersion session_id (sessions_of db gid)"

definition DB_FindSession :: "u32 \<Rightarrow> u64 \<Rightarrow> u64 \<Rightarrow> SaberDB \<Rightarrow> bool" where
  "DB_FindSession gid session_id ver db = SM_FindSession session_id ver (sessions_of db gid)"

definition DB_CopySessions :: "u32 \<Rightarrow> SaberDB \<Rightarrow> (u64, u64) umap" where
  "DB_CopySessions gid db = SM_CopySessions (sessions_of db gid)"

definition DB_CreateSession :: "u32 \<Rightarrow> u64 \<Rightarrow> u64 \<Rightarrow> u64 \<Rightarrow> SaberDB \<Rightarrow> SaberDB \<times> bool" where
  "DB_CreateSession gid session_id new_version old_version db =
     (let (m, b) = SM_CreateSession session_id new_version old_version (sessions_of db gid)
      in (put_sessions gid m db, b))"

definition DB_CloseSession :: "u32 \<Rightarrow> u64 \<Rightarrow> u64 \<Rightarrow> SaberDB \<Rightarrow> SaberDB \<times> bool" where
  "DB_CloseSession gid session_id ver db =
     (let (m, b) = SM_CloseSession session_id ver (sessions_of db gid)
      in (put_sessions gid m db, b))"

definition DB_KillSession :: "u32 \<Rightarrow> u64 \<Rightarrow> Transaction \<Rightarrow> SaberDB \<Rightarrow> SaberDB \<times> notification list" where
  "DB_KillSession gid session_id txn db =
     (let (t, ns) = DataTree_KillSession session_id txn (tree_of db gid)
      in (put_tree gid t db, ns))"

section \<open>Executing a log entry\<close>

fun close_loop ::
    "u32 \<Rightarrow> Transaction \<Rightarrow> (u64 \<times> u64) list \<Rightarrow> SaberDB \<Rightarrow> SaberDB \<times> notification list" where
  "close_loop gid txn [] db = (db, [])"
| "close_loop gid txn ((sid, ver) # rest) db =
     (let (db, b) = DB_CloseSession gid sid ver db;
          (db, ns) = (if b then DB_KillSession gid sid txn db else (db, []));
          (db, ns') = close_loop gid txn rest db
      in (db, ns @ ns'))"

definition set_reply :: "bytes \<Rightarrow> SaberMessage option \<Rightarrow> SaberMessage option" where
  "set_reply data = map_option (\<lambda>m. m\<lparr>sm_data := data\<rparr>)"

definition entry_txn :: "pb_codec \<Rightarrow> u32 \<Rightarrow> u64 \<Rightarrow> SaberMessage \<Rightarrow> Transaction" where
  "entry_txn pb gid instance_id message =
     (parse_Transaction pb (sm_extra_data message))
       \<lparr>tx_group_id := gid, tx_instance_id := instance_id\<rparr>"

definition Execute ::
    "pb_codec \<Rightarrow> u32 \<Rightarrow> u64 \<Rightarrow> bytes \<Rightarrow> SaberMessage option \<Rightarrow> SaberDB \<Rightarrow>
     SaberDB \<times> bool \<times> SaberMessage option \<times> notification list" where
  "Execute pb gid instance_id value reply db =
     (let message = parse_SaberMessage pb value;
          txn = entry_txn pb gid instance_id message
      in case sm_type message of
           MT_CONNECT \<Rightarrow>
             (let request = parse_ConnectRequest pb (sm_data message);
                  (db, b) = DB_CreateSession gid (cnq_session_id request) instance_id
                              (cnq_version request) db;
                  response = (if b then ConnectResponse_default
                              else ConnectResponse_default\<lparr>cnr_code := RC_UNKNOWN\<rparr>)
              in (db, True, set_reply (ser_ConnectResponse pb response) reply, []))
         | MT_CLOSE \<Rightarrow>
             (let request = parse_CloseRequest pb (sm_data message);
                  (db, ns) = close_loop gid txn
                               (zip (clq_session_id request) (clq_version request)) db
              in (db, True, reply, ns))
         | MT_CREATE \<Rightarrow>
             (let request = parse_CreateRequest pb (sm_data message);
                  (db, response, ns) = DB_Create gid request txn CreateResponse_default db
              in (db, True, set_reply (ser_CreateResponse pb response) reply, ns))
         | MT_DELETE \<Rightarrow>
             (let request = parse_DeleteRequest pb (sm_data message);
                  (db, response, ns) = DB_Delete gid request txn DeleteResponse_default db
              in (db, True, set_reply (ser_DeleteResponse pb response) reply, ns))
         | MT_SETDATA \<Rightarrow>
             (let request = parse_SetDataRequest pb (sm_data message);
                  (db, response, ns) = DB_SetData gid request txn SetDataResponse_default db
              in (db, True, set_reply (ser_SetDataResponse pb response) reply, ns))
         | _ \<Rightarrow> (db, False, reply, []))"

end
