(* ===== verification/Strings.thy ===== *)
theory Strings
  imports Prelude
begin

text \<open>
  Numbers and lists as text: \<^verbatim>\<open>atoi\<close>, and pieces joined by a delimiter and split again.
  \<^verbatim>\<open>voyager::SplitStringUsing\<close> is a parameter; \<open>split_law\<close> is what the callers rely on: pieces that are not empty
  and hold no delimiter come back from their joined text. \<open>split_on\<close> is a function that satisfies it.
\<close>

section \<open>Decimal numbers\<close>

text \<open>\<^verbatim>\<open>atoi\<close> is \<^verbatim>\<open>(int) strtol(s, nullptr, 10)\<close>, as in the C library of Linux: white space, a sign, digits; the value
  saturates at 64 bits and is cut to 32.\<close>

definition is_space :: "char \<Rightarrow> bool" where
  "is_space c \<longleftrightarrow> c = CHR '' '' \<or> of_char c \<in> {9..13 :: nat}"

definition is_digit :: "char \<Rightarrow> bool" where
  "is_digit c \<longleftrightarrow> c \<in> set ''0123456789''"

definition strtol :: "string \<Rightarrow> int" where
  "strtol s =
     (let s = dropWhile is_space s;
          negative = (s \<noteq> [] \<and> hd s = CHR ''-'');
          s = (if s \<noteq> [] \<and> (hd s = CHR ''-'' \<or> hd s = CHR ''+'') then tl s else s);
          v = int (digits_value (takeWhile is_digit s))
      in max (- (2 ^ 63)) (min (2 ^ 63 - 1) (if negative then - v else v)))"

definition atoi :: "string \<Rightarrow> i32" where
  "atoi s = word_of_int (strtol s)"

lemma digits_show_nat: "set (show_nat n) \<subseteq> set ''0123456789''"
proof (induction n rule: show_nat.induct)
  case (1 n)
  have d: "digit_char k \<in> set ''0123456789''" if "k < 10" for k
  proof -
    have "list_all (\<lambda>k. digit_char k \<in> set ''0123456789'') [0..<10]" by code_simp
    then show ?thesis using that by (simp only: list_all_iff) (metis atLeast0LessThan lessThan_iff set_upt)
  qed
  show ?case
  proof (cases "n < 10")
    case True
    then show ?thesis using d by (subst show_nat.simps) auto
  next
    case False
    have "digit_char (n mod 10) \<in> set ''0123456789''" by (rule d) simp
    then show ?thesis using 1 [OF False] False by (subst show_nat.simps) auto
  qed
qed

lemma show_nat_not_Nil [simp]: "show_nat n \<noteq> []"
  by (subst show_nat.simps) simp

lemma is_digit_show_nat: "c \<in> set (show_nat n) \<Longrightarrow> is_digit c"
  unfolding is_digit_def using digits_show_nat by blast

lemma is_digit_plain: "is_digit c \<Longrightarrow> \<not> is_space c \<and> c \<noteq> CHR ''-'' \<and> c \<noteq> CHR ''+''"
  unfolding is_digit_def is_space_def by auto

lemma strtol_show_nat: "n < 2 ^ 63 \<Longrightarrow> strtol (show_nat n) = int n"
proof -
  assume n: "n < 2 ^ 63"
  obtain c s where s: "show_nat n = c # s" by (cases "show_nat n") auto
  then have c: "is_digit c" using is_digit_show_nat [of c n] by simp
  have "takeWhile is_digit (show_nat n) = show_nat n"
    unfolding takeWhile_eq_all_conv using is_digit_show_nat by blast
  then have "int (digits_value (takeWhile is_digit (c # s))) = int n" unfolding s [symmetric] by (simp only: digits_value_show_nat)
  then show ?thesis unfolding strtol_def s using is_digit_plain [OF c] n by (simp add: Let_def c del: takeWhile.simps)
qed

lemma strtol_minus: "n \<le> 2 ^ 63 \<Longrightarrow> strtol (CHR ''-'' # show_nat n) = - int n"
proof -
  assume n: "n \<le> 2 ^ 63"
  have "takeWhile is_digit (show_nat n) = show_nat n"
    unfolding takeWhile_eq_all_conv using is_digit_show_nat by blast
  then have "int (digits_value (takeWhile is_digit (show_nat n))) = int n" by (simp only: digits_value_show_nat)
  moreover have "\<not> is_space CHR ''-''" by (simp add: is_space_def)
  ultimately show ?thesis using n by (simp add: strtol_def Let_def)
qed

lemma atoi_show_nat: "n < 2 ^ 63 \<Longrightarrow> atoi (show_nat n) = word_of_nat n"
  by (simp add: atoi_def strtol_show_nat)

lemma atoi_Nil [simp]: "atoi [] = 0"
  by (simp add: atoi_def strtol_def digits_value_def)

section \<open>Joining and splitting\<close>

fun join_with :: "char \<Rightarrow> string list \<Rightarrow> string" where
  "join_with d [] = []"
| "join_with d [s] = s"
| "join_with d (s # ss) = s @ d # join_with d ss"

definition piece :: "char \<Rightarrow> string \<Rightarrow> bool" where
  "piece d s \<longleftrightarrow> s \<noteq> [] \<and> d \<notin> set s"

definition split_law :: "char \<Rightarrow> (string \<Rightarrow> string list) \<Rightarrow> bool" where
  "split_law d split \<longleftrightarrow> (\<forall>ss. list_all (piece d) ss \<longrightarrow> split (join_with d ss) = ss)"

lemma split_lawD: "split_law d split \<Longrightarrow> list_all (piece d) ss \<Longrightarrow> split (join_with d ss) = ss"
  by (simp add: split_law_def)

lemma split_law_Nil: "split_law d split \<Longrightarrow> split [] = []"
  using split_lawD [of d split "[]"] by simp

lemma butlast_joined: "butlast (concat (map (\<lambda>s. s @ [d]) ss)) = join_with d ss"
proof (induction d ss rule: join_with.induct)
  case (3 d s t ss)
  have "concat (map (\<lambda>s. s @ [d]) (t # ss)) \<noteq> []" by simp
  then have "butlast (concat (map (\<lambda>s. s @ [d]) (s # t # ss))) = (s @ [d]) @ butlast (concat (map (\<lambda>s. s @ [d]) (t # ss)))"
    by (simp only: list.map concat.simps butlast_append if_False)
  then show ?case by (simp only: 3) simp
qed simp_all

function split_on :: "char \<Rightarrow> string \<Rightarrow> string list" where
  "split_on d [] = []"
| "split_on d (x # xs) =
     (if x = d then split_on d xs
      else (x # takeWhile (\<lambda>c. c \<noteq> d) xs) # split_on d (dropWhile (\<lambda>c. c \<noteq> d) xs))"
  by pat_completeness auto
termination
  by (relation "measure (length \<circ> snd)") (auto simp: less_Suc_eq_le length_dropWhile_le)

lemma split_on_piece:
  assumes "piece d s"
  shows "split_on d s = [s]" and "split_on d (s @ d # r) = s # split_on d r"
proof -
  obtain x xs where s: "s = x # xs" using assms by (cases s) (auto simp: piece_def)
  have x: "x \<noteq> d" and xs: "d \<notin> set xs" using assms by (auto simp: s piece_def)
  then have "takeWhile (\<lambda>c. c \<noteq> d) xs = xs" "dropWhile (\<lambda>c. c \<noteq> d) xs = []"
    "takeWhile (\<lambda>c. c \<noteq> d) (xs @ d # r) = xs" "dropWhile (\<lambda>c. c \<noteq> d) (xs @ d # r) = d # r"
    by (auto simp: takeWhile_append dropWhile_append dropWhile_eq_Nil_conv takeWhile_eq_all_conv)
  then show "split_on d s = [s]" "split_on d (s @ d # r) = s # split_on d r"
    unfolding s append_Cons split_on.simps by (simp_all only: x if_False split_on.simps refl if_True)
qed

lemma split_on_law: "split_law d (split_on d)"
proof -
  have "list_all (piece d) ss \<longrightarrow> split_on d (join_with d ss) = ss" for ss
    by (induction d ss rule: join_with.induct) (simp_all add: split_on_piece)
  then show ?thesis by (simp add: split_law_def)
qed

end
