(* ===== verification/SaberSession.thy ===== *)
theory SaberSession
  imports SaberDB Strings
begin

text \<open>
  \<^verbatim>\<open>SaberSession\<close> (\<^verbatim>\<open>saber/server/saber_session.{h,cc}\<close>): the requests of one client session, handled one
  at a time. The environment of a call is the record \<open>node_env\<close>: what \<^verbatim>\<open>skywalker::Node\<close> answers about
  the master and whether it takes a proposal, the clock, and which connections are alive. A handler
  returns the session, the database and the list of its effects: messages sent, connections closed,
  messages queued in the event loop of the connection, and proposals. A proposal that was taken is
  answered later by \<open>WeakCallback\<close>. The build is the release build: an \<^verbatim>\<open>assert\<close> has no effect.
\<close>

type_synonym conn = nat

record node_env =
  env_is_master :: "u32 \<Rightarrow> bool"
  env_master :: "u32 \<Rightarrow> (string \<times> string) option"
  env_propose :: "u32 \<Rightarrow> bytes \<Rightarrow> bool"
  env_now :: u64
  env_alive :: "conn \<Rightarrow> bool"
  env_max_data :: u32

datatype session_effect =
    SendMessage "conn option" SaberMessage
  | ForceClose conn
  | QueueHandle SaberMessage
  | ProposeEntry u32 bytes SaberMessage

record SaberSession =
  kRoot :: string
  sess_group :: u32
  sess_id :: u64
  sess_self :: watcher
  sess_version :: u64
  closed :: bool
  last_finished :: bool
  conn_wp :: "conn option"
  pending_messages :: "SaberMessage list"

type_synonym session_result = "SaberSession \<times> SaberDB \<times> session_effect list"

definition SaberSession_new :: "string \<Rightarrow> u32 \<Rightarrow> u64 \<Rightarrow> watcher \<Rightarrow> conn option \<Rightarrow> SaberSession" where
  "SaberSession_new root gid session_id self p =
     \<lparr>kRoot = root, sess_group = gid, sess_id = session_id, sess_self = self, sess_version = 0,
      closed = False, last_finished = True, conn_wp = p, pending_messages = []\<rparr>"

definition GetRoot :: "string \<Rightarrow> string" where
  "GetRoot path = (case path of [] \<Rightarrow> [] | x # xs \<Rightarrow> x # takeWhile (\<lambda>c. c \<noteq> slash) xs)"

definition SaberSession_destroy :: "SaberSession \<Rightarrow> SaberDB \<Rightarrow> SaberDB" where
  "SaberSession_destroy s db = DB_RemoveWatcher (sess_group s) (sess_self s) db"

definition lock_conn :: "node_env \<Rightarrow> SaberSession \<Rightarrow> conn option" where
  "lock_conn env s = (case conn_wp s of Some c \<Rightarrow> if env_alive env c then Some c else None | None \<Rightarrow> None)"

definition OnConnect :: "conn option \<Rightarrow> SaberSession \<Rightarrow> SaberSession" where
  "OnConnect p s = s\<lparr>closed := False, conn_wp := p, pending_messages := []\<rparr>"

definition SetFailedState :: "pb_codec \<Rightarrow> SaberMessage \<Rightarrow> SaberMessage" where
  "SetFailedState pb m =
     (case sm_type m of
        MT_CREATE \<Rightarrow> m\<lparr>sm_data := ser_CreateResponse pb (CreateResponse_default\<lparr>crr_code := RC_FAILED\<rparr>)\<rparr>
      | MT_DELETE \<Rightarrow> m\<lparr>sm_data := ser_DeleteResponse pb (DeleteResponse_default\<lparr>dlr_code := RC_FAILED\<rparr>)\<rparr>
      | MT_SETDATA \<Rightarrow> m\<lparr>sm_data := ser_SetDataResponse pb (SetDataResponse_default\<lparr>sdr_code := RC_FAILED\<rparr>)\<rparr>
      | MT_CLOSE \<Rightarrow> m\<lparr>sm_data := ser_CloseResponse pb (CloseResponse_default\<lparr>clr_code := RC_FAILED\<rparr>)\<rparr>
      | _ \<Rightarrow> m)"

section \<open>Finishing a request\<close>

definition Done :: "node_env \<Rightarrow> SaberMessage \<Rightarrow> SaberSession \<Rightarrow> SaberSession \<times> session_effect list" where
  "Done env reply s =
     (let p = lock_conn env s;
          sent = (if sm_type reply \<noteq> MT_PING then [SendMessage p reply] else [])
      in if p \<noteq> None \<and> sm_type reply \<noteq> MT_MASTER \<and> sm_type reply \<noteq> MT_CLOSE
         then (case pending_messages s of
                 next # rest \<Rightarrow> (s\<lparr>pending_messages := rest\<rparr>, sent @ [QueueHandle next])
               | [] \<Rightarrow> (s\<lparr>last_finished := True\<rparr>, sent))
         else (s\<lparr>closed := True, pending_messages := [], last_finished := True\<rparr>,
               sent @ (case p of Some c \<Rightarrow> [ForceClose c] | None \<Rightarrow> [])))"

definition propose_txn :: "node_env \<Rightarrow> SaberSession \<Rightarrow> Transaction" where
  "propose_txn env s = Transaction_default\<lparr>tx_session_id := sess_id s, tx_time := env_now env\<rparr>"

definition Propose ::
    "pb_codec \<Rightarrow> node_env \<Rightarrow> SaberMessage \<Rightarrow> SaberSession \<Rightarrow> SaberSession \<times> session_effect list" where
  "Propose pb env message s =
     (let reply = message\<lparr>sm_extra_data := ser_Transaction pb (propose_txn env s)\<rparr>;
          entry = ser_SaberMessage pb reply
      in if env_propose env (sess_group s) entry
         then (s, [ProposeEntry (sess_group s) entry reply])
         else Done env ((SetFailedState pb reply)\<lparr>sm_extra_data := []\<rparr>) s)"

definition WeakCallback ::
    "pb_codec \<Rightarrow> node_env \<Rightarrow> bool \<Rightarrow> SaberMessage \<Rightarrow> SaberSession \<Rightarrow> SaberSession \<times> session_effect list" where
  "WeakCallback pb env ok reply s =
     Done env ((if ok then reply else SetFailedState pb reply)\<lparr>sm_extra_data := []\<rparr>) s"

section \<open>Handling a request\<close>

definition watch_arg :: "bool \<Rightarrow> SaberSession \<Rightarrow> watcher option" where
  "watch_arg w s = (if w then Some (sess_self s) else None)"

text \<open>The switch of \<^verbatim>\<open>DoIt\<close>: the message as it is left, the database, and whether the request is done.\<close>

definition DoIt_switch ::
    "pb_codec \<Rightarrow> node_env \<Rightarrow> SaberMessage \<Rightarrow> SaberSession \<Rightarrow> SaberDB \<Rightarrow> SaberMessage \<times> SaberDB \<times> bool" where
  "DoIt_switch pb env message s db =
     (let g = sess_group s in
      case sm_type message of
        MT_PING \<Rightarrow> (message, db, True)
      | MT_EXISTS \<Rightarrow>
          (let request = parse_ExistsRequest pb (sm_data message);
               (db, response) = DB_Exists g request (watch_arg (exq_watch request) s) ExistsResponse_default db
           in (message\<lparr>sm_data := ser_ExistsResponse pb response\<rparr>, db, True))
      | MT_GETDATA \<Rightarrow>
          (let request = parse_GetDataRequest pb (sm_data message);
               (db, response) = DB_GetData g request (watch_arg (gdq_watch request) s) GetDataResponse_default db
           in (message\<lparr>sm_data := ser_GetDataResponse pb response\<rparr>, db, True))
      | MT_GETCHILDREN \<Rightarrow>
          (let request = parse_GetChildrenRequest pb (sm_data message);
               (db, response) = DB_GetChildren g request (watch_arg (gcq_watch request) s)
                                  GetChildrenResponse_default db
           in (message\<lparr>sm_data := ser_GetChildrenResponse pb response\<rparr>, db, True))
      | MT_CREATE \<Rightarrow>
          (let request = parse_CreateRequest pb (sm_data message)
           in if GetRoot (crq_path request) \<noteq> kRoot s then (SetFailedState pb message, db, True)
              else (let (db, response) = CheckCreate g request CreateResponse_default db
                    in if crr_code response \<noteq> RC_OK
                       then (message\<lparr>sm_data := ser_CreateResponse pb response\<rparr>, db, True)
                       else (message, db, False)))
      | MT_DELETE \<Rightarrow>
          (let request = parse_DeleteRequest pb (sm_data message)
           in if GetRoot (dlq_path request) \<noteq> kRoot s then (SetFailedState pb message, db, True)
              else (let (db, response) = CheckDelete g request DeleteResponse_default db
                    in if dlr_code response \<noteq> RC_OK
                       then (message\<lparr>sm_data := ser_DeleteResponse pb response\<rparr>, db, True)
                       else (message, db, False)))
      | MT_SETDATA \<Rightarrow>
          (let request = parse_SetDataRequest pb (sm_data message)
           in if GetRoot (sdq_path request) \<noteq> kRoot s \<or> unat (env_max_data env) < length (sdq_data request)
              then (SetFailedState pb message, db, True)
              else (let (db, response) = CheckSetData g request SetDataResponse_default db
                    in if sdr_code response \<noteq> RC_OK
                       then (message\<lparr>sm_data := ser_SetDataResponse pb response\<rparr>, db, True)
                       else (message, db, False)))
      | MT_CLOSE \<Rightarrow> (message, db, False)
      | _ \<Rightarrow> (message, db, True))"

definition DoIt :: "pb_codec \<Rightarrow> node_env \<Rightarrow> SaberMessage \<Rightarrow> SaberSession \<Rightarrow> SaberDB \<Rightarrow> session_result" where
  "DoIt pb env message s db =
     (let (message, db, finished) = DoIt_switch pb env message s db;
          (s, out) = (if finished then Done env message s else Propose pb env message s)
      in (s, db, out))"

definition master_message :: "node_env \<Rightarrow> u32 \<Rightarrow> Master" where
  "master_message env g =
     (case env_master env g of
        Some (host, context) \<Rightarrow> \<lparr>ms_host = host, ms_port = atoi context\<rparr>
      | None \<Rightarrow> Master_default)"

definition HandleMessage ::
    "pb_codec \<Rightarrow> node_env \<Rightarrow> SaberMessage \<Rightarrow> SaberSession \<Rightarrow> SaberDB \<Rightarrow> session_result" where
  "HandleMessage pb env message s db =
     (if sm_type message \<noteq> MT_MASTER \<and> env_is_master env (sess_group s) then DoIt pb env message s db
      else
        (let message = message\<lparr>sm_type := MT_MASTER,
                               sm_data := ser_Master pb (master_message env (sess_group s))\<rparr>;
             (s, out) = Done env message s
         in (s, db, out)))"

definition stamp_close :: "pb_codec \<Rightarrow> SaberSession \<Rightarrow> SaberMessage \<Rightarrow> SaberMessage" where
  "stamp_close pb s message =
     (if sm_type message = MT_CLOSE
      then message\<lparr>sm_data := ser_CloseRequest pb
             \<lparr>clq_session_id = [sess_id s], clq_version = [sess_version s]\<rparr>\<rparr>
      else message)"

definition OnMessage ::
    "pb_codec \<Rightarrow> node_env \<Rightarrow> SaberMessage \<Rightarrow> SaberSession \<Rightarrow> SaberDB \<Rightarrow> bool \<times> session_result" where
  "OnMessage pb env message s db =
     (if closed s then (False, s, db, [])
      else if sm_type message = MT_PING \<and> pending_messages s \<noteq> [] then (True, s, db, [])
      else
        (let message = stamp_close pb s message
         in if last_finished s
            then (True, HandleMessage pb env message (s\<lparr>last_finished := False\<rparr>) db)
            else
              (let pending = (if sm_type message = MT_MASTER then [] else pending_messages s)
               in (True, s\<lparr>pending_messages := pending @ [message]\<rparr>, db, []))))"

definition Process :: "pb_codec \<Rightarrow> node_env \<Rightarrow> WatchedEvent \<Rightarrow> SaberSession \<Rightarrow> session_effect list" where
  "Process pb env event s =
     [SendMessage (lock_conn env s)
        (SaberMessage_default\<lparr>sm_type := MT_NOTIFICATION, sm_data := ser_WatchedEvent pb event\<rparr>)]"

end
