(* ===== verification/SessionId.thy ===== *)
theory SessionId
  imports Prelude
begin

text \<open>
  \<^verbatim>\<open>SequenceNumber\<close> (\<^verbatim>\<open>saber/util/sequence_number.h\<close>) and \<^verbatim>\<open>SaberServer::GetNextSessionId\<close>: a session id
  has 42 bits of time, 12 bits of server id and 10 bits of a cyclic counter.
\<close>

unbundle bit_operations_syntax

record SequenceNumber =
  seq_max :: int
  seq_num :: int

definition SequenceNumber_new :: "int \<Rightarrow> SequenceNumber" where
  "SequenceNumber_new m = \<lparr>seq_max = m, seq_num = 0\<rparr>"

definition GetNext :: "SequenceNumber \<Rightarrow> SequenceNumber \<times> int" where
  "GetNext s =
     (let num = (if seq_num s \<ge> seq_max s then 0 else seq_num s)
      in (s\<lparr>seq_num := num + 1\<rparr>, num))"

definition session_id_of :: "u64 \<Rightarrow> u64 \<Rightarrow> int \<Rightarrow> u64" where
  "session_id_of now server_id n = push_bit 22 now OR push_bit 10 server_id OR word_of_int n"

definition GetNextSessionId :: "u64 \<Rightarrow> u64 \<Rightarrow> SequenceNumber \<Rightarrow> SequenceNumber \<times> u64" where
  "GetNextSessionId now server_id s = (let (s', n) = GetNext s in (s', session_id_of now server_id n))"

section \<open>The counter is cyclic\<close>

fun take_numbers :: "nat \<Rightarrow> SequenceNumber \<Rightarrow> SequenceNumber \<times> int list" where
  "take_numbers 0 s = (s, [])"
| "take_numbers (Suc k) s = (let (s', ns) = take_numbers k s; (s'', n) = GetNext s' in (s'', ns @ [n]))"

lemma take_numbers_state:
  assumes "0 < m"
  shows "take_numbers k (SequenceNumber_new m) =
    (\<lparr>seq_max = m, seq_num = (if k = 0 then 0 else int (k - 1) mod m + 1)\<rparr>, map (\<lambda>i. int i mod m) [0..<k])"
proof (induction k)
  case 0
  then show ?case by (simp add: SequenceNumber_new_def)
next
  case (Suc k)
  have "GetNext \<lparr>seq_max = m, seq_num = (if k = 0 then 0 else int (k - 1) mod m + 1)\<rparr> =
      (\<lparr>seq_max = m, seq_num = int k mod m + 1\<rparr>, int k mod m)"
  proof (cases k)
    case 0
    then show ?thesis using assms by (simp add: GetNext_def)
  next
    case (Suc j)
    have "int k mod m = (int j mod m + 1) mod m" by (simp add: Suc mod_simps add_ac)
    moreover have "int j mod m < m" using assms by simp
    moreover have "0 \<le> int j mod m" using assms by simp
    ultimately have "int k mod m = (if int j mod m + 1 \<ge> m then 0 else int j mod m + 1)"
      by (cases "int j mod m + 1 = m") auto
    then show ?thesis by (simp add: GetNext_def Suc Let_def)
  qed
  then show ?case by (simp add: Suc.IH)
qed

section \<open>The fields of a session id\<close>

lemma take_bit_small: "uint x < 2 ^ k \<Longrightarrow> take_bit k x = x" for x :: "'a::len word"
  by (simp add: word_uint_eq_iff unsigned_take_bit_eq take_bit_int_eq_self)

lemma session_id_fields:
  assumes "server_id < 2 ^ 12" and "0 \<le> n" and "n < 2 ^ 10"
  shows "take_bit 10 (session_id_of now server_id n) = word_of_int n"
    and "take_bit 12 (drop_bit 10 (session_id_of now server_id n)) = server_id"
    and "drop_bit 22 (session_id_of now server_id n) = take_bit 42 now"
proof -
  have s: "take_bit 12 server_id = server_id" 
    using assms(1) by (intro take_bit_small) (simp add: word_less_alt)
  have q: "take_bit 10 (word_of_int n :: u64) = word_of_int n"
    using assms(2,3) by (intro take_bit_small) (simp add: uint_word_of_int mod_pos_pos_trivial)
  have bs: "\<not> bit server_id k" if "12 \<le> k" for k using s that by (metis bit_take_bit_iff not_le)
  have bq: "\<not> bit (word_of_int n :: u64) k" if "10 \<le> k" for k using q that by (metis bit_take_bit_iff not_le)
  show "take_bit 10 (session_id_of now server_id n) = word_of_int n"
    by (rule bit_word_eqI) (use bq in \<open>auto simp: session_id_of_def bit_simps\<close>)
  show "take_bit 12 (drop_bit 10 (session_id_of now server_id n)) = server_id"
    by (rule bit_word_eqI) (use bs bq in \<open>auto simp: session_id_of_def bit_simps\<close>)
  show "drop_bit 22 (session_id_of now server_id n) = take_bit 42 now"
    by (rule bit_word_eqI) (use bs bq in \<open>auto simp: session_id_of_def bit_simps\<close>)
qed

lemma session_id_inj:
  assumes "a < 2 ^ 12" "b < 2 ^ 12" "0 \<le> n" "n < 2 ^ 10" "0 \<le> k" "k < 2 ^ 10"
  shows "session_id_of t a n = session_id_of u b k \<longleftrightarrow>
    take_bit 42 t = take_bit 42 u \<and> a = b \<and> n = k"
proof
  assume E: "session_id_of t a n = session_id_of u b k"
  note A = session_id_fields [OF assms(1,3,4), of t, unfolded E] and B = session_id_fields [OF assms(2,5,6), of u]
  have "(word_of_int n :: u64) = word_of_int k" using A(1) B(1) by simp
  then have "uint (word_of_int n :: u64) = uint (word_of_int k :: u64)" by simp
  then have "n = k" using assms(3-6) by (simp add: uint_word_of_int mod_pos_pos_trivial)
  then show "take_bit 42 t = take_bit 42 u \<and> a = b \<and> n = k" using A(2,3) B(2,3) by simp
next
  assume "take_bit 42 t = take_bit 42 u \<and> a = b \<and> n = k"
  moreover have "push_bit 22 t = (push_bit 22 (take_bit 42 t) :: u64)" for t
    by (rule bit_word_eqI) (auto simp: bit_simps)
  ultimately show "session_id_of t a n = session_id_of u b k" unfolding session_id_of_def by metis
qed

fun issue_ids :: "u64 \<Rightarrow> u64 list \<Rightarrow> SequenceNumber \<Rightarrow> u64 list" where
  "issue_ids server_id [] s = []"
| "issue_ids server_id (now # later) s =
     (let (s', i) = GetNextSessionId now server_id s in i # issue_ids server_id later s')"

lemma GetNext_take: "GetNext (fst (take_numbers k s)) = (fst (take_numbers (Suc k) s), last (snd (take_numbers (Suc k) s)))"
  by (simp add: case_prod_beta Let_def)

lemma issue_ids_nth:
  "0 < m \<Longrightarrow> i < length ts \<Longrightarrow>
     issue_ids a ts (fst (take_numbers k (SequenceNumber_new m))) ! i =
       session_id_of (ts ! i) a (int (k + i) mod m)"
proof (induction ts arbitrary: k i)
  case (Cons t ts)
  have "last (snd (take_numbers (Suc k) (SequenceNumber_new m))) = int k mod m"
    unfolding take_numbers_state [OF Cons.prems(1)] by simp
  then have N: "GetNextSessionId t a (fst (take_numbers k (SequenceNumber_new m))) =
      (fst (take_numbers (Suc k) (SequenceNumber_new m)), session_id_of t a (int k mod m))"
    unfolding GetNextSessionId_def GetNext_take by simp
  show ?case using Cons.IH [of "i - 1" "Suc k"] Cons.prems
    by (cases i) (simp_all add: N del: take_numbers.simps)
qed simp

text \<open>C31: two session ids that any two servers with ids below 4096 issue are equal only if it is the same
  server, at the same time in milliseconds (of 42 bits), and the numbers of the two calls differ by
  a multiple of 1024. So ids of different servers never collide, and a server repeats an id only if
  it issues more than 1024 in a millisecond or its clock goes back.\<close>

theorem session_ids_collide_iff:
  assumes "a < 2 ^ 12" and "b < 2 ^ 12" and "i < length ts" and "j < length us"
  shows "issue_ids a ts (SequenceNumber_new 1024) ! i = issue_ids b us (SequenceNumber_new 1024) ! j \<longleftrightarrow>
    a = b \<and> take_bit 42 (ts ! i) = take_bit 42 (us ! j) \<and> i mod 1024 = j mod 1024"
proof -
  have N: "issue_ids x xs (SequenceNumber_new 1024) ! k = session_id_of (xs ! k) x (int k mod 1024)"
    if "k < length xs" for x xs k
    using issue_ids_nth [of 1024 k xs x 0] that by simp
  have "int i mod 1024 = int j mod 1024 \<longleftrightarrow> i mod 1024 = j mod 1024"
    by (metis nat_int zmod_int of_nat_numeral)
  then show ?thesis unfolding N [OF assms(3)] N [OF assms(4)]
    using session_id_inj [OF assms(1,2), of "int i mod 1024" "int j mod 1024" "ts ! i" "us ! j"] by auto
qed

theorem session_ids_collide_iff_witness:
  "issue_ids 1 [1000, 1000] (SequenceNumber_new 1024) ! 0 \<noteq> issue_ids 1 [1000, 1000] (SequenceNumber_new 1024) ! 1 \<and>
   issue_ids 1 [1000] (SequenceNumber_new 1024) ! 0 \<noteq> issue_ids 2 [1000] (SequenceNumber_new 1024) ! 0"
  using session_ids_collide_iff [of 1 1 0 "[1000, 1000]" 1 "[1000, 1000]"]
    session_ids_collide_iff [of 1 2 0 "[1000]" 0 "[1000]"] by simp

end
