(* ===== verification/IdleBuckets.thy ===== *)
theory IdleBuckets
  imports Prelude Refinement
begin

text \<open>
  The circular queue of buckets of \<^verbatim>\<open>SaberServer\<close> (\<^verbatim>\<open>UpdateBuckets\<close> and \<^verbatim>\<open>OnTimer\<close> in
  \<^verbatim>\<open>saber/server/saber_server.cc\<close>) that closes idle connections. A bucket holds shared pointers to
  entries; an entry lives as long as some bucket holds it. \<^verbatim>\<open>vector::at\<close> throws when the index is out
  of range: the result \<open>None\<close>. The specification gives every entry an age in ticks; the refinement
  shows that an entry is destroyed by exactly the tick at which its age reaches the number of buckets.
\<close>

type_synonym entry = nat
type_synonym bucket_queue = "entry list list \<times> int"

section \<open>The operations\<close>

definition at_index :: "'a list \<Rightarrow> int \<Rightarrow> nat option" where
  "at_index xs i = (if 0 \<le> i \<and> nat i < length xs then Some (nat i) else None)"

definition UpdateBuckets :: "entry \<Rightarrow> int \<Rightarrow> bucket_queue \<Rightarrow> (bucket_queue \<times> int) option" where
  "UpdateBuckets e index = (\<lambda>(bs, cur).
     if index \<noteq> cur
     then (case at_index bs cur of
             None \<Rightarrow> None
           | Some k \<Rightarrow> Some ((bs[k := bs ! k @ [e]], cur), cur))
     else Some ((bs, cur), index))"

definition OnTimer :: "int \<Rightarrow> bucket_queue \<Rightarrow> (bucket_queue \<times> entry list) option" where
  "OnTimer idle_ticks = (\<lambda>(bs, cur).
     let cur' = (if cur + 1 = idle_ticks then 0 else cur + 1)
     in case at_index bs cur' of
          None \<Rightarrow> None
        | Some k \<Rightarrow> Some ((bs[k := []], cur'), bs ! k))"

definition bucket_queue_new :: "int \<Rightarrow> bucket_queue" where
  "bucket_queue_new idle_ticks = (replicate (nat idle_ticks) [], 0)"

section \<open>Entries and their life\<close>

text \<open>
  The state with the \<^verbatim>\<open>index\<close> of every living entry. A touch is \<^verbatim>\<open>UpdateBuckets\<close> for an entry (a new one
  starts with index -1); a tick is \<^verbatim>\<open>OnTimer\<close>, which destroys the entries of the cleared bucket that no
  other bucket holds, and returns them.
\<close>

datatype idle_op = Touch entry | Tick

type_synonym idle_state = "bucket_queue \<times> (entry, int) umap"

text \<open>Here the buckets are the only holders of an entry: an entry in none of them is gone. \<open>SaberServer\<close> adds the
  callbacks of connect proposals, which can keep an entry for longer.\<close>

definition held :: "bucket_queue \<Rightarrow> entry set" where
  "held q = \<Union> (set ` set (fst q))"

definition idle_step :: "int \<Rightarrow> idle_op \<Rightarrow> idle_state \<Rightarrow> idle_state \<times> entry set" where
  "idle_step n op = (\<lambda>(q, idx).
     case op of
       Touch e \<Rightarrow>
         (case UpdateBuckets e (case um_find idx e of None \<Rightarrow> - 1 | Some i \<Rightarrow> i) q of
            None \<Rightarrow> ((q, idx), {})
          | Some (q', i) \<Rightarrow> ((q', um_set e i idx), {}))
     | Tick \<Rightarrow>
         (case OnTimer n q of
            None \<Rightarrow> ((q, idx), {})
          | Some (q', es) \<Rightarrow>
              (let dead = filter (\<lambda>e. e \<notin> held q') es
               in ((q', fold um_erase dead idx), set dead))))"

section \<open>The specification: ages\<close>

fun spec_idle :: "int \<Rightarrow> idle_op \<Rightarrow> (entry \<rightharpoonup> int) \<Rightarrow> (entry \<rightharpoonup> int) \<times> entry set" where
  "spec_idle n (Touch e) A = (A(e \<mapsto> 0), {})"
| "spec_idle n Tick A =
     ((\<lambda>e. case A e of None \<Rightarrow> None | Some a \<Rightarrow> if a + 1 = n then None else Some (a + 1)),
      {e. A e = Some (n - 1)})"

definition age_of :: "int \<Rightarrow> int \<Rightarrow> int \<Rightarrow> int" where
  "age_of n cur i = (cur - i) mod n"

definition ages :: "int \<Rightarrow> idle_state \<Rightarrow> entry \<rightharpoonup> int" where
  "ages n s e = map_option (age_of n (snd (fst s))) (um_find (snd s) e)"

definition idle_ok :: "int \<Rightarrow> idle_state \<Rightarrow> bool" where
  "idle_ok n s \<longleftrightarrow> (case s of ((bs, cur), idx) \<Rightarrow>
     0 \<le> cur \<and> cur < n \<and> int (length bs) = n \<and>
     (\<forall>e i. um_find idx e = Some i \<longrightarrow> 0 \<le> i \<and> i < n \<and> e \<in> set (bs ! nat i)) \<and>
     (\<forall>j e. 0 \<le> j \<and> j < n \<and> e \<in> set (bs ! nat j) \<longrightarrow>
        (\<exists>i. um_find idx e = Some i \<and> age_of n cur i \<le> age_of n cur j)))"

lemma idle_ok_new: "0 < n \<Longrightarrow> idle_ok n (bucket_queue_new n, [])"
  by (simp add: idle_ok_def bucket_queue_new_def)

section \<open>Ages move with the queue\<close>

lemma age_of_self [simp]: "age_of n cur cur = 0"
  by (simp add: age_of_def)

lemma age_of_range: "0 < n \<Longrightarrow> 0 \<le> age_of n cur i \<and> age_of n cur i < n"
  by (simp add: age_of_def)

lemma age_of_eq:
  "0 \<le> i \<Longrightarrow> i < n \<Longrightarrow> 0 \<le> cur \<Longrightarrow> cur < n \<Longrightarrow>
     age_of n cur i = (if i \<le> cur then cur - i else cur - i + n)"
proof -
  assume r: "0 \<le> i" "i < n" "0 \<le> cur" "cur < n"
  have "(cur - i + n) mod n = cur - i + n" if "cur < i" using that r by (intro mod_pos_pos_trivial) auto
  then show ?thesis using r by (auto simp: age_of_def)
qed

definition next_cur :: "int \<Rightarrow> int \<Rightarrow> int" where
  "next_cur n cur = (if cur + 1 = n then 0 else cur + 1)"

lemma next_cur_range: "0 \<le> cur \<Longrightarrow> cur < n \<Longrightarrow> 0 \<le> next_cur n cur \<and> next_cur n cur < n"
  by (auto simp: next_cur_def)

lemma age_of_next:
  assumes "0 \<le> i" "i < n" "0 \<le> cur" "cur < n"
  shows "age_of n (next_cur n cur) i = (if i = next_cur n cur then 0 else age_of n cur i + 1)"
    and "i = next_cur n cur \<longleftrightarrow> age_of n cur i = n - 1"
  using assms next_cur_range [of cur n] by (auto simp: age_of_eq next_cur_def split: if_splits)

lemma um_find_erase_list: "um_find (fold um_erase ks m) x = (if x \<in> set ks then None else um_find m x)"
  by (induction ks arbitrary: m) auto

section \<open>The refinement\<close>

lemma UpdateBuckets_ok:
  assumes "idle_ok n ((bs, cur), idx)"
  obtains bs' where "UpdateBuckets e (case um_find idx e of None \<Rightarrow> - 1 | Some i \<Rightarrow> i) (bs, cur) = Some ((bs', cur), cur)"
    "length bs' = length bs" "\<forall>j. set (bs' ! j) = (if j = nat cur then insert e (set (bs ! j)) else set (bs ! j))"
proof -
  have r: "0 \<le> cur" "nat cur < length bs" and idx: "\<And>i. um_find idx e = Some i \<Longrightarrow> e \<in> set (bs ! nat i)"
    using assms by (auto simp: idle_ok_def)
  show ?thesis
  proof (cases "um_find idx e = Some cur")
    case True
    show ?thesis by (rule that [of bs]) (use True idx in \<open>auto simp: UpdateBuckets_def\<close>)
  next
    case False
    then have "(case um_find idx e of None \<Rightarrow> - 1 | Some i \<Rightarrow> i) \<noteq> cur"
      using r by (auto split: option.splits)
    then show ?thesis
      by (intro that [of "bs[nat cur := bs ! nat cur @ [e]]"])
        (use r in \<open>auto simp: UpdateBuckets_def at_index_def nth_list_update\<close>)
  qed
qed

lemma touch_refines:
  assumes ok: "idle_ok n ((bs, cur), idx)"
  shows "idle_ok n (fst (idle_step n (Touch e) ((bs, cur), idx)))"
    and "ages n (fst (idle_step n (Touch e) ((bs, cur), idx))) = (ages n ((bs, cur), idx))(e \<mapsto> 0)"
    and "snd (idle_step n (Touch e) ((bs, cur), idx)) = {}"
proof -
  obtain bs' where U: "UpdateBuckets e (case um_find idx e of None \<Rightarrow> - 1 | Some i \<Rightarrow> i) (bs, cur) = Some ((bs', cur), cur)"
    and L: "length bs' = length bs"
    and S: "\<forall>j. set (bs' ! j) = (if j = nat cur then insert e (set (bs ! j)) else set (bs ! j))"
    by (rule UpdateBuckets_ok [OF ok, of e])
  have step: "idle_step n (Touch e) ((bs, cur), idx) = (((bs', cur), um_set e cur idx), {})"
    by (simp add: idle_step_def U)
  have pos: "0 < n" using ok by (auto simp: idle_ok_def)
  show "idle_ok n (fst (idle_step n (Touch e) ((bs, cur), idx)))"
  proof -
    have A: "0 \<le> i \<and> i < n \<and> x \<in> set (bs' ! nat i)" if "um_find (um_set e cur idx) x = Some i" for x i
    proof (cases "x = e")
      case False
      then have "0 \<le> i \<and> i < n \<and> x \<in> set (bs ! nat i)" using that ok by (simp add: idle_ok_def)
      then show ?thesis using S by (cases "nat i = nat cur") simp_all
    qed (use that ok S in \<open>auto simp: idle_ok_def\<close>)
    have B: "\<exists>i. um_find (um_set e cur idx) x = Some i \<and> age_of n cur i \<le> age_of n cur j"
      if j: "0 \<le> j" "j < n" "x \<in> set (bs' ! nat j)" for j x
    proof (cases "x = e")
      case False
      then have "x \<in> set (bs ! nat j)" using j(3) S by (auto split: if_splits)
      then show ?thesis using ok j(1,2) False by (auto simp: idle_ok_def)
    qed (use age_of_range [OF pos, of cur] in simp)
    show ?thesis unfolding step using A B ok L by (auto simp: idle_ok_def)
  qed
  show "ages n (fst (idle_step n (Touch e) ((bs, cur), idx))) = (ages n ((bs, cur), idx))(e \<mapsto> 0)"
    by (simp add: step ages_def fun_eq_iff)
  show "snd (idle_step n (Touch e) ((bs, cur), idx)) = {}" by (simp add: step)
qed

lemma tick_step:
  assumes ok: "idle_ok n ((bs, cur), idx)"
  defines "k \<equiv> nat (next_cur n cur)"
  defines "dead \<equiv> filter (\<lambda>e. e \<notin> held (bs[k := []], next_cur n cur)) (bs ! k)"
  shows "idle_step n Tick ((bs, cur), idx) =
    (((bs[k := []], next_cur n cur), fold um_erase dead idx), set dead)"
proof -
  have "at_index bs (next_cur n cur) = Some k"
    using ok next_cur_range [of cur n] by (auto simp: idle_ok_def at_index_def k_def)
  then show ?thesis by (simp add: idle_step_def OnTimer_def Let_def next_cur_def [symmetric] dead_def)
qed

lemma held_iff: "e \<in> held (bs, c) \<longleftrightarrow> (\<exists>l < length bs. e \<in> set (bs ! l))"
  unfolding held_def by (auto simp: set_conv_nth [of bs])

lemma tick_dead:
  assumes ok: "idle_ok n ((bs, cur), idx)"
  defines "k \<equiv> nat (next_cur n cur)"
  shows "e \<in> set (bs ! k) \<and> e \<notin> held (bs[k := []], c) \<longleftrightarrow> um_find idx e = Some (next_cur n cur)"
proof -
  let ?c = "next_cur n cur"
  have n: "0 \<le> cur" "cur < n" "int (length bs) = n"
    and I: "\<And>e i. um_find idx e = Some i \<Longrightarrow> 0 \<le> i \<and> i < n \<and> e \<in> set (bs ! nat i)"
    and J: "\<And>j e. 0 \<le> j \<and> j < n \<and> e \<in> set (bs ! nat j) \<Longrightarrow>
        \<exists>i. um_find idx e = Some i \<and> age_of n cur i \<le> age_of n cur j"
    using ok by (auto simp: idle_ok_def)
  note c = next_cur_range [OF n(1,2)]
  have held: "e \<in> held (bs[k := []], x) \<longleftrightarrow> (\<exists>j. 0 \<le> j \<and> j < n \<and> j \<noteq> ?c \<and> e \<in> set (bs ! nat j))" for x
  proof
    assume "e \<in> held (bs[k := []], x)"
    then obtain l where l: "l < length bs" "e \<in> set (bs[k := []] ! l)" by (auto simp: held_iff)
    then have "l \<noteq> k" by (cases "l = k") auto
    then show "\<exists>j. 0 \<le> j \<and> j < n \<and> j \<noteq> ?c \<and> e \<in> set (bs ! nat j)"
      using n(3) l c by (intro exI [of _ "int l"]) (auto simp: k_def)
  next
    assume "\<exists>j. 0 \<le> j \<and> j < n \<and> j \<noteq> ?c \<and> e \<in> set (bs ! nat j)"
    then obtain j where j: "0 \<le> j" "j < n" "j \<noteq> ?c" "e \<in> set (bs ! nat j)" by blast
    then have "nat j < length bs" "nat j \<noteq> k" using n(3) c by (auto simp: k_def)
    then have "bs ! nat j \<in> set (bs[k := []])" by (metis length_list_update nth_list_update_neq nth_mem)
    then show "e \<in> held (bs[k := []], x)" using j(4) by (auto simp: held_def)
  qed
  show ?thesis
  proof
    assume L: "e \<in> set (bs ! k) \<and> e \<notin> held (bs[k := []], c)"
    then obtain i where i: "um_find idx e = Some i" using J [of ?c e] c by (auto simp: k_def)
    then have "i = ?c" using I [OF i] L held by blast
    then show "um_find idx e = Some ?c" using i by simp
  next
    assume R: "um_find idx e = Some ?c"
    have "age_of n cur ?c = n - 1" using age_of_next(2) [of ?c n cur] n c by blast
    moreover have "age_of n cur j < n - 1" if "0 \<le> j" "j < n" "j \<noteq> ?c" for j
      using age_of_next(2) [of j n cur] age_of_range [of n cur j] that n by (smt (verit))
    ultimately have "\<not> (\<exists>j. 0 \<le> j \<and> j < n \<and> j \<noteq> ?c \<and> e \<in> set (bs ! nat j))"
      using J [of _ e] R by fastforce
    then show "e \<in> set (bs ! k) \<and> e \<notin> held (bs[k := []], c)" using I [OF R] held by (auto simp: k_def)
  qed
qed

lemma tick_refines:
  assumes ok: "idle_ok n ((bs, cur), idx)"
  shows "idle_ok n (fst (idle_step n Tick ((bs, cur), idx)))"
    and "spec_idle n Tick (ages n ((bs, cur), idx)) =
      (ages n (fst (idle_step n Tick ((bs, cur), idx))), snd (idle_step n Tick ((bs, cur), idx)))"
proof -
  let ?c = "next_cur n cur"
  let ?k = "nat ?c"
  let ?dead = "filter (\<lambda>e. e \<notin> held (bs[?k := []], ?c)) (bs ! ?k)"
  have n: "0 \<le> cur" "cur < n" "int (length bs) = n"
    and I: "\<And>e i. um_find idx e = Some i \<Longrightarrow> 0 \<le> i \<and> i < n \<and> e \<in> set (bs ! nat i)"
    and J: "\<And>j e. 0 \<le> j \<and> j < n \<and> e \<in> set (bs ! nat j) \<Longrightarrow>
        \<exists>i. um_find idx e = Some i \<and> age_of n cur i \<le> age_of n cur j"
    using ok by (auto simp: idle_ok_def)
  note c = next_cur_range [OF n(1,2)] and step = tick_step [OF ok]
  have dead: "e \<in> set ?dead \<longleftrightarrow> um_find idx e = Some ?c" for e using tick_dead [OF ok, of e ?c] by simp
  have find: "um_find (fold um_erase ?dead idx) e = Some i \<longleftrightarrow> um_find idx e = Some i \<and> i \<noteq> ?c" for e i
    using dead [of e] by (auto simp: um_find_erase_list)
  have nat_eq: "nat j = ?k \<longleftrightarrow> j = ?c" if "0 \<le> j" for j using that c by auto
  have cell: "set (bs[?k := []] ! nat j) = (if j = ?c then {} else set (bs ! nat j))" if "0 \<le> j" "j < n" for j
    using that n(3) nat_eq [OF that(1)] by (cases "j = ?c") (simp_all add: nth_list_update_neq)
  show "idle_ok n (fst (idle_step n Tick ((bs, cur), idx)))"
  proof -
    have A: "0 \<le> i \<and> i < n \<and> e \<in> set (bs[?k := []] ! nat i)"
      if "um_find (fold um_erase ?dead idx) e = Some i" for e i
      using that find I cell by (metis (full_types))
    have B: "\<exists>i. um_find (fold um_erase ?dead idx) e = Some i \<and> age_of n ?c i \<le> age_of n ?c j"
      if j: "0 \<le> j" "j < n" and e: "e \<in> set (bs[?k := []] ! nat j)" for j e
    proof -
      have j': "j \<noteq> ?c" "e \<in> set (bs ! nat j)" using cell [OF j] e by (auto split: if_splits)
      then obtain i where i: "um_find idx e = Some i" "age_of n cur i \<le> age_of n cur j" using J [of j e] j by blast
      have ne: "i \<noteq> ?c" using dead [of e] i(1) held_def j' j tick_dead [OF ok, of e ?c] n nat_eq
          age_of_next(2) [of i n cur] age_of_next(2) [of j n cur] I [OF i(1)] i(2) age_of_range [of n cur j]
        by (smt (verit))
      then show ?thesis using i find I [OF i(1)] j j' age_of_next(1) [OF _ _ n(1,2)] by auto
    qed
    show ?thesis unfolding step using A B c n(3) by (auto simp: idle_ok_def)
  qed
  show "spec_idle n Tick (ages n ((bs, cur), idx)) =
      (ages n (fst (idle_step n Tick ((bs, cur), idx))), snd (idle_step n Tick ((bs, cur), idx)))"
  proof -
    have "(case ages n ((bs, cur), idx) e of None \<Rightarrow> None | Some a \<Rightarrow> if a + 1 = n then None else Some (a + 1)) =
        ages n ((bs[?k := []], ?c), fold um_erase ?dead idx) e" for e
      using age_of_next [OF _ _ n(1,2)] I [of e] dead [of e]
      by (cases "um_find idx e") (auto simp: ages_def um_find_erase_list)
    moreover have "{e. ages n ((bs, cur), idx) e = Some (n - 1)} = set ?dead"
      using dead age_of_next(2) [OF _ _ n(1,2)] I by (fastforce simp: ages_def)
    ultimately show ?thesis unfolding step by simp
  qed
qed

lemma idle_step_refines:
  assumes "idle_ok n s"
  shows "idle_ok n (fst (idle_step n x s))"
    and "spec_idle n x (ages n s) = (ages n (fst (idle_step n x s)), snd (idle_step n x s))"
proof -
  obtain bs cur idx where s: "s = ((bs, cur), idx)" by (cases s) auto
  show "idle_ok n (fst (idle_step n x s))"
    using touch_refines(1) tick_refines(1) assms unfolding s by (cases x) auto
  show "spec_idle n x (ages n s) = (ages n (fst (idle_step n x s)), snd (idle_step n x s))"
    using touch_refines(2,3) tick_refines(2) assms unfolding s by (cases x) (auto simp del: spec_idle.simps(2))
qed

interpretation idle: functional_refinement "idle_ok n" "\<lambda>_. True" "idle_step n" "ages n" "spec_idle n" for n
  by unfold_locales (simp_all only: idle_step_refines)

section \<open>When an idle connection is closed\<close>

definition ticks :: "idle_op list \<Rightarrow> int" where
  "ticks ops = int (length (filter (\<lambda>x. x = Tick) ops))"

lemma ticks_simps [simp]:
  "ticks [] = 0" "ticks (Touch f # ops) = ticks ops" "ticks (Tick # ops) = 1 + ticks ops"
  by (simp_all add: ticks_def)

lemma ticks_nonneg: "0 \<le> ticks ops"
  by (simp add: ticks_def)

lemma spec_idle_gone:
  "Touch e \<notin> set ops \<Longrightarrow> A e = None \<Longrightarrow> fst (run_ops (spec_idle n) ops A) e = None"
proof (induction ops arbitrary: A)
  case (Cons x ops)
  have "fst (spec_idle n x A) e = None" using Cons.prems by (cases x) auto
  then show ?case using Cons.IH [of "fst (spec_idle n x A)"] Cons.prems by (simp add: case_prod_beta Let_def)
qed simp

lemma spec_idle_age:
  "Touch e \<notin> set ops \<Longrightarrow> A e = Some a \<Longrightarrow> a < n \<Longrightarrow>
     fst (run_ops (spec_idle n) ops A) e = (if a + ticks ops < n then Some (a + ticks ops) else None)"
proof (induction ops arbitrary: A a)
  case Nil
  then show ?case by simp
next
  case (Cons x ops)
  have split: "fst (run_ops (spec_idle n) (x # ops) A) e = fst (run_ops (spec_idle n) ops (fst (spec_idle n x A))) e"
    by (simp add: case_prod_beta Let_def)
  show ?case
  proof (cases x)
    case (Touch f)
    then have A: "fst (spec_idle n x A) e = Some a" and ops: "Touch e \<notin> set ops" using Cons.prems by auto
    show ?thesis 
      unfolding split Cons.IH [where A = "fst (spec_idle n x A)", OF ops A Cons.prems(3)] by (simp add: Touch)
  next
    case Tick
    show ?thesis
    proof (cases "a + 1 = n")
      case True
      then have "fst (spec_idle n x A) e = None" using Cons.prems Tick by simp
      then show ?thesis using spec_idle_gone [of e ops] Cons.prems True Tick ticks_nonneg [of ops]
        unfolding split by simp
    next
      case False
      then have "fst (spec_idle n x A) e = Some (a + 1)" using Cons.prems Tick by simp
      then show ?thesis using Cons.IH [of "fst (spec_idle n x A)" "a + 1"] Cons.prems False Tick
        unfolding split by (simp add: add_ac)
    qed
  qed
qed

text \<open>C27: the buckets implement ages. For every sequence of messages and timer ticks on a new queue
  with at least one bucket, the entries destroyed by each operation are exactly those whose age, the
  number of ticks since their last message, reaches the number of buckets; the entries that live are
  those that are younger.\<close>

theorem buckets_implement_ages:
  assumes "0 < n"
  shows "run_ops (spec_idle n) ops Map.empty =
    (ages n (fst (run_ops (idle_step n) ops (bucket_queue_new n, []))),
     snd (run_ops (idle_step n) ops (bucket_queue_new n, [])))"
proof -
  have "ages n (bucket_queue_new n, []) = Map.empty" by (simp add: ages_def fun_eq_iff)
  then show ?thesis using idle.run_sim [OF idle_ok_new [OF assms], of ops] by (simp add: list_all_iff)
qed

theorem buckets_implement_ages_witness:
  "snd (run_ops (spec_idle 2) [Touch 1, Tick, Touch 2, Tick, Touch 2, Tick, Tick] Map.empty) =
     [{}, {}, {}, {1}, {}, {}, {2}]"
proof -
  have "snd (run_ops (idle_step 2) [Touch 1, Tick, Touch 2, Tick, Touch 2, Tick, Tick] (bucket_queue_new 2, [])) =
     [{}, {}, {}, {1}, {}, {}, {2}]" by code_simp
  then show ?thesis
    using buckets_implement_ages [of 2 "[Touch 1, Tick, Touch 2, Tick, Touch 2, Tick, Tick]"]
    by (simp del: run_ops.simps)
qed

lemma idle_closed_after:
  assumes "0 < n" and "Touch e \<notin> set ops"
  shows "um_find (snd (fst (run_ops (idle_step n) (before @ [Touch e] @ ops) (bucket_queue_new n, [])))) e = None \<longleftrightarrow>
    n \<le> ticks ops"
proof -
  let ?s = "(bucket_queue_new n, [])"
  have age0: "ages n ?s = Map.empty" by (simp add: ages_def fun_eq_iff)
  have ok: "idle_ok n ?s" by (rule idle_ok_new [OF assms(1)])
  let ?A = "fst (run_ops (spec_idle n) before Map.empty)"
  have "fst (run_ops (spec_idle n) (before @ [Touch e] @ ops) Map.empty) e =
      fst (run_ops (spec_idle n) ops (?A(e \<mapsto> 0))) e"
    by (simp add: run_ops_append case_prod_beta Let_def)
  also have "\<dots> = (if ticks ops < n then Some (ticks ops) else None)"
    using spec_idle_age [OF assms(2), of "?A(e \<mapsto> 0)" 0 n] assms(1) by simp
  finally have "ages n (fst (run_ops (idle_step n) (before @ [Touch e] @ ops) ?s)) e =
      (if ticks ops < n then Some (ticks ops) else None)"
    using idle.run_sim [OF ok, of "before @ [Touch e] @ ops"] age0 by (simp add: list_all_iff)
  then show ?thesis by (auto simp: ages_def split: if_splits)
qed

text \<open>C28: a connection whose last message came at some moment is closed by the tick that makes the number
  of ticks since then equal to the number of buckets, and not before, whatever other connections do.\<close>

theorem idle_connection_closed:
  assumes "0 < n" and "Touch e \<notin> set ops"
  shows "um_find (snd (fst (run_ops (idle_step n) (before @ [Touch e] @ ops) (bucket_queue_new n, [])))) e = None \<longleftrightarrow>
    n \<le> ticks ops"
  by (rule idle_closed_after [OF assms])

theorem idle_connection_closed_witness:
  "um_find (snd (fst (run_ops (idle_step 4) ([] @ [Touch 1] @ [Tick, Tick, Touch 2, Tick, Tick]) (bucket_queue_new 4, [])))) 1 = None"
  using idle_connection_closed [of 4 1 "[Tick, Tick, Touch 2, Tick, Tick]" "[]"] by (simp add: ticks_def del: run_ops.simps)

end
