(* ===== verification/SaberServer.thy ===== *)
theory SaberServer
  imports SaberSession SessionId IdleBuckets
begin

text \<open>
  \<^verbatim>\<open>SaberServer\<close> (\<^verbatim>\<open>saber/server/saber_server.{h,cc}\<close>): connections, idle buckets, the sessions of the
  clients that are connected here, and the proposals that create and close sessions.

  Objects behind shared pointers live in two stores, entries and sessions, under their addresses. An
  \<^verbatim>\<open>Entry\<close> lives while a bucket or the callback of a connect proposal holds it (\<open>entry_held\<close>); when nothing
  holds it its destructor runs (\<open>entry_dtor\<close>, and then the end of its members). A session lives while a living entry
  points to it or a function of another thread has a shared pointer to it; these pointers are the list \<open>srv_locked\<close>.
  They are the pointer that \<^verbatim>\<open>WeakCallback\<close> locks while it answers a request, and the member \<^verbatim>\<open>session\<close> of an entry whose
  destructor has run and which is about to release it. The pointers that \<^verbatim>\<open>OnConnectRequest\<close>, \<^verbatim>\<open>CleanSessions\<close>
  and \<^verbatim>\<open>NewServers\<close> lock live only inside the mutex of the group, which \<^verbatim>\<open>CloseSession\<close> needs, too, so that it
  never counts them. The maps \<^verbatim>\<open>sessions_\<close> hold weak pointers; the mutexes of the groups make the accesses to these
  maps atomic. The operations return the new state and the list of effects.
\<close>

type_synonym loop = nat

record Entry =
  en_index :: int
  en_started :: bool
  en_conn :: conn
  en_session :: "watcher option"

record connect_ctx =
  cx_root :: string
  cx_group :: u32
  cx_session_id :: u64
  cx_entry :: entry
  cx_reply :: SaberMessage

record server_env =
  env_has_node :: bool
  env_node :: node_env
  env_loop :: "conn \<Rightarrow> loop"
  env_connected :: "conn \<Rightarrow> bool"
  env_group_size :: u32
  env_hash :: "string \<Rightarrow> u32"
  env_members :: "u32 \<Rightarrow> (string \<times> string) list \<times> u64"

datatype server_effect =
    SessionEffect watcher session_effect
  | ServerSend "conn option" SaberMessage
  | ShutDown conn
  | CloseConn conn
  | StopRead conn
  | ProposeConnect u32 bytes connect_ctx
  | ProposeClose u32 bytes
  | DelayTask u64 "u32 \<times> (u64, u64) umap"

record SaberServer =
  server_id :: u64
  session_timeout :: u32
  idle_ticks :: int
  srv_buckets :: "(loop, bucket_queue) umap"
  srv_context :: "(conn, entry) umap"
  srv_entries :: "(entry, Entry) umap"
  srv_heap :: "(watcher, SaberSession) umap"
  srv_sessions :: "(u64, watcher) umap list"
  srv_locked :: "watcher list"
  srv_pending :: "connect_ctx list"
  srv_db :: SaberDB
  srv_seq :: SequenceNumber
  srv_fresh :: nat

type_synonym server_result = "SaberServer \<times> server_effect list"

abbreviation alive_conn :: "server_env \<Rightarrow> conn \<Rightarrow> conn option" where
  "alive_conn env c \<equiv> (if env_alive (env_node env) c then Some c else None)"

definition SaberServer_new :: "u64 \<Rightarrow> u32 \<Rightarrow> u32 \<Rightarrow> u32 \<Rightarrow> loop list \<Rightarrow> SaberServer" where
  "SaberServer_new my_id timeout tick_time group_size loops =
     (let ticks = sint (timeout div tick_time)
      in \<lparr>server_id = my_id, session_timeout = timeout, idle_ticks = ticks,
          srv_buckets = map (\<lambda>l. (l, bucket_queue_new ticks)) loops, srv_context = [],
          srv_entries = [], srv_heap = [], srv_sessions = replicate (unat group_size) [],
          srv_locked = [], srv_pending = [], srv_db = SaberDB_new group_size,
          srv_seq = SequenceNumber_new (push_bit 10 1), srv_fresh = 0\<rparr>)"

definition group_sessions :: "u32 \<Rightarrow> SaberServer \<Rightarrow> (u64, watcher) umap" where
  "group_sessions g v = srv_sessions v ! unat g"

definition put_group_sessions :: "u32 \<Rightarrow> (u64, watcher) umap \<Rightarrow> SaberServer \<Rightarrow> SaberServer" where
  "put_group_sessions g m v = v\<lparr>srv_sessions := (srv_sessions v)[unat g := m]\<rparr>"

section \<open>The life of entries and sessions\<close>

definition entry_held :: "SaberServer \<Rightarrow> entry \<Rightarrow> bool" where
  "entry_held v e \<longleftrightarrow>
     (\<exists>(l, q) \<in> set (srv_buckets v). \<exists>b \<in> set (fst q). e \<in> set b) \<or>
     (\<exists>c \<in> set (srv_pending v). cx_entry c = e)"

definition session_holders :: "SaberServer \<Rightarrow> watcher \<Rightarrow> entry list" where
  "session_holders v w = map fst (filter (\<lambda>(e, en). en_session en = Some w) (srv_entries v))"

definition session_uses :: "SaberServer \<Rightarrow> watcher \<Rightarrow> nat" where
  "session_uses v w = length (session_holders v w) + count_list (srv_locked v) w"

definition OnCloseRequest :: "pb_codec \<Rightarrow> u32 \<Rightarrow> CloseRequest \<Rightarrow> server_effect list" where
  "OnCloseRequest pb g request =
     [ProposeClose g (ser_SaberMessage pb
        (SaberMessage_default\<lparr>sm_type := MT_CLOSE, sm_data := ser_CloseRequest pb request\<rparr>))]"

definition CloseSession :: "pb_codec \<Rightarrow> server_env \<Rightarrow> watcher \<Rightarrow> SaberServer \<Rightarrow> server_result" where
  "CloseSession pb env w v =
     (case um_find (srv_heap v) w of
        None \<Rightarrow> (v, [])
      | Some session \<Rightarrow>
          (let g = sess_group session;
               unique = (session_uses v w = 1);
               v = (if unique then put_group_sessions g (um_erase (sess_id session) (group_sessions g v)) v else v)
           in if unique \<and> env_is_master (env_node env) g \<and>
                 DB_FindSession g (sess_id session) (sess_version session) (srv_db v)
              then (v, OnCloseRequest pb g \<lparr>clq_session_id = [sess_id session], clq_version = [sess_version session]\<rparr>)
              else (v, [])))"

text \<open>The end of a shared pointer: the last one takes the session with it.\<close>

definition drop_session :: "watcher \<Rightarrow> SaberServer \<Rightarrow> SaberServer" where
  "drop_session w v =
     (if session_uses v w = 0
      then (case um_find (srv_heap v) w of
              None \<Rightarrow> v
            | Some s \<Rightarrow> v\<lparr>srv_db := SaberSession_destroy s (srv_db v), srv_heap := um_erase w (srv_heap v)\<rparr>)
      else v)"

definition lock_session :: "watcher \<Rightarrow> SaberServer \<Rightarrow> SaberServer" where
  "lock_session w v =
     (case um_find (srv_heap v) w of None \<Rightarrow> v | Some s \<Rightarrow> v\<lparr>srv_locked := w # srv_locked v\<rparr>)"

definition unlock_session :: "watcher \<Rightarrow> SaberServer \<Rightarrow> SaberServer" where
  "unlock_session w v = drop_session w (v\<lparr>srv_locked := remove1 w (srv_locked v)\<rparr>)"

text \<open>The body of \<^verbatim>\<open>~Entry\<close>. After it the entry is gone but for its member \<^verbatim>\<open>session\<close>, which \<open>unlock_session\<close> ends.\<close>

definition entry_dtor :: "pb_codec \<Rightarrow> server_env \<Rightarrow> entry \<Rightarrow> SaberServer \<Rightarrow> server_result" where
  "entry_dtor pb env e v =
     (case um_find (srv_entries v) e of
        None \<Rightarrow> (v, [])
      | Some en \<Rightarrow>
          (let shut = (case alive_conn env (en_conn en) of Some c \<Rightarrow> [ShutDown c] | None \<Rightarrow> [])
           in case en_session en of
                None \<Rightarrow> (v\<lparr>srv_entries := um_erase e (srv_entries v)\<rparr>, shut)
              | Some w \<Rightarrow>
                  (let (v, out) = CloseSession pb env w v
                   in (v\<lparr>srv_entries := um_erase e (srv_entries v), srv_locked := w # srv_locked v\<rparr>, shut @ out))))"

definition destroy_entry :: "pb_codec \<Rightarrow> server_env \<Rightarrow> entry \<Rightarrow> SaberServer \<Rightarrow> server_result" where
  "destroy_entry pb env e v =
     (let (v', out) = entry_dtor pb env e v
      in (case um_find (srv_entries v) e of
            None \<Rightarrow> v'
          | Some en \<Rightarrow> (case en_session en of None \<Rightarrow> v' | Some w \<Rightarrow> unlock_session w v'), out))"

fun release :: "pb_codec \<Rightarrow> server_env \<Rightarrow> entry list \<Rightarrow> SaberServer \<Rightarrow> server_result" where
  "release pb env [] v = (v, [])"
| "release pb env (e # es) v =
     (let (v, out) = (if entry_held v e then (v, []) else destroy_entry pb env e v);
          (v, out') = release pb env es v
      in (v, out @ out'))"

section \<open>Idle connections\<close>

text \<open>\<^verbatim>\<open>UpdateBuckets\<close> and \<^verbatim>\<open>OnTimer\<close> on the queue of the event loop of the connection. \<open>None\<close> is the exception
  of \<^verbatim>\<open>vector::at\<close>.\<close>

definition touch_entry :: "server_env \<Rightarrow> conn \<Rightarrow> entry \<Rightarrow> SaberServer \<Rightarrow> SaberServer option" where
  "touch_entry env p e v =
     (case (um_find (srv_buckets v) (env_loop env p), um_find (srv_entries v) e) of
        (Some q, Some en) \<Rightarrow>
          (case UpdateBuckets e (en_index en) q of
             None \<Rightarrow> None
           | Some (q', i) \<Rightarrow>
               Some (v\<lparr>srv_buckets := um_set (env_loop env p) q' (srv_buckets v),
                       srv_entries := um_set e (en\<lparr>en_index := i\<rparr>) (srv_entries v)\<rparr>))
      | _ \<Rightarrow> None)"

definition server_OnTimer :: "pb_codec \<Rightarrow> server_env \<Rightarrow> loop \<Rightarrow> SaberServer \<Rightarrow> server_result option" where
  "server_OnTimer pb env l v =
     (case um_find (srv_buckets v) l of
        None \<Rightarrow> None
      | Some q \<Rightarrow>
          (case OnTimer (idle_ticks v) q of
             None \<Rightarrow> None
           | Some (q', es) \<Rightarrow> Some (release pb env es (v\<lparr>srv_buckets := um_set l q' (srv_buckets v)\<rparr>))))"

definition OnConnection :: "server_env \<Rightarrow> bool \<Rightarrow> conn \<Rightarrow> SaberServer \<Rightarrow> SaberServer option" where
  "OnConnection env admitted p v =
     (if admitted
      then (let e = srv_fresh v;
                v = v\<lparr>srv_entries := um_set e \<lparr>en_index = - 1, en_started = False, en_conn = p, en_session = None\<rparr>
                        (srv_entries v),
                      srv_fresh := e + 1\<rparr>
            in map_option (\<lambda>v. v\<lparr>srv_context := um_set p e (srv_context v)\<rparr>) (touch_entry env p e v))
      else Some v)"

definition OnClose :: "conn \<Rightarrow> SaberServer \<Rightarrow> SaberServer" where
  "OnClose p v = v\<lparr>srv_context := um_erase p (srv_context v)\<rparr>"

section \<open>Sessions\<close>

definition Shard :: "server_env \<Rightarrow> string \<Rightarrow> u32" where
  "Shard env s = (if env_group_size env = 1 then 0 else env_hash env s mod env_group_size env)"

text \<open>\<open>None\<close> is the null pointer that \<^verbatim>\<open>CreateSession\<close> goes through when the weak pointer under the id cannot be locked: the
  assertion on it has no effect in the release build.\<close>

definition server_CreateSession ::
    "server_env \<Rightarrow> string \<Rightarrow> u32 \<Rightarrow> u64 \<Rightarrow> u64 \<Rightarrow> entry \<Rightarrow> SaberServer \<Rightarrow> (SaberServer \<times> bool) option" where
  "server_CreateSession env root g sid ver e v =
     (case um_find (srv_entries v) e of
        None \<Rightarrow> None
      | Some en \<Rightarrow>
          (let c = alive_conn env (en_conn en)
           in case um_find (group_sessions g v) sid of
                Some w \<Rightarrow>
                  (case um_find (srv_heap v) w of
                     None \<Rightarrow> None
                   | Some s \<Rightarrow>
                       Some (v\<lparr>srv_heap := um_set w ((OnConnect c s)\<lparr>sess_version := ver\<rparr>) (srv_heap v),
                          srv_entries := um_set e (en\<lparr>en_session := Some w\<rparr>) (srv_entries v)\<rparr>, True))
              | None \<Rightarrow>
                  (let w = srv_fresh v
                   in Some (put_group_sessions g (um_set sid w (group_sessions g v))
                         (v\<lparr>srv_heap := um_set w ((SaberSession_new root g sid w c)\<lparr>sess_version := ver\<rparr>) (srv_heap v),
                            srv_entries := um_set e (en\<lparr>en_session := Some w\<rparr>) (srv_entries v),
                            srv_fresh := w + 1\<rparr>), False))))"

definition set_started :: "entry \<Rightarrow> bool \<Rightarrow> SaberServer \<Rightarrow> SaberServer" where
  "set_started e b v =
     (case um_find (srv_entries v) e of
        None \<Rightarrow> v | Some en \<Rightarrow> v\<lparr>srv_entries := um_set e (en\<lparr>en_started := b\<rparr>) (srv_entries v)\<rparr>)"

definition still_connected :: "server_env \<Rightarrow> u32 \<Rightarrow> u64 \<Rightarrow> SaberServer \<Rightarrow> bool" where
  "still_connected env g sid v =
     (case um_find (group_sessions g v) sid of
        None \<Rightarrow> False
      | Some w \<Rightarrow>
          (case um_find (srv_heap v) w of
             None \<Rightarrow> False
           | Some s \<Rightarrow>
               (case lock_conn (env_node env) s of None \<Rightarrow> False | Some c \<Rightarrow> env_connected env c)))"

definition OnConnectRequest ::
    "pb_codec \<Rightarrow> server_env \<Rightarrow> string \<Rightarrow> u32 \<Rightarrow> entry \<Rightarrow> Entry \<Rightarrow> SaberMessage \<Rightarrow> SaberServer \<Rightarrow> server_result \<times> bool" where
  "OnConnectRequest pb env root g e en message v =
     (if en_started en then ((v, []), True)
      else
        (let v = set_started e True v;
             request = parse_ConnectRequest pb (sm_data message);
             sid = cnq_session_id request
         in if sid \<noteq> 0 \<and> still_connected env g sid v
            then ((v, [ServerSend (alive_conn env (en_conn en))
                         (message\<lparr>sm_data := ser_ConnectResponse pb (ConnectResponse_default\<lparr>cnr_code := RC_UNKNOWN\<rparr>)\<rparr>)]),
                  False)
            else
              (let found = (if sid \<noteq> 0 then DB_FindVersion g sid (srv_db v) else None);
                   (v, sid, ver) =
                     (case found of
                        Some ver \<Rightarrow> (v, sid, ver)
                      | None \<Rightarrow>
                          (let (seq, sid) = GetNextSessionId (env_now (env_node env)) (server_id v) (srv_seq v)
                           in (v\<lparr>srv_seq := seq\<rparr>, sid, 0)));
                   message = message\<lparr>sm_data := ser_ConnectRequest pb \<lparr>cnq_session_id = sid, cnq_version = ver\<rparr>\<rparr>;
                   entry_bytes = ser_SaberMessage pb message;
                   reply = message\<lparr>sm_data := ser_ConnectResponse pb (ConnectResponse_default\<lparr>cnr_code := RC_FAILED\<rparr>)\<rparr>;
                   ctx = \<lparr>cx_root = root, cx_group = g, cx_session_id = sid, cx_entry = e, cx_reply = reply\<rparr>
               in if env_propose (env_node env) g entry_bytes
                  then ((v\<lparr>srv_pending := srv_pending v @ [ctx]\<rparr>, [ProposeConnect g entry_bytes ctx]), True)
                  else ((set_started e False v, [ServerSend (alive_conn env (en_conn en)) reply]), True))))"

text \<open>The callback of a connect proposal: \<open>r\<close> is the reply object as \<open>Execute\<close> left it. When the callback
  is gone, so is its hold on the entry; \<open>connect_callback\<close> adds the end of the entry, if nothing else holds it.\<close>

definition connect_answer ::
    "pb_codec \<Rightarrow> server_env \<Rightarrow> connect_ctx \<Rightarrow> u64 \<Rightarrow> SaberMessage \<Rightarrow> SaberServer \<Rightarrow> server_result option" where
  "connect_answer pb env ctx instance_id r v =
     (let e = cx_entry ctx; res = parse_ConnectResponse pb (sm_data r);
          conn = (case um_find (srv_entries v) e of None \<Rightarrow> None | Some en \<Rightarrow> alive_conn env (en_conn en))
      in map_option (\<lambda>(v, r). (v\<lparr>srv_pending := remove1 ctx (srv_pending v)\<rparr>, [ServerSend conn r]))
           (if cnr_code res \<noteq> RC_OK then Some (set_started e False v, r)
            else
              map_option
                (\<lambda>(v, again).
                   (v, r\<lparr>sm_data := ser_ConnectResponse pb
                          ((if again then res\<lparr>cnr_code := RC_RECONNECT\<rparr> else res)
                             \<lparr>cnr_session_id := cx_session_id ctx, cnr_timeout := ucast (session_timeout v)\<rparr>)\<rparr>))
                (server_CreateSession env (cx_root ctx) (cx_group ctx) (cx_session_id ctx) instance_id e v)))"

definition connect_callback ::
    "pb_codec \<Rightarrow> server_env \<Rightarrow> connect_ctx \<Rightarrow> u64 \<Rightarrow> SaberMessage \<Rightarrow> SaberServer \<Rightarrow> server_result option" where
  "connect_callback pb env ctx instance_id r v =
     map_option (\<lambda>(v, out). let (v, out') = release pb env [cx_entry ctx] v in (v, out @ out'))
       (connect_answer pb env ctx instance_id r v)"

section \<open>Messages\<close>

definition run_session ::
    "pb_codec \<Rightarrow> server_env \<Rightarrow> watcher \<Rightarrow> SaberMessage \<Rightarrow> SaberServer \<Rightarrow> server_result \<times> bool" where
  "run_session pb env w message v =
     (case um_find (srv_heap v) w of
        None \<Rightarrow> ((v, []), False)
      | Some s \<Rightarrow>
          (let (b, s, db, out) = OnMessage pb (env_node env) message s (srv_db v)
           in ((v\<lparr>srv_heap := um_set w s (srv_heap v), srv_db := db\<rparr>, map (SessionEffect w) out), b)))"

definition server_HandleMessage ::
    "pb_codec \<Rightarrow> server_env \<Rightarrow> entry \<Rightarrow> Entry \<Rightarrow> SaberMessage \<Rightarrow> SaberServer \<Rightarrow> server_result \<times> bool" where
  "server_HandleMessage pb env e en message v =
     (if sm_type message \<noteq> MT_CONNECT
      then (case en_session en of
              Some w \<Rightarrow> run_session pb env w message v
            | None \<Rightarrow> ((v, []), False))
      else
        (let root = sm_extra_data message;
             message = message\<lparr>sm_extra_data := []\<rparr>;
             g = Shard env root
         in if env_is_master (env_node env) g then OnConnectRequest pb env root g e en message v
            else ((v, [ServerSend (alive_conn env (en_conn en))
                         (message\<lparr>sm_type := MT_MASTER,
                                  sm_data := ser_Master pb (master_message (env_node env) g)\<rparr>)]), False)))"

definition server_OnMessage ::
    "pb_codec \<Rightarrow> server_env \<Rightarrow> conn \<Rightarrow> SaberMessage \<Rightarrow> SaberServer \<Rightarrow> (server_result \<times> bool) option" where
  "server_OnMessage pb env p message v =
     (case um_find (srv_context v) p of
        None \<Rightarrow> Some ((v, []), False)
      | Some e \<Rightarrow>
          (case (if entry_held v e then um_find (srv_entries v) e else None) of
             None \<Rightarrow> Some ((v, []), False)
           | Some en \<Rightarrow>
               (let ((v, out), b) = server_HandleMessage pb env e en message v
                in if b then map_option (\<lambda>v. ((v, out), True)) (touch_entry env p e v)
                   else Some ((v, out @ [CloseConn p]), False))))"

text \<open>\<^verbatim>\<open>OnError\<close>: the flag says whether the error of the codec is \<^verbatim>\<open>kParseError\<close>.\<close>

definition OnError :: "conn \<Rightarrow> bool \<Rightarrow> server_effect list" where
  "OnError p parse_error = (if parse_error then [StopRead p] else [])"

section \<open>Change of the master and of the members\<close>

fun tell_sessions ::
    "pb_codec \<Rightarrow> server_env \<Rightarrow> (u64 \<times> watcher) list \<Rightarrow> SaberServer \<Rightarrow> server_result" where
  "tell_sessions pb env [] v = (v, [])"
| "tell_sessions pb env ((sid, w) # rest) v =
     (let ((v, out), b) = run_session pb env w (SaberMessage_default\<lparr>sm_type := MT_MASTER\<rparr>) v;
          (v, out') = tell_sessions pb env rest v
      in (v, out @ out'))"

definition CleanSessions :: "pb_codec \<Rightarrow> server_env \<Rightarrow> u32 \<Rightarrow> SaberServer \<Rightarrow> server_result" where
  "CleanSessions pb env g v =
     (if \<not> env_has_node env then (v, [])
      else if \<not> env_is_master (env_node env) g
      then (let (v, out) = tell_sessions pb env (group_sessions g v) v
            in (put_group_sessions g [] v, out))
      else
        (let copied = DB_CopySessions g (srv_db v)
         in if copied = [] then (v, []) else (v, [DelayTask 8000 (g, copied)])))"

definition clean_task :: "pb_codec \<Rightarrow> u32 \<Rightarrow> (u64, u64) umap \<Rightarrow> SaberServer \<Rightarrow> server_effect list" where
  "clean_task pb g copied v =
     (let gone = filter (\<lambda>(sid, ver). um_find (group_sessions g v) sid = None) copied
      in if gone \<noteq> []
         then OnCloseRequest pb g \<lparr>clq_session_id = map fst gone, clq_version = map snd gone\<rparr>
         else [])"

definition servers_string :: "(string \<times> string) list \<Rightarrow> string" where
  "servers_string members = butlast (concat (map (\<lambda>(host, context). host @ '':'' @ context @ '','') members))"

definition NewServers :: "server_env \<Rightarrow> u32 \<Rightarrow> SaberServer \<Rightarrow> server_effect list" where
  "NewServers env g v =
     (if \<not> env_has_node env then []
      else
        (let (members, ver) = env_members env g;
             message = SaberMessage_default\<lparr>sm_type := MT_SERVERS, sm_data := servers_string members,
                                            sm_extra_data := show_nat (unat ver)\<rparr>
         in concat (map (\<lambda>(sid, w).
              case um_find (srv_heap v) w of
                None \<Rightarrow> [] | Some s \<Rightarrow> [ServerSend (lock_conn (env_node env) s) message]) (group_sessions g v))))"

end
