(* ===== verification/SaberServer_Inv.thy ===== *)
theory SaberServer_Inv
  imports SaberServer
begin

text \<open>
  The invariant of the stores of \<^verbatim>\<open>SaberServer\<close>. An entry points to a session that lives, a session lives
  only while an entry or a locked pointer holds it, a weak pointer in \<^verbatim>\<open>sessions_\<close> that can be locked leads to the session
  of that id and group, and the callback of a connect proposal finds its entry without a session.

  Whether the weak pointers in \<^verbatim>\<open>sessions_\<close> can be locked is a second invariant. It does not hold in every run
  of the code: an entry that dies while another thread holds its session leaves the registration behind. The
  flag \<open>L\<close> of \<open>store_okl\<close> and \<open>srv_okl\<close> asks for it; every lemma but the one on the destructor of an entry keeps both
  invariants.

  The invariants are stated on the functions behind the stores (\<open>store_okl\<close>), where each change of a
  store is one update; the operations of the server are then combinations of these updates.
\<close>

section \<open>The invariant on functions\<close>

record stores =
  ent :: "entry \<rightharpoonup> Entry"
  heap :: "watcher \<rightharpoonup> SaberSession"
  smap :: "u32 \<Rightarrow> u64 \<rightharpoonup> watcher"
  lks :: "watcher list"
  pend :: "connect_ctx list"
  next_ref :: nat

definition holds :: "(entry \<rightharpoonup> Entry) \<Rightarrow> entry \<Rightarrow> watcher \<Rightarrow> bool" where
  "holds E e w \<longleftrightarrow> (\<exists>en. E e = Some en \<and> en_session en = Some w)"

definition entries_ok :: "stores \<Rightarrow> bool" where
  "entries_ok z \<longleftrightarrow>
     (\<forall>e en. ent z e = Some en \<longrightarrow> e < next_ref z \<and>
        (\<forall>w. en_session en = Some w \<longrightarrow> en_started en \<and> heap z w \<noteq> None))"

definition heap_ok :: "stores \<Rightarrow> bool" where
  "heap_ok z \<longleftrightarrow> (\<forall>w s. heap z w = Some s \<longrightarrow> w < next_ref z \<and> ((\<exists>e. holds (ent z) e w) \<or> w \<in> set (lks z)))"

definition locks_ok :: "stores \<Rightarrow> bool" where
  "locks_ok z \<longleftrightarrow> (\<forall>w \<in> set (lks z). heap z w \<noteq> None)"

definition smap_ok :: "stores \<Rightarrow> bool" where
  "smap_ok z \<longleftrightarrow>
     (\<forall>g sid w. smap z g sid = Some w \<longrightarrow>
        w < next_ref z \<and> (\<forall>s. heap z w = Some s \<longrightarrow> sess_id s = sid \<and> sess_group s = g))"

definition smap_live :: "stores \<Rightarrow> bool" where
  "smap_live z \<longleftrightarrow> (\<forall>g sid w. smap z g sid = Some w \<longrightarrow> (\<exists>e. holds (ent z) e w))"

definition pend_ok :: "stores \<Rightarrow> bool" where
  "pend_ok z \<longleftrightarrow>
     distinct (map cx_entry (pend z)) \<and>
     (\<forall>c \<in> set (pend z). \<exists>en. ent z (cx_entry c) = Some en \<and> en_started en \<and> en_session en = None)"

definition store_okl :: "bool \<Rightarrow> stores \<Rightarrow> bool" where
  "store_okl L z \<longleftrightarrow> entries_ok z \<and> heap_ok z \<and> locks_ok z \<and> smap_ok z \<and> pend_ok z \<and> (L \<longrightarrow> smap_live z)"

lemma store_okD:
  assumes "store_okl L z"
  shows "entries_ok z" "heap_ok z" "locks_ok z" "smap_ok z" "pend_ok z" "L \<Longrightarrow> smap_live z"
  using assms by (auto simp: store_okl_def)

text \<open>Entries change, and what they hold does not, or only grows.\<close>

lemma holds_mono:
  assumes "\<And>y u. holds (ent z) y u \<Longrightarrow> \<exists>x. holds E x u"
  shows "heap_ok z \<Longrightarrow> heap_ok (z\<lparr>ent := E\<rparr>)" and "smap_live z \<Longrightarrow> smap_live (z\<lparr>ent := E\<rparr>)"
  using assms by (auto simp: heap_ok_def smap_live_def) blast+

lemma holds_same:
  assumes "holds E = holds (ent z)"
  shows "heap_ok (z\<lparr>ent := E\<rparr>) = heap_ok z" and "smap_live (z\<lparr>ent := E\<rparr>) = smap_live z"
  using assms by (simp_all add: heap_ok_def smap_live_def)

section \<open>The updates\<close>

definition same_owner :: "Entry \<Rightarrow> Entry \<Rightarrow> bool" where
  "same_owner en en' \<longleftrightarrow> en_session en' = en_session en \<and> (en_started en \<longrightarrow> en_started en')"

lemma holds_update: "E e = Some en \<Longrightarrow> same_owner en en' \<Longrightarrow> holds (E(e \<mapsto> en')) = holds E"
  by (auto simp: holds_def same_owner_def fun_eq_iff)

lemma ok_touch:
  assumes ok: "store_okl L z" and e: "ent z e = Some en" and so: "same_owner en en'"
  shows "store_okl L (z\<lparr>ent := (ent z)(e \<mapsto> en')\<rparr>)"
proof -
  note H = holds_same [OF holds_update [where E = "ent z", OF e so]]
  have "entries_ok (z\<lparr>ent := (ent z)(e \<mapsto> en')\<rparr>)"
    using store_okD [OF ok] e so by (auto simp: entries_ok_def same_owner_def)
  moreover have "pend_ok (z\<lparr>ent := (ent z)(e \<mapsto> en')\<rparr>)"
    using store_okD [OF ok] e so by (fastforce simp: pend_ok_def same_owner_def)
  ultimately show ?thesis using ok H by (simp add: store_okl_def locks_ok_def smap_ok_def)
qed

lemma ok_new_entry:
  assumes ok: "store_okl L z" and new: "en_session en = None"
  shows "store_okl L (z\<lparr>ent := (ent z)(next_ref z \<mapsto> en), next_ref := next_ref z + 1\<rparr>)"
proof -
  have f: "ent z (next_ref z) = None"
    using store_okD(1) [OF ok] by (cases "ent z (next_ref z)") (auto simp: entries_ok_def)
  have "holds ((ent z)(next_ref z \<mapsto> en)) = holds (ent z)" using f new by (auto simp: holds_def fun_eq_iff)
  moreover have "cx_entry c \<noteq> next_ref z" if "c \<in> set (pend z)" for c
    using store_okD(5) [OF ok] f that by (auto simp: pend_ok_def)
  ultimately show ?thesis using ok new
    by (auto simp: store_okl_def entries_ok_def heap_ok_def locks_ok_def smap_ok_def smap_live_def pend_ok_def less_SucI)
qed

lemma ok_del_plain:
  assumes ok: "store_okl L z" and e: "ent z e = Some en" "en_session en = None" and np: "\<forall>c \<in> set (pend z). cx_entry c \<noteq> e"
  shows "store_okl L (z\<lparr>ent := (ent z)(e := None)\<rparr>)"
proof -
  have "holds ((ent z)(e := None)) = holds (ent z)" using e by (auto simp: holds_def fun_eq_iff)
  then show ?thesis using ok np holds_same [of "(ent z)(e := None)" z]
    by (simp add: store_okl_def entries_ok_def locks_ok_def smap_ok_def pend_ok_def)
qed

text \<open>The entry of a session dies: its hold becomes a locked pointer. If nothing else holds the session, it is no
  longer registered.\<close>

lemma ok_del_entry:
  assumes ok: "store_okl L z" and e: "holds (ent z) e w" and np: "\<forall>c \<in> set (pend z). cx_entry c \<noteq> e"
    and L: "L \<Longrightarrow> (\<exists>x. x \<noteq> e \<and> holds (ent z) x w) \<or> (\<forall>g sid. smap z g sid \<noteq> Some w)"
  shows "store_okl L (z\<lparr>ent := (ent z)(e := None), lks := w # lks z\<rparr>)" (is "store_okl L ?z")
proof -
  have h: "holds ((ent z)(e := None)) x u \<longleftrightarrow> x \<noteq> e \<and> holds (ent z) x u" for x u by (simp add: holds_def)
  have ew: "u = w" if "holds (ent z) e u" for u using e that by (auto simp: holds_def)
  have "heap_ok ?z" using store_okD(2) [OF ok] ew by (auto simp: heap_ok_def h) metis
  moreover have "heap z w \<noteq> None" using store_okD(1) [OF ok] e by (auto simp: entries_ok_def holds_def)
  moreover have "smap_live ?z" if l: L
    unfolding smap_live_def
  proof (intro allI impI)
    fix g sid u
    assume "smap ?z g sid = Some u"
    then have u: "smap z g sid = Some u" by simp
    then obtain x where "holds (ent z) x u" using store_okD(6) [OF ok l] unfolding smap_live_def by blast
    then show "\<exists>x. holds (ent ?z) x u" using L [OF l] ew [of u] u by (cases "x = e") (auto simp: h)
  qed
  ultimately show ?thesis using store_okD [OF ok] np
    by (simp add: store_okl_def entries_ok_def locks_ok_def smap_ok_def pend_ok_def)
qed

lemma ok_unregister: "store_okl L z \<Longrightarrow> store_okl L (z\<lparr>smap := (smap z)(g := (smap z g)(sid := None))\<rparr>)"
  by (auto simp: store_okl_def entries_ok_def heap_ok_def locks_ok_def smap_ok_def smap_live_def pend_ok_def)

lemma ok_lock: "store_okl L z \<Longrightarrow> heap z w \<noteq> None \<Longrightarrow> store_okl L (z\<lparr>lks := w # lks z\<rparr>)"
  by (auto simp: store_okl_def entries_ok_def heap_ok_def locks_ok_def smap_ok_def smap_live_def pend_ok_def)

lemma ok_unlock_shared:
  assumes ok: "store_okl L z" and "w \<in> set (remove1 w (lks z)) \<or> (\<exists>x. holds (ent z) x w)"
  shows "store_okl L (z\<lparr>lks := remove1 w (lks z)\<rparr>)"
proof -
  have "u \<in> set (remove1 w (lks z)) \<or> (\<exists>x. holds (ent z) x u)" if "u \<in> set (lks z)" for u
    using that assms(2) by (cases "u = w") auto
  then have "heap_ok (z\<lparr>lks := remove1 w (lks z)\<rparr>)" using store_okD(2) [OF ok] by (auto simp: heap_ok_def)
  then show ?thesis using store_okD [OF ok] set_remove1_subset [of w "lks z"]
    by (auto simp: store_okl_def entries_ok_def locks_ok_def smap_ok_def smap_live_def pend_ok_def)
qed

lemma ok_unlock_last:
  assumes ok: "store_okl L z" and "w \<notin> set (remove1 w (lks z))" and free: "\<forall>x. \<not> holds (ent z) x w"
  shows "store_okl L (z\<lparr>lks := remove1 w (lks z), heap := (heap z)(w := None)\<rparr>)" (is "store_okl L ?z")
proof -
  have "entries_ok ?z"
  proof -
    have "en_session en \<noteq> Some w" if "ent z x = Some en" for x en using free that by (auto simp: holds_def)
    then show ?thesis using store_okD(1) [OF ok] by (auto simp: entries_ok_def)
  qed
  moreover have "u \<in> set (remove1 w (lks z))" if "u \<in> set (lks z)" "u \<noteq> w" for u using that by simp
  then have "heap_ok ?z" using store_okD(2) [OF ok] by (auto simp: heap_ok_def)
  moreover have "locks_ok ?z" using store_okD(3) [OF ok] assms(2) set_remove1_subset [of w "lks z"] by (auto simp: locks_ok_def)
  moreover have "smap_ok ?z" using store_okD(4) [OF ok] by (auto simp: smap_ok_def)
  ultimately show ?thesis using store_okD [OF ok] by (auto simp: store_okl_def smap_live_def pend_ok_def)
qed

lemma ok_session:
  assumes ok: "store_okl L z" and "heap z w = Some s" and "sess_id s' = sess_id s" "sess_group s' = sess_group s"
  shows "store_okl L (z\<lparr>heap := (heap z)(w \<mapsto> s')\<rparr>)"
proof -
  have "smap_ok (z\<lparr>heap := (heap z)(w \<mapsto> s')\<rparr>)" using store_okD(4) [OF ok] assms(2-4) by (fastforce simp: smap_ok_def)
  moreover have "heap_ok (z\<lparr>heap := (heap z)(w \<mapsto> s')\<rparr>)" using store_okD(2) [OF ok] assms(2) by (simp add: heap_ok_def)
  ultimately show ?thesis using store_okD [OF ok] by (simp add: store_okl_def entries_ok_def locks_ok_def smap_live_def pend_ok_def)
qed

lemma ok_forget: "store_okl L z \<Longrightarrow> store_okl L (z\<lparr>smap := (smap z)(g := Map.empty)\<rparr>)"
  by (auto simp: store_okl_def entries_ok_def heap_ok_def locks_ok_def smap_ok_def smap_live_def pend_ok_def)

lemma ok_pend_add:
  assumes "store_okl L z" and "ent z (cx_entry c) = Some en" "en_started en" "en_session en = None"
    and "\<forall>d \<in> set (pend z). cx_entry d \<noteq> cx_entry c"
  shows "store_okl L (z\<lparr>pend := pend z @ [c]\<rparr>)"
  using assms by (auto simp: store_okl_def entries_ok_def heap_ok_def locks_ok_def smap_ok_def smap_live_def pend_ok_def)

lemma ok_pend_remove:
  assumes "store_okl L z" shows "store_okl L (z\<lparr>pend := remove1 c (pend z)\<rparr>)"
proof -
  have "distinct (map cx_entry (remove1 c cs))" if "distinct (map cx_entry cs)" for cs
    using that unfolding distinct_map by (meson distinct_remove1 inj_on_subset set_remove1_subset)
  then show ?thesis using assms
    by (auto simp: store_okl_def entries_ok_def heap_ok_def locks_ok_def smap_ok_def smap_live_def pend_ok_def dest: notin_set_remove1)
qed

lemma pend_unique:
  "store_okl L z \<Longrightarrow> c \<in> set (pend z) \<Longrightarrow> d \<in> set (remove1 c (pend z)) \<Longrightarrow> cx_entry d \<noteq> cx_entry c"
  by (auto simp: store_okl_def pend_ok_def distinct_map inj_on_def)

lemma ok_join:
  assumes ok: "store_okl L z" and e: "ent z e = Some en" "en_started en" "en_session en = None"
    and w: "heap z w \<noteq> None" and np: "\<forall>c \<in> set (pend z). cx_entry c \<noteq> e"
  shows "store_okl L (z\<lparr>ent := (ent z)(e \<mapsto> en\<lparr>en_session := Some w\<rparr>)\<rparr>)"
proof -
  have "\<exists>x. holds ((ent z)(e \<mapsto> en\<lparr>en_session := Some w\<rparr>)) x u" if "holds (ent z) x u" for x u
    using that e by (auto simp: holds_def intro!: exI [of _ x])
  note M = holds_mono [OF this]
  show ?thesis using M store_okD [OF ok] e w np by (auto simp: store_okl_def entries_ok_def locks_ok_def smap_ok_def pend_ok_def)
qed

lemma ok_new_session:
  assumes ok: "store_okl L z" and e: "ent z e = Some en" "en_started en" "en_session en = None"
    and np: "\<forall>c \<in> set (pend z). cx_entry c \<noteq> e" and s: "sess_id s = sid" "sess_group s = g"
  shows "store_okl L (z\<lparr>ent := (ent z)(e \<mapsto> en\<lparr>en_session := Some (next_ref z)\<rparr>), heap := (heap z)(next_ref z \<mapsto> s),
    smap := (smap z)(g := (smap z g)(sid \<mapsto> next_ref z)), next_ref := next_ref z + 1\<rparr>)" (is "store_okl L ?z")
proof -
  have f: "heap z (next_ref z) = None" using store_okD(2) [OF ok] by (cases "heap z (next_ref z)") (auto simp: heap_ok_def)
  have h: "holds ((ent z)(e \<mapsto> en\<lparr>en_session := Some (next_ref z)\<rparr>)) x u \<longleftrightarrow> (if x = e then u = next_ref z else holds (ent z) x u)" for x u
    by (auto simp: holds_def)
  have other: "\<exists>x. holds ((ent z)(e \<mapsto> en\<lparr>en_session := Some (next_ref z)\<rparr>)) x u" if "holds (ent z) x u" for x u
    using that e by (cases "x = e") (auto simp: h holds_def [of "ent z" e])
  have "entries_ok ?z" using store_okD(1) [OF ok] e by (auto simp: entries_ok_def less_SucI)
  moreover have "heap_ok ?z"
    unfolding heap_ok_def
  proof (intro allI impI)
    fix u s'
    assume "heap ?z u = Some s'"
    then consider "u = next_ref z" | "heap z u = Some s'" by (auto split: if_splits)
    then show "u < next_ref ?z \<and> ((\<exists>x. holds (ent ?z) x u) \<or> u \<in> set (lks ?z))"
    proof cases
      case 1
      then show ?thesis by (auto simp: h intro!: exI [of _ e])
    next
      case 2
      then show ?thesis using store_okD(2) [OF ok] other [of _ u] unfolding heap_ok_def by fastforce
    qed
  qed
  moreover have "smap_ok ?z" using store_okD(4) [OF ok] f s by (fastforce simp: smap_ok_def less_SucI)
  moreover have "smap_live ?z" if l: L
    unfolding smap_live_def
  proof (intro allI impI)
    fix g' sid' u
    assume "smap ?z g' sid' = Some u"
    then have "u = next_ref z \<or> smap z g' sid' = Some u" by (cases "g' = g"; cases "sid' = sid") simp_all
    then consider "u = next_ref z" | "smap z g' sid' = Some u" by blast
    then show "\<exists>x. holds (ent ?z) x u"
    proof cases
      case 1
      then show ?thesis by (auto simp: h intro!: exI [of _ e])
    next
      case 2
      then obtain x where "holds (ent z) x u" using store_okD(6) [OF ok l] unfolding smap_live_def by blast
      then show ?thesis using other by simp
    qed
  qed
  moreover have "locks_ok ?z" "pend_ok ?z" using store_okD(3,5) [OF ok] np by (auto simp: locks_ok_def pend_ok_def)
  ultimately show ?thesis by (simp add: store_okl_def)
qed

section \<open>The invariant of the server\<close>

abbreviation entry_at :: "SaberServer \<Rightarrow> entry \<Rightarrow> Entry option" where
  "entry_at v \<equiv> um_find (srv_entries v)"

abbreviation session_at :: "SaberServer \<Rightarrow> watcher \<Rightarrow> SaberSession option" where
  "session_at v \<equiv> um_find (srv_heap v)"

definition valid_gid :: "SaberServer \<Rightarrow> u32 \<Rightarrow> bool" where
  "valid_gid v g \<longleftrightarrow> unat g < length (srv_sessions v)"

definition smap_of :: "(u64, watcher) umap list \<Rightarrow> u32 \<Rightarrow> u64 \<rightharpoonup> watcher" where
  "smap_of ms g = (if unat g < length ms then um_find (ms ! unat g) else Map.empty)"

definition stores_of :: "SaberServer \<Rightarrow> stores" where
  "stores_of v = \<lparr>ent = entry_at v, heap = session_at v, smap = smap_of (srv_sessions v),
     lks = srv_locked v, pend = srv_pending v, next_ref = srv_fresh v\<rparr>"

definition srv_okl :: "bool \<Rightarrow> SaberServer \<Rightarrow> bool" where
  "srv_okl L v \<longleftrightarrow> um_wf (srv_entries v) \<and> store_okl L (stores_of v) \<and>
     (\<forall>w s. session_at v w = Some s \<longrightarrow> valid_gid v (sess_group s)) \<and>
     (\<forall>c \<in> set (srv_pending v). valid_gid v (cx_group c))"

abbreviation srv_ok :: "SaberServer \<Rightarrow> bool" where
  "srv_ok \<equiv> srv_okl False"

lemma srv_okD: "srv_okl L v \<Longrightarrow> um_wf (srv_entries v)" "srv_okl L v \<Longrightarrow> store_okl L (stores_of v)"
  by (simp_all add: srv_okl_def)

lemma srv_okl_ok: "srv_okl L v \<Longrightarrow> srv_ok v"
  by (simp add: srv_okl_def store_okl_def)

lemma stores_of_simps [simp]:
  "ent (stores_of v) = entry_at v" "heap (stores_of v) = session_at v"
  "lks (stores_of v) = srv_locked v" "pend (stores_of v) = srv_pending v" "next_ref (stores_of v) = srv_fresh v"
  by (simp_all add: stores_of_def)

lemma valid_gid_put [simp]: "valid_gid (put_group_sessions g m v) h = valid_gid v h"
  by (simp add: valid_gid_def put_group_sessions_def)

lemma put_group_sessions_frame [simp]:
  "srv_entries (put_group_sessions g m v) = srv_entries v" "srv_heap (put_group_sessions g m v) = srv_heap v"
  "srv_pending (put_group_sessions g m v) = srv_pending v" "srv_fresh (put_group_sessions g m v) = srv_fresh v"
  "srv_locked (put_group_sessions g m v) = srv_locked v"
  "srv_buckets (put_group_sessions g m v) = srv_buckets v" "srv_db (put_group_sessions g m v) = srv_db v"
  by (simp_all add: put_group_sessions_def)

lemma stores_put_sessions:
  "valid_gid v g \<Longrightarrow> stores_of (put_group_sessions g m v) =
     (stores_of v)\<lparr>smap := (smap (stores_of v))(g := um_find m)\<rparr>"
  by (auto simp: stores_of_def smap_of_def put_group_sessions_def valid_gid_def fun_eq_iff
      nth_list_update dest: unsigned_word_eqI)

lemma smap_stores: "valid_gid v g \<Longrightarrow> smap (stores_of v) g = um_find (group_sessions g v)"
  by (simp add: stores_of_def smap_of_def group_sessions_def valid_gid_def)

subsection \<open>Holders of a session\<close>

lemma session_holders_set: "um_wf (srv_entries v) \<Longrightarrow> set (session_holders v w) = {e. holds (entry_at v) e w}"
  by (force simp: session_holders_def holds_def um_find_in_set)

lemma session_holders_distinct: "um_wf (srv_entries v) \<Longrightarrow> distinct (session_holders v w)"
  unfolding session_holders_def um_wf_def by (rule distinct_map_filter)

lemma unique_holder:
  assumes "um_wf (srv_entries v)" and "holds (entry_at v) e w"
  shows "length (session_holders v w) = 1 \<longleftrightarrow> (\<forall>x. holds (entry_at v) x w \<longrightarrow> x = e)"
proof -
  have "length (session_holders v w) = card {x. holds (entry_at v) x w}"
    using distinct_card [OF session_holders_distinct [OF assms(1)], of w] session_holders_set [OF assms(1)] by simp
  moreover have "card {x. holds (entry_at v) x w} = 1 \<longleftrightarrow> {x. holds (entry_at v) x w} = {e}"
  proof
    assume "card {x. holds (entry_at v) x w} = 1"
    then obtain y where y: "{x. holds (entry_at v) x w} = {y}" by (rule card_1_singletonE)
    moreover have "e \<in> {x. holds (entry_at v) x w}" using assms(2) by simp
    ultimately have "e = y" by simp
    then show "{x. holds (entry_at v) x w} = {e}" using y by simp
  qed simp
  ultimately show ?thesis using assms(2) by auto
qed

lemma no_holder: "um_wf (srv_entries v) \<Longrightarrow> session_holders v w = [] \<longleftrightarrow> (\<forall>x. \<not> holds (entry_at v) x w)"
  using session_holders_set [of v w] by (metis empty_Collect_eq set_empty)

lemma session_uses_0:
  "um_wf (srv_entries v) \<Longrightarrow> session_uses v w = 0 \<longleftrightarrow> (\<forall>x. \<not> holds (entry_at v) x w) \<and> w \<notin> set (srv_locked v)"
  by (simp add: session_uses_def count_list_0_iff no_holder)

lemma session_uses_1:
  assumes "um_wf (srv_entries v)" and "holds (entry_at v) e w"
  shows "session_uses v w = 1 \<longleftrightarrow> (\<forall>x. holds (entry_at v) x w \<longrightarrow> x = e) \<and> w \<notin> set (srv_locked v)"
proof -
  have "session_holders v w \<noteq> []" using no_holder [OF assms(1), of w] assms(2) by blast
  then show ?thesis using unique_holder [OF assms]
    by (cases "session_holders v w") (auto simp: session_uses_def count_list_0_iff)
qed

section \<open>The operations keep the invariant\<close>

lemma srv_ok_stores:
  assumes "srv_okl L v" and "um_wf (srv_entries v')" and "store_okl L (stores_of v')"
    and "srv_pending v' = srv_pending v" and "length (srv_sessions v') = length (srv_sessions v)"
    and "\<And>w s'. session_at v' w = Some s' \<Longrightarrow> \<exists>s. session_at v w = Some s \<and> sess_group s = sess_group s'"
  shows "srv_okl L v'"
  using assms unfolding srv_okl_def valid_gid_def by metis

lemma length_put_sessions [simp]: "length (srv_sessions (put_group_sessions g m v)) = length (srv_sessions v)"
  by (simp add: put_group_sessions_def)

lemma CloseSession_state:
  assumes "session_at v w = Some s"
  shows "fst (CloseSession pb env w v) =
    (if session_uses v w = 1
     then put_group_sessions (sess_group s) (um_erase (sess_id s) (group_sessions (sess_group s) v)) v else v)"
  using assms by (simp add: CloseSession_def Let_def)

lemma entry_dtor_state:
  assumes "entry_at v e = Some en" and "en_session en = Some w"
  shows "fst (entry_dtor pb env e v) =
    (fst (CloseSession pb env w v))\<lparr>srv_entries := um_erase e (srv_entries (fst (CloseSession pb env w v))),
       srv_locked := w # srv_locked (fst (CloseSession pb env w v))\<rparr>"
  using assms by (simp add: entry_dtor_def Let_def case_prod_beta)

lemma destroy_entry_state:
  assumes "entry_at v e = Some en" and "en_session en = Some w"
  shows "destroy_entry pb env e v = (unlock_session w (fst (entry_dtor pb env e v)), snd (entry_dtor pb env e v))"
  using assms by (simp add: destroy_entry_def Let_def case_prod_beta)

lemma held_session:
  assumes "srv_okl L v" and "holds (entry_at v) e w"
  obtains s where "session_at v w = Some s" "valid_gid v (sess_group s)"
proof -
  have "entries_ok (stores_of v)" using assms(1) by (simp add: srv_okl_def store_okl_def)
  then have "session_at v w \<noteq> None" using assms(2) by (auto simp: entries_ok_def holds_def)
  then show thesis using that assms(1) by (auto simp: srv_okl_def)
qed

text \<open>\<^verbatim>\<open>CloseSession\<close> may erase the registration of the session, and never adds one.\<close>

lemma srv_ok_CloseSession:
  assumes ok: "srv_okl L v" and s: "session_at v w = Some s" and g: "valid_gid v (sess_group s)"
  shows "srv_okl L (fst (CloseSession pb env w v))"
proof -
  let ?v = "put_group_sessions (sess_group s) (um_erase (sess_id s) (group_sessions (sess_group s) v)) v"
  have "stores_of ?v = (stores_of v)\<lparr>smap := (smap (stores_of v))(sess_group s := (smap (stores_of v) (sess_group s))(sess_id s := None))\<rparr>"
    by (simp add: stores_put_sessions [OF g] smap_stores [OF g])
  then have "store_okl L (stores_of ?v)" using ok_unregister [OF srv_okD(2) [OF ok]] by simp
  then have "srv_okl L ?v" by (intro srv_ok_stores [OF ok]) (use ok in \<open>auto simp: srv_okl_def\<close>)
  then show ?thesis using ok by (simp add: CloseSession_state [OF s])
qed

lemma CloseSession_frame:
  "srv_entries (fst (CloseSession pb env w v)) = srv_entries v" "srv_locked (fst (CloseSession pb env w v)) = srv_locked v"
  "srv_heap (fst (CloseSession pb env w v)) = srv_heap v" "srv_pending (fst (CloseSession pb env w v)) = srv_pending v"
  "srv_buckets (fst (CloseSession pb env w v)) = srv_buckets v" "srv_db (fst (CloseSession pb env w v)) = srv_db v"
  by (simp_all add: CloseSession_def Let_def split: option.split)

text \<open>The last holder takes the registration with it.\<close>

lemma CloseSession_unregisters:
  assumes ok: "srv_okl L v" and s: "session_at v w = Some s" and g: "valid_gid v (sess_group s)" and u: "session_uses v w = 1"
  shows "smap (stores_of (fst (CloseSession pb env w v))) h sid \<noteq> Some w"
proof -
  let ?m = "(smap (stores_of v))(sess_group s := (smap (stores_of v) (sess_group s))(sess_id s := None))"
  have "smap_ok (stores_of v)" using ok by (simp add: srv_okl_def store_okl_def)
  then have reg: "h = sess_group s \<and> sid = sess_id s" if "smap (stores_of v) h sid = Some w"
    using that s unfolding smap_ok_def stores_of_simps by metis
  have "smap (stores_of (fst (CloseSession pb env w v))) = ?m"
    using u by (simp add: CloseSession_state [OF s] stores_put_sessions [OF g] smap_stores [OF g])
  moreover have "?m h sid = (if h = sess_group s \<and> sid = sess_id s then None else smap (stores_of v) h sid)" by simp
  ultimately show ?thesis using reg by (metis option.distinct(1))
qed

lemma srv_ok_dtor:
  assumes ok: "srv_okl L v" and free: "\<not> entry_held v e"
    and calm: "\<And>en w. L \<Longrightarrow> entry_at v e = Some en \<Longrightarrow> en_session en = Some w \<Longrightarrow>
      w \<notin> set (srv_locked v) \<or> (\<exists>x. x \<noteq> e \<and> holds (entry_at v) x w)"
  shows "srv_okl L (fst (entry_dtor pb env e v))"
proof (cases "entry_at v e")
  case None
  then show ?thesis using ok by (simp add: entry_dtor_def)
next
  case (Some en)
  note en = Some
  have np: "\<forall>c \<in> set (srv_pending v). cx_entry c \<noteq> e" using free by (auto simp: entry_held_def)
  show ?thesis
  proof (cases "en_session en")
    case None
    let ?v = "v\<lparr>srv_entries := um_erase e (srv_entries v)\<rparr>"
    have "stores_of ?v = (stores_of v)\<lparr>ent := (entry_at v)(e := None)\<rparr>" by (simp add: stores_of_def)
    then have "store_okl L (stores_of ?v)" using ok_del_plain [OF srv_okD(2) [OF ok] _ None] np en by simp
    then have "srv_okl L ?v" by (intro srv_ok_stores [OF ok]) (use ok in \<open>auto simp: srv_okl_def\<close>)
    then show ?thesis by (simp add: entry_dtor_def Let_def en None)
  next
    case (Some w)
    have h: "holds (entry_at v) e w" using en Some by (simp add: holds_def)
    obtain s where s: "session_at v w = Some s" and g: "valid_gid v (sess_group s)" by (rule held_session [OF ok h])
    let ?v1 = "fst (CloseSession pb env w v)"
    let ?v2 = "?v1\<lparr>srv_entries := um_erase e (srv_entries ?v1), srv_locked := w # srv_locked ?v1\<rparr>"
    note fr = CloseSession_frame [of pb env w v]
    have ok1: "srv_okl L ?v1" by (rule srv_ok_CloseSession [OF ok s g])
    have "(\<exists>x. x \<noteq> e \<and> holds (entry_at v) x w) \<or> (\<forall>h sid. smap (stores_of ?v1) h sid \<noteq> Some w)" if L
      using calm [OF that en Some] session_uses_1 [OF srv_okD(1) [OF ok] h] CloseSession_unregisters [OF ok s g] by blast
    moreover have "stores_of ?v2 = (stores_of ?v1)\<lparr>ent := (entry_at ?v1)(e := None), lks := w # srv_locked ?v1\<rparr>"
      by (simp add: stores_of_def)
    ultimately have "store_okl L (stores_of ?v2)"
      using ok_del_entry [OF srv_okD(2) [OF ok1], of e w] h np by (simp add: fr)
    then have "srv_okl L ?v2" by (intro srv_ok_stores [OF ok1]) (use ok in \<open>auto simp: srv_okl_def fr\<close>)
    then show ?thesis by (simp add: entry_dtor_state [OF en Some])
  qed
qed

lemma srv_ok_lock: "srv_okl L v \<Longrightarrow> srv_okl L (lock_session w v)"
proof -
  assume ok: "srv_okl L v"
  have "stores_of (v\<lparr>srv_locked := w # srv_locked v\<rparr>) = (stores_of v)\<lparr>lks := w # srv_locked v\<rparr>" by (simp add: stores_of_def)
  then have "srv_okl L (v\<lparr>srv_locked := w # srv_locked v\<rparr>)" if "session_at v w \<noteq> None"
    using ok_lock [OF srv_okD(2) [OF ok], of w] that by (intro srv_ok_stores [OF ok]) (use ok in \<open>auto simp: srv_okl_def\<close>)
  then show ?thesis using ok by (simp add: lock_session_def split: option.split)
qed

lemma srv_ok_unlock: "srv_okl L v \<Longrightarrow> srv_okl L (unlock_session w v)"
proof -
  assume ok: "srv_okl L v"
  let ?v = "v\<lparr>srv_locked := remove1 w (srv_locked v)\<rparr>"
  have wf: "um_wf (srv_entries ?v)" using ok by (simp add: srv_okl_def)
  have st: "stores_of ?v = (stores_of v)\<lparr>lks := remove1 w (srv_locked v)\<rparr>" by (simp add: stores_of_def)
  have uses: "session_uses ?v w = 0 \<longleftrightarrow> (\<forall>x. \<not> holds (entry_at v) x w) \<and> w \<notin> set (remove1 w (srv_locked v))"
    using session_uses_0 [OF wf, of w] by simp
  show ?thesis
  proof (cases "session_uses ?v w = 0 \<and> session_at v w \<noteq> None")
    case True
    then obtain s where s: "session_at v w = Some s" by blast
    let ?u = "?v\<lparr>srv_db := SaberSession_destroy s (srv_db v), srv_heap := um_erase w (srv_heap v)\<rparr>"
    have "stores_of ?u = (stores_of v)\<lparr>lks := remove1 w (srv_locked v), heap := (session_at v)(w := None)\<rparr>" by (simp add: stores_of_def)
    then have "store_okl L (stores_of ?u)" using ok_unlock_last [OF srv_okD(2) [OF ok], of w] True uses by simp
    then have "srv_okl L ?u" by (intro srv_ok_stores [OF ok]) (use wf in \<open>auto split: if_splits\<close>)
    then show ?thesis using True s by (simp add: unlock_session_def drop_session_def)
  next
    case False
    have "store_okl L (stores_of ?v)"
    proof (cases "w \<in> set (remove1 w (srv_locked v)) \<or> (\<exists>x. holds (entry_at v) x w)")
      case True
      then show ?thesis using ok_unlock_shared [OF srv_okD(2) [OF ok], of w] by (simp add: st)
    next
      case no: False
      then have "session_at v w = None" using False uses by blast
      then have "w \<notin> set (srv_locked v)" using srv_okD(2) [OF ok] by (auto simp: store_okl_def locks_ok_def)
      then have "stores_of ?v = stores_of v" by (simp add: stores_of_def remove1_idem)
      then show ?thesis using srv_okD(2) [OF ok] by simp
    qed
    then have "srv_okl L ?v" by (intro srv_ok_stores [OF ok]) (use wf in auto)
    moreover have "unlock_session w v = ?v" using False by (auto simp: unlock_session_def drop_session_def split: option.split)
    ultimately show ?thesis by simp
  qed
qed

lemma srv_ok_destroy:
  assumes "srv_ok v" and "\<not> entry_held v e"
  shows "srv_ok (fst (destroy_entry pb env e v))"
  using srv_ok_dtor [OF assms, of pb env] srv_ok_unlock
  by (simp add: destroy_entry_def Let_def case_prod_beta split: option.split)

lemma srv_ok_frame:
  assumes "srv_okl L v" and "srv_entries v' = srv_entries v" and "srv_heap v' = srv_heap v"
    and "srv_sessions v' = srv_sessions v" and "srv_pending v' = srv_pending v" and "srv_fresh v' = srv_fresh v"
    and "srv_locked v' = srv_locked v"
  shows "srv_okl L v'"
proof -
  have "stores_of v' = stores_of v" using assms by (simp add: stores_of_def)
  then show ?thesis using assms by (simp add: srv_okl_def valid_gid_def)
qed

lemma srv_ok_entry:
  assumes ok: "srv_okl L v" and e: "entry_at v e = Some en" and so: "same_owner en en'"
  shows "srv_okl L (v\<lparr>srv_entries := um_set e en' (srv_entries v)\<rparr>)" (is "srv_okl L ?v")
proof -
  have "stores_of ?v = (stores_of v)\<lparr>ent := (entry_at v)(e \<mapsto> en')\<rparr>"
    by (simp add: stores_of_def)
  then have "store_okl L (stores_of ?v)" using ok_touch [of L "stores_of v" e en en'] ok e so by (simp add: srv_okl_def)
  then show ?thesis by (intro srv_ok_stores [OF ok]) (use ok in \<open>auto simp: srv_okl_def\<close>)
qed

lemma srv_ok_touch_entry: "srv_okl L v \<Longrightarrow> touch_entry env p e v = Some v' \<Longrightarrow> srv_okl L v'"
proof -
  assume ok: "srv_okl L v" and T: "touch_entry env p e v = Some v'"
  then obtain q en q' i where en: "entry_at v e = Some en"
    and v': "v' = v\<lparr>srv_buckets := um_set (env_loop env p) q' (srv_buckets v),
                    srv_entries := um_set e (en\<lparr>en_index := i\<rparr>) (srv_entries v)\<rparr>"
    by (auto simp: touch_entry_def split: option.splits)
  have "srv_okl L (v\<lparr>srv_entries := um_set e (en\<lparr>en_index := i\<rparr>) (srv_entries v)\<rparr>)"
    by (rule srv_ok_entry [OF ok en]) (simp add: same_owner_def)
  then show ?thesis by (rule srv_ok_frame) (simp_all add: v')
qed

end
