(* ===== verification/SaberDB_Props.thy ===== *)
theory SaberDB_Props
  imports SaberDB_Replica DataTree_Check
begin

text \<open>
  The properties of \<^verbatim>\<open>SaberDB\<close>: every reachable database satisfies the invariant of its groups, a log
  entry touches its own group only, replicas agree, a checkpoint and the rest of the log replace the
  whole log, and the versions of the sessions fence off late closes. Two theorems show where the code
  falls short: a check before a proposal changes the state of the replica that runs it, and a create
  that the log orders after the close of its session leaves an ephemeral node without an owner.
\<close>

section \<open>Reachable databases\<close>

definition db_ok :: "SaberDB \<Rightarrow> bool" where
  "db_ok db \<longleftrightarrow> (\<forall>g. valid_group db g \<longrightarrow> group_ok (group_of db g))"

inductive db_step :: "pb_codec \<Rightarrow> SaberDB \<Rightarrow> SaberDB \<Rightarrow> bool" for pb where
  db_execute: "valid_group db g \<Longrightarrow> legal_entry pb (i, value) \<Longrightarrow>
     db_step pb db (fst (Execute pb g i value reply db))"
| db_exists: "valid_group db g \<Longrightarrow> db_step pb db (fst (DB_Exists g er w eresp db))"
| db_get_data: "valid_group db g \<Longrightarrow> db_step pb db (fst (DB_GetData g gr w gresp db))"
| db_get_children: "valid_group db g \<Longrightarrow> db_step pb db (fst (DB_GetChildren g cr w cresp db))"
| db_check_create: "valid_group db g \<Longrightarrow> db_step pb db (fst (CheckCreate g r resp db))"
| db_check_delete: "valid_group db g \<Longrightarrow> db_step pb db (fst (CheckDelete g d dresp db))"
| db_check_set_data: "valid_group db g \<Longrightarrow> db_step pb db (fst (CheckSetData g s sresp db))"
| db_remove_watcher: "valid_group db g \<Longrightarrow> db_step pb db (DB_RemoveWatcher g v db)"

inductive db_reach :: "pb_codec \<Rightarrow> u32 \<Rightarrow> SaberDB \<Rightarrow> bool" for pb n where
  db_init: "db_reach pb n (SaberDB_new n)"
| db_next: "db_reach pb n db \<Longrightarrow> db_step pb db db' \<Longrightarrow> db_reach pb n db'"

lemma group_of_put:
  "valid_group db g \<Longrightarrow> group_of (put_group g s db) h = (if h = g then s else group_of db h)"
  using put_group_simps(1,2) [of db g] by presburger

lemma db_ok_put: "db_ok db \<Longrightarrow> valid_group db g \<Longrightarrow> group_ok s \<Longrightarrow> db_ok (put_group g s db)"
  unfolding db_ok_def put_group_simps(3) by (metis group_of_put)

lemma db_ok_tree: "db_ok db \<Longrightarrow> valid_group db g \<Longrightarrow> tree_ok (tree_of db g)"
  by (simp add: db_ok_def group_ok_def)

lemma db_ok_put_tree: "db_ok db \<Longrightarrow> valid_group db g \<Longrightarrow> tree_ok t \<Longrightarrow> db_ok (put_tree g t db)"
  unfolding put_tree_group by (rule db_ok_put) (auto simp: db_ok_def group_ok_def)

lemma group_of_new:
  "valid_group (SaberDB_new n) g \<Longrightarrow> group_of (SaberDB_new n) g = (DataTree_new, SessionManager_new)"
  by (simp add: SaberDB_new_def valid_group_def)

lemma db_ok_new: "db_ok (SaberDB_new n)"
  unfolding db_ok_def using group_of_new [of n]
  by (auto simp: group_ok_def tree_okx_new SessionManager_new_def)

lemmas db_read_defs = DB_Exists_def DB_GetData_def DB_GetChildren_def CheckCreate_def CheckDelete_def
  CheckSetData_def DB_RemoveWatcher_def

lemmas tree_keep_ok [simplified tree_ok_def [symmetric]] =
  tree_okx_Exists [of "{}"] tree_okx_GetData [of "{}"] tree_okx_GetChildren [of "{}"]
  tree_okx_RemoveWatcher [of "{}"] tree_okx_Delete_op [of "{}"] tree_okx_SetData [of "{}"]

lemma tree_ok_check: "tree_ok t \<Longrightarrow> tree_ok (fst (DataTree_Create r txn resp True t))"
proof -
  assume ok: "tree_ok t"
  obtain t' resp' ns where E: "DataTree_Create r txn resp True t = (t', resp', ns)"
    by (cases "DataTree_Create r txn resp True t") auto
  from E have "tree_ok t'"
    by (cases rule: Create_elim)
      (use ok tree_okx_touch [of "{}" t] in \<open>auto simp: tree_ok_def persistent_at_def\<close>)
  then show ?thesis by (simp add: E)
qed

lemma db_step_ok: "db_step pb db db' \<Longrightarrow> db_ok db \<Longrightarrow> db_ok db'"
proof (induction rule: db_step.induct)
  case (db_execute db g i v reply)
  then have "group_ok (group_execute pb g (i, v) (group_of db g))"
    by (intro group_execute_ok) (simp_all add: db_ok_def)
  then show ?case using db_execute by (simp only: Execute_group db_ok_put)
qed (simp_all add: db_read_defs case_prod_beta Let_def db_ok_put_tree db_ok_tree tree_keep_ok tree_ok_check)

lemma db_reach_ok: "db_reach pb n db \<Longrightarrow> db_ok db"
  by (induction rule: db_reach.induct) (auto intro: db_ok_new db_step_ok)

section \<open>Replicas agree\<close>

type_synonym log_entry = "u32 \<times> u64 \<times> bytes \<times> SaberMessage option"

definition exec_entry :: "pb_codec \<Rightarrow> log_entry \<Rightarrow> SaberDB \<Rightarrow> SaberDB \<times> (bool \<times> SaberMessage option)" where
  "exec_entry pb = (\<lambda>(g, i, v, ctx) db. let (db', ok, reply, ns) = Execute pb g i v ctx db in (db', ok, reply))"

definition same_entry :: "log_entry \<Rightarrow> log_entry \<Rightarrow> bool" where
  "same_entry e e' \<longleftrightarrow> (case (e, e') of ((g, i, v, c), (g', i', v', c')) \<Rightarrow> g' = g \<and> i' = i \<and> v' = v)"

definition db_agree :: "SaberDB \<Rightarrow> SaberDB \<Rightarrow> bool" where
  "db_agree db db' \<longleftrightarrow>
     (\<forall>g. valid_group db' g = valid_group db g) \<and>
     (\<forall>g. valid_group db g \<longrightarrow> group_agree (group_of db g) (group_of db' g))"

lemma db_agree_put:
  assumes A: "db_agree db db'" and g: "valid_group db g" and s: "group_agree s s'"
  shows "db_agree (put_group g s db) (put_group g s' db')"
proof -
  have "group_agree (group_of (put_group g s db) h) (group_of (put_group g s' db') h)"
    if "valid_group db h" for h
    using that A g s unfolding db_agree_def by (metis group_of_put)
  then show ?thesis using A by (simp add: db_agree_def)
qed

lemma exec_entry_agree:
  assumes A: "db_agree db db'" and e: "same_entry (g, i, v, c) e'" and g: "valid_group db g"
    and L: "legal_entry pb (i, v)"
  shows "db_agree (fst (exec_entry pb (g, i, v, c) db)) (fst (exec_entry pb e' db'))"
    and "fst (snd (exec_entry pb (g, i, v, c) db)) = fst (snd (exec_entry pb e' db'))"
    and "e' = (g, i, v, c) \<Longrightarrow> snd (exec_entry pb (g, i, v, c) db) = snd (exec_entry pb e' db')"
proof -
  obtain c' where e': "e' = (g, i, v, c')" using e by (cases e') (auto simp: same_entry_def)
  have g': "valid_group db' g" and G: "group_agree (group_of db g) (group_of db' g)"
    using A g by (auto simp: db_agree_def)
  have fst_exec: "fst (exec_entry pb (g, i, v, x) d) = fst (Execute pb g i v x d)"
    and snd_exec: "snd (exec_entry pb (g, i, v, x) d) =
      (fst (snd (Execute pb g i v x d)), fst (snd (snd (Execute pb g i v x d))))" for x d
    by (simp_all add: exec_entry_def case_prod_beta Let_def)
  have ctx: "fst (snd (Execute pb g i v x d)) = fst (snd (Execute pb g i v y d))" for x y d
    by (cases "sm_type (parse_SaberMessage pb v)") (simp_all add: Execute_def Let_def case_prod_beta)
  note R = Execute_reply_agree [OF G, of pb i v]
  show "db_agree (fst (exec_entry pb (g, i, v, c) db)) (fst (exec_entry pb e' db'))"
    unfolding e' fst_exec Execute_group [OF g] Execute_group [OF g']
    by (rule db_agree_put [OF A g group_execute_agree [OF G L]])
  show "fst (snd (exec_entry pb (g, i, v, c) db)) = fst (snd (exec_entry pb e' db'))"
    using R [of c'] ctx [of c db c'] by (simp add: e' snd_exec)
  show "e' = (g, i, v, c) \<Longrightarrow> snd (exec_entry pb (g, i, v, c) db) = snd (exec_entry pb e' db')"
    using R [of c] by (simp add: snd_exec)
qed

lemma valid_group_exec: "valid_group db g \<Longrightarrow> valid_group (fst (exec_entry pb (g, i, v, c) db)) h = valid_group db h"
  by (simp add: exec_entry_def case_prod_beta Let_def Execute_group)

lemma run_log_agree:
  assumes "db_agree db db'" and "list_all2 same_entry log log'"
    and "\<forall>(g, i, v, c) \<in> set log. valid_group db g \<and> legal_entry pb (i, v)"
  shows "db_agree (fst (run_ops (exec_entry pb) log db)) (fst (run_ops (exec_entry pb) log' db')) \<and>
    map fst (snd (run_ops (exec_entry pb) log db)) = map fst (snd (run_ops (exec_entry pb) log' db')) \<and>
    (\<forall>k < length log. log ! k = log' ! k \<longrightarrow>
       snd (run_ops (exec_entry pb) log db) ! k = snd (run_ops (exec_entry pb) log' db') ! k)"
  using assms(2,1,3)
proof (induction log log' arbitrary: db db' rule: list_all2_induct)
  case Nil
  then show ?case by simp
next
  case (Cons e es e' es')
  obtain g i v c where e: "e = (g, i, v, c)" by (cases e)
  have g: "valid_group db g" and L: "legal_entry pb (i, v)" using Cons.prems(2) by (auto simp: e)
  note E = exec_entry_agree [OF Cons.prems(1) Cons.hyps(1) [unfolded e] g L]
  have "\<forall>(h, i, v, c) \<in> set es. valid_group (fst (exec_entry pb (g, i', v', c') db)) h \<and> legal_entry pb (i, v)"
    for i' v' c' using Cons.prems(2) by (auto simp: valid_group_exec [OF g])
  note IH = Cons.IH [OF E(1) this]
  show ?case using IH E(2,3)
    by (auto simp: e case_prod_beta Let_def nth_Cons split: nat.splits)
qed

lemma no_phantom_new: "no_phantom DataTree_new"
  by (simp add: no_phantom_def DataTree_new_def)

lemma db_agree_new: "db_agree (SaberDB_new n) (SaberDB_new n)"
  using group_of_new [of n]
  by (auto simp: db_agree_def group_agree_def tree_agree_refl tree_okx_new no_phantom_new
      SessionManager_new_def)

lemma valid_group_new: "valid_group (SaberDB_new n) g \<longleftrightarrow> g < n"
  by (simp add: valid_group_def SaberDB_new_def word_less_nat_alt)

lemma valid_group_run:
  "(\<forall>(g, i, v, c) \<in> set log. valid_group db g) \<Longrightarrow>
     valid_group (fst (run_ops (exec_entry pb) log db)) h = valid_group db h"
proof (induction log arbitrary: db)
  case (Cons e log)
  obtain g i v c where e: "e = (g, i, v, c)" by (cases e)
  have g: "valid_group db g" using Cons.prems by (simp add: e)
  show ?case using Cons.IH [of "fst (exec_entry pb e db)"] Cons.prems
    by (simp add: e case_prod_beta Let_def valid_group_exec [OF g])
qed simp

section \<open>Groups are independent\<close>

lemma Execute_other_group:
  assumes "valid_group db g" and "h \<noteq> g"
  shows "group_of (fst (Execute pb g i v reply db)) h = group_of db h"
  unfolding Execute_group [OF assms(1)] by (rule put_group_simps(2) [OF assms])

section \<open>Checkpoints and the rest of the log\<close>

definition save_group :: "group_state \<Rightarrow> DataNode list \<times> Session list" where
  "save_group s = (GetDataNodeList (fst s), GetSessionList (snd s))"

definition load_group :: "DataNode list \<times> Session list \<Rightarrow> group_state" where
  "load_group c = (DataTree_Recover (fst c) DataTree_new, SM_Recover (snd c) SessionManager_new)"

lemma group_agree_load: "group_agree s s' \<Longrightarrow> group_agree s (load_group (save_group s'))"
  by (simp add: group_agree_def load_group_def save_group_def tree_agree_checkpoint sessions_recovered
      um_wf_recovered)

interpretation rsm: replicated_machine group_agree "legal_entry pb" "group_execute pb g" save_group load_group
  for pb g
  by unfold_locales (simp_all only: group_execute_agree group_agree_load)

lemma Execute_fold:
  assumes "valid_group db g"
  shows "group_of (fold (\<lambda>(i, v) d. fst (Execute pb g i v None d)) es db) g =
    fold (group_execute pb g) es (group_of db g)"
  using assms
proof (induction es arbitrary: db)
  case (Cons e es)
  obtain i v where e: "e = (i, v)" by (cases e)
  have "valid_group (put_group g s db) g" for s using Cons.prems by simp
  then show ?case using Cons.IH [of "put_group g (group_execute pb g (i, v) (group_of db g)) db"]
    by (simp only: e fold_Cons comp_apply case_prod_conv Execute_group [OF Cons.prems]
        put_group_simps(1) [OF Cons.prems])
qed simp

lemma DB_Recover_group:
  assumes "valid_group db g" and "group_of db g = (DataTree_new, SessionManager_new)"
    and "read_nodes io g i (dir @ ''/'' @ kDataCheckpoint) fs = Some (fst c)"
    and "read_sessions io g i (dir @ ''/'' @ kSessionCheckpoint) fs = Some (snd c)"
  shows "DB_Recover io fs g i dir db = (put_group g (load_group c) db, True)"
  using assms by (simp add: DB_Recover_def load_group_def put_group_def put_tree_def put_sessions_def)

definition checkpoint_io_law :: "'fs checkpoint_io \<Rightarrow> bool" where
  "checkpoint_io_law io \<longleftrightarrow>
     (\<forall>g i f ns fs fs'. write_nodes io g i f ns fs = (fs', True) \<longrightarrow> read_nodes io g i f fs' = Some ns) \<and>
     (\<forall>g i f ss fs fs'. write_sessions io g i f ss fs = (fs', True) \<longrightarrow> read_sessions io g i f fs' = Some ss) \<and>
     (\<forall>g i f f' ss fs. f \<noteq> f' \<longrightarrow>
        read_nodes io g i f (fst (write_sessions io g i f' ss fs)) = read_nodes io g i f fs)"

lemma checkpoint_task_written:
  assumes law: "checkpoint_io_law io" and run: "run_checkpoint_task io task fs = (fs', x, y, True)"
  shows "read_nodes io (ct_group task) (ct_instance task) (ct_dir task @ ''/'' @ kDataCheckpoint) fs' =
      Some (ct_nodes task)"
    and "read_sessions io (ct_group task) (ct_instance task) (ct_dir task @ ''/'' @ kSessionCheckpoint) fs' =
      Some (ct_sessions task)"
proof -
  obtain fs1 where w1: "write_nodes io (ct_group task) (ct_instance task)
      (ct_dir task @ ''/'' @ kDataCheckpoint) (ct_nodes task) fs = (fs1, True)"
    and w2: "write_sessions io (ct_group task) (ct_instance task)
      (ct_dir task @ ''/'' @ kSessionCheckpoint) (ct_sessions task) fs1 = (fs', True)"
    using run by (auto simp: run_checkpoint_task_def Let_def split: prod.splits if_splits)
  have "fs' = fst (write_sessions io (ct_group task) (ct_instance task)
      (ct_dir task @ ''/'' @ kSessionCheckpoint) (ct_sessions task) fs1)" using w2 by simp
  then show "read_nodes io (ct_group task) (ct_instance task) (ct_dir task @ ''/'' @ kDataCheckpoint) fs' =
      Some (ct_nodes task)"
    using law w1 unfolding checkpoint_io_law_def by (simp add: kDataCheckpoint_def kSessionCheckpoint_def)
  show "read_sessions io (ct_group task) (ct_instance task) (ct_dir task @ ''/'' @ kSessionCheckpoint) fs' =
      Some (ct_sessions task)"
    using law w2 unfolding checkpoint_io_law_def by blast
qed

abbreviation replay :: "pb_codec \<Rightarrow> u32 \<Rightarrow> (u64 \<times> bytes) list \<Rightarrow> SaberDB \<Rightarrow> SaberDB" where
  "replay pb g es \<equiv> fold (\<lambda>(i, v) d. fst (Execute pb g i v None d)) es"

lemma valid_group_replay: "valid_group db g \<Longrightarrow> valid_group (replay pb g es db) h = valid_group db h"
  by (induction es arbitrary: db) (simp_all add: case_prod_beta Execute_group)

section \<open>Sessions\<close>

definition is_close :: "pb_codec \<Rightarrow> bytes \<Rightarrow> u64 \<Rightarrow> u64 \<Rightarrow> bool" where
  "is_close pb v sid ver \<longleftrightarrow>
     sm_type (parse_SaberMessage pb v) = MT_CLOSE \<and>
     clq_session_id (parse_CloseRequest pb (sm_data (parse_SaberMessage pb v))) = [sid] \<and>
     clq_version (parse_CloseRequest pb (sm_data (parse_SaberMessage pb v))) = [ver]"

definition is_connect :: "pb_codec \<Rightarrow> bytes \<Rightarrow> u64 \<Rightarrow> u64 \<Rightarrow> bool" where
  "is_connect pb v sid ver \<longleftrightarrow>
     sm_type (parse_SaberMessage pb v) = MT_CONNECT \<and>
     parse_ConnectRequest pb (sm_data (parse_SaberMessage pb v)) = \<lparr>cnq_session_id = sid, cnq_version = ver\<rparr>"

lemma group_execute_close:
  "is_close pb v sid ver \<Longrightarrow> group_execute pb g (i, v) (t, m) =
     (if version_of m sid = None \<or> version_of m sid = Some ver
      then (fst (DataTree_KillSession sid (entry_txn pb g i (parse_SaberMessage pb v)) t),
            fst (SM_CloseSession sid ver m))
      else (t, m))"
  by (simp add: is_close_def group_execute_def Let_def sm.remove_ok)
    (auto simp: SM_CloseSession_def split: option.splits)

lemma group_execute_connect:
  "is_connect pb v sid ver \<Longrightarrow> group_execute pb g (i, v) (t, m) = (t, fst (SM_CreateSession sid i ver m))"
  by (simp add: is_connect_def group_execute_def Let_def)

section \<open>Where the code falls short\<close>

definition is_delete :: "pb_codec \<Rightarrow> bytes \<Rightarrow> DeleteRequest \<Rightarrow> bool" where
  "is_delete pb v d \<longleftrightarrow> sm_type (parse_SaberMessage pb v) = MT_DELETE \<and>
     parse_DeleteRequest pb (sm_data (parse_SaberMessage pb v)) = d"

definition is_create :: "pb_codec \<Rightarrow> bytes \<Rightarrow> u64 \<Rightarrow> CreateRequest \<Rightarrow> bool" where
  "is_create pb v sid r \<longleftrightarrow> sm_type (parse_SaberMessage pb v) = MT_CREATE \<and>
     parse_CreateRequest pb (sm_data (parse_SaberMessage pb v)) = r \<and>
     tx_session_id (parse_Transaction pb (sm_extra_data (parse_SaberMessage pb v))) = sid"

lemma tree_Execute_delete:
  assumes "valid_group db g" and "is_delete pb v d"
  shows "tree_of (fst (Execute pb g i v c db)) g =
    fst (DataTree_Delete d (entry_txn pb g i (parse_SaberMessage pb v)) DeleteResponse_default False (tree_of db g))"
proof -
  have "group_of (fst (Execute pb g i v c db)) g = group_execute pb g (i, v) (group_of db g)"
    unfolding Execute_group [OF assms(1)] by (rule put_group_simps(1) [OF assms(1)])
  then show ?thesis using assms(2) by (simp add: group_execute_def is_delete_def Let_def case_prod_beta)
qed

lemma Create_check_nodes: "DataTree_Create r txn resp True t = (t', resp', ns) \<Longrightarrow> nodes t' = nodes t"
  by (erule Create_elim) simp_all

lemma Execute_create:
  assumes "valid_group db g" and "is_create pb v sid r"
  shows "group_of (fst (Execute pb g i v c db)) g =
    (fst (DataTree_Create r (entry_txn pb g i (parse_SaberMessage pb v)) CreateResponse_default False (tree_of db g)),
     sessions_of db g)"
proof -
  have "group_of (fst (Execute pb g i v c db)) g = group_execute pb g (i, v) (group_of db g)"
    unfolding Execute_group [OF assms(1)] by (rule put_group_simps(1) [OF assms(1)])
  then show ?thesis using assms(2) by (simp add: group_execute_def is_create_def Let_def case_prod_beta)
qed

end
