(* ===== verification/SaberSession_Props.thy ===== *)
theory SaberSession_Props
  imports SaberSession SaberDB_Props "HOL-Library.Sublist"
begin

text \<open>
  A session in its environment: messages arrive, queued messages run, proposals are answered, the
  client reconnects, and the log changes the database, in any order. The invariant: at most one
  request is being worked on, it is when any waits, and what was answered, is worked on and waits is
  in the order of arrival.
\<close>

section \<open>Effects\<close>

fun eff_queued :: "session_effect list \<Rightarrow> SaberMessage list" where
  "eff_queued [] = []"
| "eff_queued (QueueHandle m # out) = m # eff_queued out"
| "eff_queued (_ # out) = eff_queued out"

fun eff_proposed :: "session_effect list \<Rightarrow> SaberMessage list" where
  "eff_proposed [] = []"
| "eff_proposed (ProposeEntry g v m # out) = m # eff_proposed out"
| "eff_proposed (_ # out) = eff_proposed out"

fun eff_sent :: "session_effect list \<Rightarrow> SaberMessage list" where
  "eff_sent [] = []"
| "eff_sent (SendMessage c m # out) = m # eff_sent out"
| "eff_sent (_ # out) = eff_sent out"

abbreviation ids :: "SaberMessage list \<Rightarrow> u32 list" where
  "ids \<equiv> map sm_id"

text \<open>
  The contract of every function that works on the current message \<open>m\<close>: it answers, queues or
  proposes at most one message, and does so in order.
\<close>

definition handled :: "SaberMessage \<Rightarrow> SaberSession \<Rightarrow> SaberSession \<Rightarrow> session_effect list \<Rightarrow> bool" where
  "handled m s s' out \<longleftrightarrow>
     subseq (ids (eff_sent out) @ ids (eff_queued out @ eff_proposed out) @ ids (pending_messages s'))
       (sm_id m # ids (pending_messages s)) \<and>
     length (eff_queued out @ eff_proposed out) = (if last_finished s' then 0 else 1) \<and>
     (last_finished s' \<longrightarrow> pending_messages s' = [])"

lemma handled_cong: "sm_id m' = sm_id m \<Longrightarrow> handled m' s s' out \<Longrightarrow> handled m s s' out"
  by (simp add: handled_def)

lemma handled_Done:
  "\<not> last_finished s \<Longrightarrow> Done env m s = (s', out) \<Longrightarrow> handled m s s' out"
  by (auto simp: Done_def Let_def handled_def split: if_splits list.splits option.splits)

lemma SetFailedState_id [simp]: "sm_id (SetFailedState pb m) = sm_id m"
  by (simp add: SetFailedState_def split: MessageType.splits)

lemma handled_update [simp]:
  "handled (m\<lparr>sm_data := d\<rparr>) = handled m"
  "handled (m\<lparr>sm_extra_data := x\<rparr>) = handled m"
  "handled (SetFailedState pb m) = handled m"
  by (simp_all add: handled_def fun_eq_iff)

lemma handled_Propose:
  assumes "\<not> last_finished s" and "Propose pb env m s = (s', out)"
  shows "handled m s s' out"
proof (cases "\<exists>r v. (s', out) = (s, [ProposeEntry (sess_group s) v r]) \<and> sm_id r = sm_id m")
  case True
  then show ?thesis using assms(1) by (auto simp: handled_def)
next
  case False
  then obtain r where "Done env r s = (s', out)" and r: "handled r = handled m"
    using assms(2) by (auto simp: Propose_def Let_def split: if_splits)
  then show ?thesis using handled_Done [OF assms(1), of env r s' out] by simp
qed

lemma handled_WeakCallback:
  "\<not> last_finished s \<Longrightarrow> WeakCallback pb env ok m s = (s', out) \<Longrightarrow> handled m s s' out"
  by (auto simp: WeakCallback_def dest!: handled_Done split: if_splits)

lemma DoIt_switch_id: "sm_id (fst (DoIt_switch pb env m s db)) = sm_id m"
  by (cases "sm_type m") (simp_all add: DoIt_switch_def Let_def case_prod_beta)

lemma handled_DoIt:
  assumes "\<not> last_finished s" and "DoIt pb env m s db = (s', db', out)"
  shows "handled m s s' out"
proof -
  obtain m1 db1 fin where D: "DoIt_switch pb env m s db = (m1, db1, fin)"
    by (cases "DoIt_switch pb env m s db") auto
  have "sm_id m1 = sm_id m" using DoIt_switch_id [of pb env m s db] by (simp add: D)
  moreover have "handled m1 s s' out"
    using assms handled_Done [of s env m1] handled_Propose [of s pb env m1]
    by (auto simp: DoIt_def D Let_def split: if_splits prod.splits)
  ultimately show ?thesis by (rule handled_cong)
qed

lemma handled_HandleMessage:
  assumes "\<not> last_finished s" and "HandleMessage pb env m s db = (s', db', out)"
  shows "handled m s s' out"
proof (cases "sm_type m \<noteq> MT_MASTER \<and> env_is_master env (sess_group s)")
  case True
  then show ?thesis using assms handled_DoIt by (simp add: HandleMessage_def)
next
  case False
  let ?m = "m\<lparr>sm_type := MT_MASTER, sm_data := ser_Master pb (master_message env (sess_group s))\<rparr>"
  have "Done env ?m s = (s', out)" using False assms(2) by (auto simp: HandleMessage_def Let_def split: prod.splits)
  then have "handled ?m s s' out" by (rule handled_Done [OF assms(1)])
  then show ?thesis by (rule handled_cong [rotated]) simp
qed

section \<open>The session as a state machine\<close>

text \<open>Beside the session: what is queued in the event loop and what is proposed, and for the record what was received
  and sent and the versions the session has had.\<close>

record session_sys =
  sys_sess :: SaberSession
  sys_db :: SaberDB
  sys_queued :: "SaberMessage list"
  sys_proposed :: "SaberMessage list"
  sys_received :: "SaberMessage list"
  sys_sent :: "SaberMessage list"
  sys_versions :: "u64 list"

definition absorb :: "SaberSession \<Rightarrow> SaberDB \<Rightarrow> session_effect list \<Rightarrow> session_sys \<Rightarrow> session_sys" where
  "absorb s db out y =
     y\<lparr>sys_sess := s, sys_db := db,
       sys_queued := sys_queued y @ eff_queued out,
       sys_proposed := sys_proposed y @ eff_proposed out,
       sys_sent := sys_sent y @ eff_sent out\<rparr>"

inductive session_step :: "pb_codec \<Rightarrow> session_sys \<Rightarrow> session_sys \<Rightarrow> bool" for pb where
  on_message: "OnMessage pb env m (sys_sess y) (sys_db y) = (b, s, db, out) \<Longrightarrow>
     session_step pb y (absorb s db out (y\<lparr>sys_received := sys_received y @ [m]\<rparr>))"
| run_queued: "sys_queued y = m # q \<Longrightarrow>
     HandleMessage pb env m (sys_sess y) (sys_db y) = (s, db, out) \<Longrightarrow>
     session_step pb y (absorb s db out (y\<lparr>sys_queued := q\<rparr>))"
| callback: "sys_proposed y = m # q \<Longrightarrow>
     WeakCallback pb env ok (m\<lparr>sm_data := d\<rparr>) (sys_sess y) = (s, out) \<Longrightarrow>
     session_step pb y (absorb s (sys_db y) out (y\<lparr>sys_proposed := q\<rparr>))"
| reconnect: "session_step pb y (y\<lparr>sys_sess := (OnConnect p (sys_sess y))\<lparr>sess_version := v\<rparr>, sys_versions := v # sys_versions y\<rparr>)"
| log_moves: "session_step pb y (y\<lparr>sys_db := db\<rparr>)"

definition session_init :: "SaberSession \<Rightarrow> SaberDB \<Rightarrow> session_sys" where
  "session_init s db = \<lparr>sys_sess = s, sys_db = db, sys_queued = [], sys_proposed = [],
     sys_received = [], sys_sent = [], sys_versions = [sess_version s]\<rparr>"

inductive session_reach :: "pb_codec \<Rightarrow> session_sys \<Rightarrow> bool" for pb where
  sess_start: "session_reach pb (session_init (SaberSession_new root g sid self p) db)"
| sess_next: "session_reach pb y \<Longrightarrow> session_step pb y y' \<Longrightarrow> session_reach pb y'"

definition session_inv :: "session_sys \<Rightarrow> bool" where
  "session_inv y \<longleftrightarrow>
     length (sys_queued y @ sys_proposed y) = (if last_finished (sys_sess y) then 0 else 1) \<and>
     (last_finished (sys_sess y) \<longrightarrow> pending_messages (sys_sess y) = []) \<and>
     subseq (ids (sys_sent y) @ ids (sys_queued y @ sys_proposed y) @ ids (pending_messages (sys_sess y)))
       (ids (sys_received y))"

lemma absorb_handled:
  assumes H: "handled m s s' out" and idle: "sys_queued y = []" "sys_proposed y = []"
    and ord: "subseq (ids (sys_sent y) @ sm_id m # ids (pending_messages s)) (ids (sys_received y))"
  shows "session_inv (absorb s' db out y)"
proof -
  have "subseq (ids (sys_sent y) @ (ids (eff_sent out) @ ids (eff_queued out @ eff_proposed out) @ ids (pending_messages s')))
     (ids (sys_sent y) @ sm_id m # ids (pending_messages s))"
    using H by (intro list_emb_append_mono) (simp_all add: handled_def)
  then show ?thesis using H idle subseq_order.trans [OF _ ord]
    by (auto simp: session_inv_def absorb_def handled_def)
qed

lemma stamp_close_simps [simp]: "sm_id (stamp_close pb s m) = sm_id m" "sm_type (stamp_close pb s m) = sm_type m"
  by (simp_all add: stamp_close_def)

lemma OnMessage_elim:
  assumes "OnMessage pb env m s db = (b, s', db', out)"
  obtains (drop) "s' = s" "db' = db" "out = []"
  | (run) "\<not> closed s" "last_finished s"
      "HandleMessage pb env (stamp_close pb s m) (s\<lparr>last_finished := False\<rparr>) db = (s', db', out)"
  | (wait) ps where "\<not> last_finished s" "s' = s\<lparr>pending_messages := ps @ [stamp_close pb s m]\<rparr>"
      "db' = db" "out = []" "ps = pending_messages s \<or> ps = []"
proof -
  consider (ignore) "closed s \<or> sm_type m = MT_PING \<and> pending_messages s \<noteq> []"
    | (idle) "\<not> closed s" "\<not> (sm_type m = MT_PING \<and> pending_messages s \<noteq> [])" "last_finished s"
    | (busy) "\<not> closed s" "\<not> (sm_type m = MT_PING \<and> pending_messages s \<noteq> [])" "\<not> last_finished s"
    by blast
  then show ?thesis
  proof cases
    case ignore
    then show ?thesis using assms by (intro drop) (auto simp: OnMessage_def split: if_splits)
  next
    case idle
    then show ?thesis using assms by (intro run) (auto simp: OnMessage_def Let_def split: if_splits)
  next
    case busy
    let ?ps = "if sm_type m = MT_MASTER then [] else pending_messages s"
    show ?thesis by (rule wait [of ?ps]) (use busy assms in \<open>auto simp: OnMessage_def Let_def\<close>)
  qed
qed

lemma step_on_message:
  assumes I: "session_inv y" and E: "OnMessage pb env m (sys_sess y) (sys_db y) = (b, s, db, out)"
  shows "session_inv (absorb s db out (y\<lparr>sys_received := sys_received y @ [m]\<rparr>))"
proof -
  let ?s = "sys_sess y" and ?m = "stamp_close pb (sys_sess y) m"
  have ord: "subseq (ids (sys_sent y) @ ids (sys_queued y @ sys_proposed y) @ ids (pending_messages ?s)) (ids (sys_received y))"
    using I by (simp add: session_inv_def)
  have snoc: "subseq (xs @ [x]) (ids (sys_received y) @ [x])" if "subseq xs (ids (sys_received y))" for xs x
    using that by (intro list_emb_append_mono) simp_all
  from E show ?thesis
  proof (cases rule: OnMessage_elim)
    case drop
    have "subseq (ids (sys_received y)) (ids (sys_received y) @ [sm_id m])"
      by (rule list_emb_prefix) simp
    then have "subseq (ids (sys_sent y) @ ids (sys_queued y @ sys_proposed y) @ ids (pending_messages ?s))
       (ids (sys_received y) @ [sm_id m])" by (rule subseq_order.trans [OF ord])
    then show ?thesis using I drop by (simp add: absorb_def session_inv_def)
  next
    case run
    have idle: "sys_queued y = []" "sys_proposed y = []" "pending_messages ?s = []"
      using I run(2) by (auto simp: session_inv_def)
    have H: "handled ?m (?s\<lparr>last_finished := False\<rparr>) s out" by (rule handled_HandleMessage [OF _ run(3)]) simp
    show ?thesis
      by (rule absorb_handled [OF H]) (use idle ord snoc [of "ids (sys_sent y)" "sm_id m"] in simp_all)
  next
    case (wait ps)
    have "subseq (ids ps) (ids (pending_messages ?s))" using wait(5) by auto
    then have "subseq (ids (sys_sent y) @ ids (sys_queued y @ sys_proposed y) @ ids ps)
       (ids (sys_sent y) @ ids (sys_queued y @ sys_proposed y) @ ids (pending_messages ?s))"
      by (intro list_emb_append_mono) simp_all
    then have "subseq (ids (sys_sent y) @ ids (sys_queued y @ sys_proposed y) @ ids ps) (ids (sys_received y))"
      using ord by (rule subseq_order.trans)
    from snoc [OF this, of "sm_id m"] show ?thesis using wait(1-4) I
      by (simp add: session_inv_def absorb_def)
  qed
qed

lemma session_step_inv: "session_step pb y y' \<Longrightarrow> session_inv y \<Longrightarrow> session_inv y'"
proof (induction rule: session_step.induct)
  case (on_message env m y b s db out)
  then show ?case by (simp add: step_on_message)
next
  case (run_queued y m q env s db out)
  then have c: "\<not> last_finished (sys_sess y)" "q = []" "sys_proposed y = []"
    by (auto simp: session_inv_def split: if_splits)
  have H: "handled m (sys_sess y) s out" by (rule handled_HandleMessage [OF c(1) run_queued.hyps(2)])
  show ?case by (rule absorb_handled [OF H]) (use c run_queued in \<open>auto simp: session_inv_def\<close>)
next
  case (callback y m q env ok d s out)
  then have c: "\<not> last_finished (sys_sess y)" "q = []" "sys_queued y = []"
    by (auto simp: session_inv_def split: if_splits)
  have H: "handled m (sys_sess y) s out" using handled_WeakCallback [OF c(1) callback.hyps(2)] by simp
  show ?case by (rule absorb_handled [OF H]) (use c callback in \<open>auto simp: session_inv_def\<close>)
next
  case (reconnect y p v)
  have "subseq (ids (sys_sent y) @ ids (sys_queued y @ sys_proposed y) @ [])
     (ids (sys_sent y) @ ids (sys_queued y @ sys_proposed y) @ ids (pending_messages (sys_sess y)))"
    by (intro list_emb_append_mono) simp_all
  then show ?case using reconnect subseq_order.trans by (auto simp: session_inv_def OnConnect_def)
qed (simp add: session_inv_def)

lemma session_inv_init: "session_inv (session_init (SaberSession_new root g sid self p) db)"
  by (simp add: session_inv_def session_init_def SaberSession_new_def)

lemma session_reach_inv: "session_reach pb y \<Longrightarrow> session_inv y"
  by (induction rule: session_reach.induct) (simp_all only: session_inv_init session_step_inv)

section \<open>Close requests\<close>

text \<open>No function of the session adds to the waiting messages except \<open>OnMessage\<close>, which stamps a close with the id and the
  version of the session.\<close>

definition keeps_waiting :: "SaberSession \<Rightarrow> SaberSession \<Rightarrow> session_effect list \<Rightarrow> bool" where
  "keeps_waiting s s' out \<longleftrightarrow>
     sess_id s' = sess_id s \<and> sess_version s' = sess_version s \<and>
     set (eff_queued out) \<union> set (pending_messages s') \<subseteq> set (pending_messages s)"

lemma keeps_waiting_Done: "Done env m s = (s', out) \<Longrightarrow> keeps_waiting s s' out"
  by (auto simp: Done_def Let_def keeps_waiting_def split: if_splits list.splits option.splits)

lemma keeps_waiting_Propose: "Propose pb env m s = (s', out) \<Longrightarrow> keeps_waiting s s' out"
  by (auto simp: Propose_def Let_def dest: keeps_waiting_Done split: if_splits) (simp add: keeps_waiting_def)

lemma keeps_waiting_HandleMessage: "HandleMessage pb env m s db = (s', db', out) \<Longrightarrow> keeps_waiting s s' out"
  by (auto simp: HandleMessage_def DoIt_def Let_def dest: keeps_waiting_Done keeps_waiting_Propose split: if_splits prod.splits)

lemma keeps_waiting_WeakCallback: "WeakCallback pb env ok m s = (s', out) \<Longrightarrow> keeps_waiting s s' out"
  unfolding WeakCallback_def by (rule keeps_waiting_Done)

definition own_close :: "pb_codec \<Rightarrow> u64 \<Rightarrow> u64 list \<Rightarrow> SaberMessage \<Rightarrow> bool" where
  "own_close pb sid vs m \<longleftrightarrow> (sm_type m = MT_CLOSE \<longrightarrow>
     (\<exists>ver \<in> set vs. sm_data m = ser_CloseRequest pb \<lparr>clq_session_id = [sid], clq_version = [ver]\<rparr>))"

definition closes_ok :: "pb_codec \<Rightarrow> session_sys \<Rightarrow> bool" where
  "closes_ok pb y \<longleftrightarrow> sess_version (sys_sess y) \<in> set (sys_versions y) \<and>
     (\<forall>m \<in> set (sys_queued y) \<union> set (pending_messages (sys_sess y)). own_close pb (sess_id (sys_sess y)) (sys_versions y) m)"

lemma own_close_stamp: "sess_version s \<in> set vs \<Longrightarrow> own_close pb (sess_id s) vs (stamp_close pb s m)"
  by (auto simp: own_close_def stamp_close_def)

lemma closes_ok_absorb:
  assumes "closes_ok pb y" and "keeps_waiting (sys_sess y) s out" and "set (sys_queued y') \<subseteq> set (sys_queued y)"
    and "sys_versions y' = sys_versions y"
  shows "closes_ok pb (absorb s db out y')"
  using assms by (auto simp: closes_ok_def absorb_def keeps_waiting_def)

lemma closes_ok_on_message:
  assumes C: "closes_ok pb y" and E: "OnMessage pb env m (sys_sess y) (sys_db y) = (b, s, db, out)"
  shows "closes_ok pb (absorb s db out (y\<lparr>sys_received := sys_received y @ [m]\<rparr>))"
  using E
proof (cases rule: OnMessage_elim)
  case drop
  then show ?thesis using C by (simp add: closes_ok_def absorb_def)
next
  case run
  have "keeps_waiting (sys_sess y) s out" using keeps_waiting_HandleMessage [OF run(3)] by (simp add: keeps_waiting_def)
  then show ?thesis by (intro closes_ok_absorb [OF C]) simp_all
next
  case (wait ps)
  have "own_close pb (sess_id (sys_sess y)) (sys_versions y) (stamp_close pb (sys_sess y) m)"
    using C by (intro own_close_stamp) (simp add: closes_ok_def)
  then show ?thesis using C wait by (auto simp: closes_ok_def absorb_def)
qed

lemma closes_ok_step: "session_step pb y y' \<Longrightarrow> closes_ok pb y \<Longrightarrow> closes_ok pb y'"
proof (induction rule: session_step.induct)
  case (on_message env m y b s db out)
  then show ?case by (simp add: closes_ok_on_message)
next
  case (run_queued y m q env s db out)
  then show ?case using keeps_waiting_HandleMessage by (intro closes_ok_absorb) auto
next
  case (callback y m q env ok d s out)
  then show ?case using keeps_waiting_WeakCallback by (intro closes_ok_absorb) auto
qed (auto simp: closes_ok_def OnConnect_def own_close_def)

lemma closes_ok_init: "closes_ok pb (session_init (SaberSession_new root g sid self p) db)"
  by (simp add: closes_ok_def session_init_def SaberSession_new_def)

lemma closes_ok_reach: "session_reach pb y \<Longrightarrow> closes_ok pb y"
  by (induction rule: session_reach.induct) (simp_all only: closes_ok_init closes_ok_step)

end
