(* ===== verification/SaberServer_Steps.thy ===== *)
theory SaberServer_Steps
  imports SaberServer_Inv SaberSession_Props
begin

text \<open>
  Every operation of \<^verbatim>\<open>SaberServer\<close> keeps the invariants of its stores, and the runs of a server: the
  callbacks of the connections, timers and proposals, the destructors, the messages that sessions queue and the
  entries of the log, interleaved in any order. The invariant of the pointers holds in every state a server can reach;
  that the registered sessions live holds in the runs in which no entry dies while another thread holds its session.
\<close>

section \<open>What a session never changes\<close>

definition same_session :: "SaberSession \<Rightarrow> SaberSession \<Rightarrow> bool" where
  "same_session s s' \<longleftrightarrow> sess_id s' = sess_id s \<and> sess_group s' = sess_group s \<and> kRoot s' = kRoot s \<and> sess_self s' = sess_self s"

lemma same_session_refl [simp]: "same_session s s"
  by (simp add: same_session_def)

lemma same_session_Done: "same_session s (fst (Done env m s))"
  by (simp add: same_session_def Done_def Let_def split: list.split)

lemma same_session_Propose: "same_session s (fst (Propose pb env m s))"
  using same_session_Done by (simp add: Propose_def Let_def)

lemma same_session_WeakCallback: "same_session s (fst (WeakCallback pb env ok m s))"
  unfolding WeakCallback_def by (rule same_session_Done)

lemma same_session_HandleMessage: "same_session s (fst (HandleMessage pb env m s db))"
  using same_session_Done same_session_Propose
  by (simp add: HandleMessage_def DoIt_def Let_def case_prod_beta)

lemma same_session_OnMessage: "same_session s (fst (snd (OnMessage pb env m s db)))"
  using same_session_HandleMessage [of "s\<lparr>last_finished := False\<rparr>" pb env "stamp_close pb s m" db]
  by (simp add: OnMessage_def Let_def same_session_def)

section \<open>Preservation\<close>

lemma srv_ok_session:
  assumes ok: "srv_okl L v" and s: "session_at v w = Some s" and same: "same_session s s'"
  shows "srv_okl L (v\<lparr>srv_heap := um_set w s' (srv_heap v), srv_db := db\<rparr>)" (is "srv_okl L ?v")
proof -
  have "stores_of ?v = (stores_of v)\<lparr>heap := (session_at v)(w \<mapsto> s')\<rparr>" by (simp add: stores_of_def)
  moreover have "store_okl L ((stores_of v)\<lparr>heap := (session_at v)(w \<mapsto> s')\<rparr>)"
    using ok_session [of L "stores_of v" w s s'] ok s same unfolding stores_of_simps srv_okl_def same_session_def by blast
  ultimately have "store_okl L (stores_of ?v)" by (simp only:)
  then show ?thesis by (intro srv_ok_stores [OF ok]) (use ok s same in \<open>auto simp: srv_okl_def same_session_def split: if_splits\<close>)
qed

lemma srv_ok_run_session: "srv_okl L v \<Longrightarrow> srv_okl L (fst (fst (run_session pb env w m v)))"
proof (cases "session_at v w")
  case (Some s)
  assume "srv_okl L v"
  then show ?thesis
    using srv_ok_session [of L v w s "fst (snd (OnMessage pb (env_node env) m s (srv_db v)))"] Some same_session_OnMessage
    by (simp add: run_session_def Let_def case_prod_beta)
qed (simp add: run_session_def)

lemma run_session_frame [simp]:
  "srv_entries (fst (fst (run_session pb env w m v))) = srv_entries v"
  "srv_sessions (fst (fst (run_session pb env w m v))) = srv_sessions v"
  "srv_pending (fst (fst (run_session pb env w m v))) = srv_pending v"
  "srv_fresh (fst (fst (run_session pb env w m v))) = srv_fresh v"
  "srv_locked (fst (fst (run_session pb env w m v))) = srv_locked v"
  by (simp_all add: run_session_def Let_def case_prod_beta split: option.split)

lemma srv_ok_tell_sessions:
  "srv_okl L v \<Longrightarrow> srv_okl L (fst (tell_sessions pb env ws v)) \<and> srv_sessions (fst (tell_sessions pb env ws v)) = srv_sessions v"
proof (induction pb env ws v rule: tell_sessions.induct)
  case (2 pb env sid w rest v)
  let ?v = "fst (fst (run_session pb env w (SaberMessage_default\<lparr>sm_type := MT_MASTER\<rparr>) v))"
  have "srv_okl L ?v" using 2 by (simp add: srv_ok_run_session)
  then have "srv_okl L (fst (tell_sessions pb env rest ?v)) \<and> srv_sessions (fst (tell_sessions pb env rest ?v)) = srv_sessions ?v"
    using 2 by (metis prod.collapse)
  then show ?case by (simp add: Let_def case_prod_beta)
qed simp

lemma srv_ok_forget:
  assumes ok: "srv_okl L v" and g: "valid_gid v g" shows "srv_okl L (put_group_sessions g [] v)"
proof -
  have "store_okl L (stores_of (put_group_sessions g [] v))"
    using ok_forget [of L "stores_of v" g] ok by (simp add: stores_put_sessions [OF g] srv_okl_def)
  then show ?thesis by (intro srv_ok_stores [OF ok]) (use ok in \<open>auto simp: srv_okl_def\<close>)
qed

lemma srv_ok_CleanSessions: "srv_okl L v \<Longrightarrow> valid_gid v g \<Longrightarrow> srv_okl L (fst (CleanSessions pb env g v))"
  using srv_ok_tell_sessions [of L v pb env "group_sessions g v"]
  by (auto simp: CleanSessions_def Let_def case_prod_beta valid_gid_def intro!: srv_ok_forget)

lemma srv_ok_OnConnection:
  assumes ok: "srv_okl L v" and C: "OnConnection env admitted p v = Some v'"
  shows "srv_okl L v'"
proof (cases admitted)
  case False
  then show ?thesis using assms by (simp add: OnConnection_def)
next
  case True
  let ?en = "\<lparr>en_index = - 1, en_started = False, en_conn = p, en_session = None\<rparr>"
  let ?v = "v\<lparr>srv_entries := um_set (srv_fresh v) ?en (srv_entries v), srv_fresh := srv_fresh v + 1\<rparr>"
  have "stores_of ?v = (stores_of v)\<lparr>ent := (entry_at v)(srv_fresh v \<mapsto> ?en), next_ref := srv_fresh v + 1\<rparr>"
    by (simp add: stores_of_def)
  then have "store_okl L (stores_of ?v)" using ok_new_entry [of L "stores_of v" ?en] ok by (simp add: srv_okl_def)
  then have "srv_okl L ?v" by (intro srv_ok_stores [OF ok]) (use ok in \<open>auto simp: srv_okl_def\<close>)
  moreover obtain v1 where "touch_entry env p (srv_fresh v) ?v = Some v1" "v' = v1\<lparr>srv_context := um_set p (srv_fresh v) (srv_context v1)\<rparr>"
    using C True by (auto simp: OnConnection_def Let_def)
  ultimately show ?thesis using srv_ok_touch_entry [of L ?v env p "srv_fresh v" v1] by (auto intro: srv_ok_frame)
qed

lemma srv_ok_OnClose: "srv_okl L v \<Longrightarrow> srv_okl L (OnClose p v)"
  by (rule srv_ok_frame) (simp_all add: OnClose_def)

lemma srv_ok_start: "srv_okl L v \<Longrightarrow> srv_okl L (set_started e True v)"
  by (cases "entry_at v e") (auto simp: set_started_def same_owner_def intro!: srv_ok_entry)

text \<open>An entry that waits for nothing and has no session may be unmarked.\<close>

lemma srv_ok_unstart:
  assumes ok: "srv_okl L v" and e: "entry_at v e = Some en" "en_session en = None"
    and np: "\<forall>c \<in> set (srv_pending v). cx_entry c \<noteq> e"
  shows "srv_okl L (set_started e False v)"
proof -
  let ?en = "en\<lparr>en_started := False\<rparr>" and ?v = "set_started e False v"
  have st: "stores_of ?v = (stores_of v)\<lparr>ent := (entry_at v)(e \<mapsto> ?en)\<rparr>" and wf: "um_wf (srv_entries ?v)"
    and fr: "srv_pending ?v = srv_pending v" "srv_sessions ?v = srv_sessions v" "srv_heap ?v = srv_heap v"
    using e ok by (simp_all add: set_started_def stores_of_def srv_okl_def)
  have "holds ((entry_at v)(e \<mapsto> ?en)) = holds (entry_at v)" using e by (auto simp: holds_def fun_eq_iff)
  then have "heap_ok (stores_of ?v)" "L \<longrightarrow> smap_live (stores_of ?v)"
    using holds_same [of "(entry_at v)(e \<mapsto> ?en)" "stores_of v"] store_okD(2,6) [OF srv_okD(2) [OF ok]] by (simp_all add: st)
  then have "store_okl L (stores_of ?v)"
    using store_okD [OF srv_okD(2) [OF ok]] e np
    by (auto simp: st store_okl_def entries_ok_def locks_ok_def smap_ok_def pend_ok_def)
  then show ?thesis using wf ok fr by (intro srv_ok_stores [OF ok]) auto
qed

lemma unstarted_free:
  assumes "srv_okl L v" and "entry_at v e = Some en" and "\<not> en_started en"
  shows "en_session en = None" and "\<forall>c \<in> set (srv_pending v). cx_entry c \<noteq> e"
proof -
  have "entries_ok (stores_of v)" and "pend_ok (stores_of v)" using assms(1) by (simp_all add: srv_okl_def store_okl_def)
  then show "en_session en = None" "\<forall>c \<in> set (srv_pending v). cx_entry c \<noteq> e"
    using assms(2,3) by (fastforce simp: entries_ok_def pend_ok_def)+
qed

lemma srv_ok_propose:
  assumes ok: "srv_okl L v" and e: "entry_at v (cx_entry c) = Some en" "en_started en" "en_session en = None"
    and np: "\<forall>d \<in> set (srv_pending v). cx_entry d \<noteq> cx_entry c" and g: "valid_gid v (cx_group c)"
  shows "srv_okl L (v\<lparr>srv_pending := srv_pending v @ [c]\<rparr>)" (is "srv_okl L ?v")
proof -
  have "stores_of ?v = (stores_of v)\<lparr>pend := srv_pending v @ [c]\<rparr>" by (simp add: stores_of_def)
  then have "store_okl L (stores_of ?v)" using ok_pend_add [of L "stores_of v" c en] ok e np by (simp add: srv_okl_def)
  then show ?thesis using ok g by (auto simp: srv_okl_def valid_gid_def)
qed

lemma set_started_find:
  "entry_at v e = Some en \<Longrightarrow> entry_at (set_started e b v) x = (if x = e then Some (en\<lparr>en_started := b\<rparr>) else entry_at v x)"
  by (simp add: set_started_def)

lemma set_started_frame [simp]:
  "srv_pending (set_started e b v) = srv_pending v" "srv_sessions (set_started e b v) = srv_sessions v"
  "srv_locked (set_started e b v) = srv_locked v"
  "srv_heap (set_started e b v) = srv_heap v" "srv_fresh (set_started e b v) = srv_fresh v"
  "srv_db (set_started e b v) = srv_db v" "srv_buckets (set_started e b v) = srv_buckets v"
  "server_id (set_started e b v) = server_id v" "srv_seq (set_started e b v) = srv_seq v"
  "valid_gid (set_started e b v) g = valid_gid v g"
  by (simp_all add: set_started_def valid_gid_def split: option.split)

lemma set_started_pending: "set_started e b (v\<lparr>srv_pending := cs\<rparr>) = (set_started e b v)\<lparr>srv_pending := cs\<rparr>"
  by (simp add: set_started_def split: option.split)

lemma srv_ok_OnConnectRequest:
  assumes ok: "srv_okl L v" and e: "entry_at v e = Some en" and g: "valid_gid v g"
  shows "srv_okl L (fst (fst (OnConnectRequest pb env root g e en m v)))"
proof (cases "en_started en")
  case True
  then show ?thesis using ok by (simp add: OnConnectRequest_def)
next
  case False
  note free = unstarted_free [OF ok e False]
  have ok1: "srv_okl L ((set_started e True v)\<lparr>srv_seq := q\<rparr>)" for q
    by (rule srv_ok_frame [OF srv_ok_start [OF ok, of e]]) simp_all
  have e1: "entry_at (set_started e True v) e = Some (en\<lparr>en_started := True\<rparr>)" by (simp add: set_started_find [OF e])
  have taken: "srv_okl L ((set_started e True v)\<lparr>srv_seq := q, srv_pending := srv_pending v @ [c]\<rparr>)"
    if "cx_entry c = e" "cx_group c = g" for q c
    using srv_ok_propose [OF ok1 [of q], of c "en\<lparr>en_started := True\<rparr>"] that e1 free g by (simp add: valid_gid_def)
  have refused: "srv_okl L (set_started e False ((set_started e True v)\<lparr>srv_seq := q\<rparr>))" for q
    by (rule srv_ok_unstart [OF ok1, where en = "en\<lparr>en_started := True\<rparr>"]) (use e1 free in simp_all)
  have same: "(set_started e True v)\<lparr>srv_seq := srv_seq v\<rparr> = set_started e True v" by (simp add: set_started_def split: option.split)
  have now: "srv_okl L (set_started e True v)" "srv_okl L (set_started e False (set_started e True v))"
    "cx_entry c = e \<Longrightarrow> cx_group c = g \<Longrightarrow> srv_okl L ((set_started e True v)\<lparr>srv_pending := srv_pending v @ [c]\<rparr>)" for c
    using ok1 [of "srv_seq v"] taken [of c "srv_seq v"] refused [of "srv_seq v"] by (simp_all only: same)
  show ?thesis
    using False by (simp add: OnConnectRequest_def Let_def case_prod_beta now taken refused split: option.split)
qed

lemma Shard_valid:
  assumes "unat (env_group_size env) = length (srv_sessions v)" and "env_group_size env \<noteq> 0"
  shows "valid_gid v (Shard env root)"
proof -
  have "unat (env_hash env root mod env_group_size env) < unat (env_group_size env)"
    using assms(2) by (simp add: unat_mod_distrib unat_gt_0)
  moreover have "0 < length (srv_sessions v)" using assms by (metis unat_gt_0)
  ultimately show ?thesis by (simp add: Shard_def valid_gid_def assms(1))
qed

definition env_ok :: "server_env \<Rightarrow> SaberServer \<Rightarrow> bool" where
  "env_ok env v \<longleftrightarrow> unat (env_group_size env) = length (srv_sessions v) \<and> env_group_size env \<noteq> 0"

lemma srv_ok_HandleMessage:
  assumes "srv_okl L v" and "entry_at v e = Some en" and "env_ok env v"
  shows "srv_okl L (fst (fst (server_HandleMessage pb env e en m v)))"
  using assms srv_ok_run_session srv_ok_OnConnectRequest [OF assms(1,2) Shard_valid [of env]]
  by (simp add: server_HandleMessage_def Let_def env_ok_def split: option.split)

lemma srv_ok_OnMessage:
  assumes ok: "srv_okl L v" and env: "env_ok env v" and M: "server_OnMessage pb env p m v = Some ((v', out), b)"
  shows "srv_okl L v'"
proof (cases "\<exists>e en. um_find (srv_context v) p = Some e \<and> entry_held v e \<and> entry_at v e = Some en")
  case False
  then have "v' = v" using M by (auto simp: server_OnMessage_def split: option.splits if_splits)
  then show ?thesis using ok by simp
next
  case True
  then obtain e en where c: "um_find (srv_context v) p = Some e" "entry_held v e" and e: "entry_at v e = Some en" by blast
  let ?v = "fst (fst (server_HandleMessage pb env e en m v))"
  have "srv_okl L ?v" by (rule srv_ok_HandleMessage [OF ok e env])
  moreover have "v' = ?v \<or> touch_entry env p e ?v = Some v'"
    using M c e by (auto simp: server_OnMessage_def Let_def case_prod_beta split: if_splits)
  ultimately show ?thesis using srv_ok_touch_entry by blast
qed

lemma CreateSession_pending:
  "server_CreateSession env root g sid ver e (v\<lparr>srv_pending := cs\<rparr>) =
     map_option (\<lambda>(v', b). (v'\<lparr>srv_pending := cs\<rparr>, b)) (server_CreateSession env root g sid ver e v)"
  by (simp add: server_CreateSession_def Let_def group_sessions_def put_group_sessions_def split: option.split)

text \<open>A registration that can be locked leads to the session of its id and group.\<close>

lemma registered_session:
  assumes "srv_okl L v" and "valid_gid v g" and "um_find (group_sessions g v) sid = Some w" and "session_at v w = Some s"
  shows "sess_id s = sid" and "sess_group s = g"
proof -
  have "smap_ok (stores_of v)" using assms(1) by (simp add: srv_okl_def store_okl_def)
  moreover have "smap (stores_of v) g sid = Some w" using assms(3) by (simp add: smap_stores [OF assms(2)])
  ultimately show "sess_id s = sid" "sess_group s = g" using assms(4) unfolding smap_ok_def stores_of_simps by blast+
qed

lemma srv_ok_CreateSession:
  assumes ok: "srv_okl L v" and e: "entry_at v e = Some en" "en_started en" "en_session en = None"
    and np: "\<forall>c \<in> set (srv_pending v). cx_entry c \<noteq> e" and g: "valid_gid v g"
    and C: "server_CreateSession env root g sid ver e v = Some (v', again)"
  shows "srv_okl L v'"
proof -
  have wf: "um_wf (srv_entries v)" and so: "store_okl L (stores_of v)" using ok by (simp_all add: srv_okl_def)
  let ?c = "alive_conn env (en_conn en)"
  show ?thesis
  proof (cases "um_find (group_sessions g v) sid")
    case (Some w)
    then obtain s where s: "session_at v w = Some s"
      using C e(1) by (auto simp: server_CreateSession_def Let_def split: option.splits)
    let ?s = "(OnConnect ?c s)\<lparr>sess_version := ver\<rparr>"
    let ?v = "v\<lparr>srv_entries := um_set e (en\<lparr>en_session := Some w\<rparr>) (srv_entries v)\<rparr>"
    have "stores_of ?v = (stores_of v)\<lparr>ent := (entry_at v)(e \<mapsto> en\<lparr>en_session := Some w\<rparr>)\<rparr>"
      by (simp add: stores_of_def)
    then have "store_okl L (stores_of ?v)" using ok_join [OF so _ e(2,3), of e w] e(1) s np by simp
    then have "srv_okl L ?v" by (intro srv_ok_stores [OF ok]) (use wf in auto)
    then have "srv_okl L (?v\<lparr>srv_heap := um_set w ?s (srv_heap ?v), srv_db := srv_db v\<rparr>)"
      by (rule srv_ok_session [of _ _ w s]) (use s in \<open>simp_all add: same_session_def OnConnect_def\<close>)
    then have "srv_okl L (v\<lparr>srv_heap := um_set w ?s (srv_heap v), srv_entries := um_set e (en\<lparr>en_session := Some w\<rparr>) (srv_entries v)\<rparr>)"
      by (rule srv_ok_frame) simp_all
    then show ?thesis using C by (simp add: server_CreateSession_def Let_def e(1) Some s)
  next
    case None
    let ?w = "srv_fresh v" and ?en = "en\<lparr>en_session := Some (srv_fresh v)\<rparr>"
    let ?s = "(SaberSession_new root g sid ?w ?c)\<lparr>sess_version := ver\<rparr>"
    let ?v1 = "v\<lparr>srv_heap := um_set ?w ?s (srv_heap v), srv_entries := um_set e ?en (srv_entries v), srv_fresh := ?w + 1\<rparr>"
    let ?v2 = "put_group_sessions g (um_set sid ?w (group_sessions g v)) ?v1"
    have g1: "valid_gid ?v1 g" using g by (simp add: valid_gid_def)
    have "stores_of ?v2 = (stores_of v)\<lparr>ent := (entry_at v)(e \<mapsto> ?en), heap := (session_at v)(?w \<mapsto> ?s),
        smap := (smap (stores_of v))(g := (smap (stores_of v) g)(sid \<mapsto> ?w)), next_ref := ?w + 1\<rparr>"
      unfolding stores_put_sessions [OF g1] smap_stores [OF g] by (simp add: stores_of_def)
    moreover have "store_okl L ((stores_of v)\<lparr>ent := (entry_at v)(e \<mapsto> ?en), heap := (session_at v)(?w \<mapsto> ?s),
        smap := (smap (stores_of v))(g := (smap (stores_of v) g)(sid \<mapsto> ?w)), next_ref := ?w + 1\<rparr>)"
      using ok_new_session [of L "stores_of v" e en ?s sid g] so e np by (simp add: SaberSession_new_def)
    ultimately have "store_okl L (stores_of ?v2)" by (simp only:)
    then have "srv_okl L ?v2" using ok wf g by (auto simp: srv_okl_def valid_gid_def SaberSession_new_def split: if_splits)
    then show ?thesis using C by (simp add: server_CreateSession_def Let_def e(1) None)
  qed
qed

lemma pending_entry:
  assumes "srv_okl L v" and "ctx \<in> set (srv_pending v)"
  obtains en where "entry_at v (cx_entry ctx) = Some en" "en_started en" "en_session en = None"
    and "\<forall>c \<in> set (remove1 ctx (srv_pending v)). cx_entry c \<noteq> cx_entry ctx" and "valid_gid v (cx_group ctx)"
proof -
  have so: "store_okl L (stores_of v)" and g: "valid_gid v (cx_group ctx)" using assms by (auto simp: srv_okl_def)
  have "pend_ok (stores_of v)" using so by (simp add: store_okl_def)
  then obtain en where "entry_at v (cx_entry ctx) = Some en" "en_started en" "en_session en = None"
    using assms(2) by (auto simp: pend_ok_def)
  then show thesis using that pend_unique [OF so, of ctx] assms(2) g by simp
qed

lemma srv_ok_pop_pending: "srv_okl L v \<Longrightarrow> srv_okl L (v\<lparr>srv_pending := remove1 c (srv_pending v)\<rparr>)"
proof -
  assume ok: "srv_okl L v"
  let ?v = "v\<lparr>srv_pending := remove1 c (srv_pending v)\<rparr>"
  have "stores_of ?v = (stores_of v)\<lparr>pend := remove1 c (srv_pending v)\<rparr>" by (simp add: stores_of_def)
  then have "store_okl L (stores_of ?v)" using ok_pend_remove [of L "stores_of v" c] ok by (simp add: srv_okl_def)
  then show ?thesis using ok by (auto simp: srv_okl_def valid_gid_def dest: notin_set_remove1)
qed

lemma srv_ok_connect_answer:
  assumes ok: "srv_okl L v" and c: "ctx \<in> set (srv_pending v)" and A: "connect_answer pb env ctx i r v = Some (v', out)"
  shows "srv_okl L v'"
proof -
  let ?cs = "remove1 ctx (srv_pending v)" and ?e = "cx_entry ctx"
  obtain en where e: "entry_at v ?e = Some en" "en_started en" "en_session en = None"
    and np: "\<forall>c \<in> set ?cs. cx_entry c \<noteq> ?e" and g: "valid_gid v (cx_group ctx)"
    by (rule pending_entry [OF ok c])
  have ok': "srv_okl L (v\<lparr>srv_pending := ?cs\<rparr>)" by (rule srv_ok_pop_pending [OF ok])
  have "srv_okl L ((set_started ?e False v)\<lparr>srv_pending := ?cs\<rparr>)"
    using srv_ok_unstart [OF ok', of ?e en] e np by (simp add: set_started_pending)
  moreover have "srv_okl L (v1\<lparr>srv_pending := ?cs\<rparr>)"
    if "server_CreateSession env (cx_root ctx) (cx_group ctx) (cx_session_id ctx) i ?e v = Some (v1, again)" for v1 again
    using srv_ok_CreateSession [OF ok', of ?e en "cx_group ctx" env "cx_root ctx" "cx_session_id ctx" i] e np g that
    by (simp add: CreateSession_pending valid_gid_def)
  moreover have "srv_pending v1 = srv_pending v"
    if "server_CreateSession env (cx_root ctx) (cx_group ctx) (cx_session_id ctx) i ?e v = Some (v1, again)" for v1 again
    using that by (auto simp: server_CreateSession_def Let_def split: option.splits)
  ultimately show ?thesis using A by (auto simp: connect_answer_def Let_def split: if_splits)
qed

section \<open>The runs of a server\<close>

text \<open>
  Every operation that the server does under one mutex, or in one thread on data that no other thread touches, is a step;
  the steps of all threads interleave. A tick of the timer clears a bucket (\<open>tick\<close>); an entry that nothing
  holds any more is destroyed in two steps, the body of its destructor (\<open>dtor\<close>) and the end of its member (\<open>unlock\<close>). A
  reply to a proposal of a session is three steps: the session is locked, the reply is delivered, the pointer ends.
\<close>

inductive server_step :: "pb_codec \<Rightarrow> SaberServer \<Rightarrow> server_effect list \<Rightarrow> SaberServer \<Rightarrow> bool" for pb where
  connection: "OnConnection env admitted p v = Some v' \<Longrightarrow> server_step pb v [] v'"
| close: "server_step pb v [] (OnClose p v)"
| tick: "um_find (srv_buckets v) l = Some q \<Longrightarrow> OnTimer (idle_ticks v) q = Some (q', es) \<Longrightarrow>
    server_step pb v [] (v\<lparr>srv_buckets := um_set l q' (srv_buckets v)\<rparr>)"
| dtor: "\<not> entry_held v e \<Longrightarrow> entry_dtor pb env e v = (v', out) \<Longrightarrow> server_step pb v out v'"
| lock: "server_step pb v [] (lock_session w v)"
| unlock: "w \<in> set (srv_locked v) \<Longrightarrow> server_step pb v [] (unlock_session w v)"
| message: "env_ok env v \<Longrightarrow> server_OnMessage pb env p m v = Some ((v', out), b) \<Longrightarrow> server_step pb v out v'"
| answer: "ctx \<in> set (srv_pending v) \<Longrightarrow> connect_answer pb env ctx i r v = Some (v', out) \<Longrightarrow> server_step pb v out v'"
| queued: "session_at v w = Some s \<Longrightarrow> HandleMessage pb (env_node (env :: server_env)) m s (srv_db v) = (s', db, out) \<Longrightarrow>
    server_step pb v (map (SessionEffect w) out) (v\<lparr>srv_heap := um_set w s' (srv_heap v), srv_db := db\<rparr>)"
| reply: "w \<in> set (srv_locked v) \<Longrightarrow> session_at v w = Some s \<Longrightarrow> WeakCallback pb (env_node (env :: server_env)) ok m s = (s', out) \<Longrightarrow>
    server_step pb v (map (SessionEffect w) out) (v\<lparr>srv_heap := um_set w s' (srv_heap v), srv_db := srv_db v\<rparr>)"
| clean: "valid_gid v g \<Longrightarrow> CleanSessions pb env g v = (v', out) \<Longrightarrow> server_step pb v out v'"
| log: "server_step pb v [] (v\<lparr>srv_db := db\<rparr>)"

inductive server_reach :: "pb_codec \<Rightarrow> SaberServer \<Rightarrow> bool" for pb where
  start: "server_reach pb (SaberServer_new my_id timeout tick_time group_size loops)"
| step: "server_reach pb v \<Longrightarrow> server_step pb v out v' \<Longrightarrow> server_reach pb v'"

text \<open>A step is calm if no entry dies in it whose session another thread holds.\<close>

definition calm_step :: "SaberServer \<Rightarrow> SaberServer \<Rightarrow> bool" where
  "calm_step v v' \<longleftrightarrow> (\<forall>e en w. entry_at v e = Some en \<and> en_session en = Some w \<and> entry_at v' e = None \<longrightarrow> w \<notin> set (srv_locked v))"

inductive calm_reach :: "pb_codec \<Rightarrow> SaberServer \<Rightarrow> bool" for pb where
  calm_start: "calm_reach pb (SaberServer_new my_id timeout tick_time group_size loops)"
| calm: "calm_reach pb v \<Longrightarrow> server_step pb v out v' \<Longrightarrow> calm_step v v' \<Longrightarrow> calm_reach pb v'"

lemma srv_ok_new: "srv_okl L (SaberServer_new my_id timeout tick_time group_size loops)"
  by (simp add: srv_okl_def SaberServer_new_def Let_def um_wf_def stores_of_def store_okl_def entries_ok_def heap_ok_def
      locks_ok_def smap_ok_def smap_live_def pend_ok_def smap_of_def)

lemma entry_dtor_gone: "entry_at (fst (entry_dtor pb env e v)) e = None"
  by (simp add: entry_dtor_def Let_def case_prod_beta split: option.split)

lemma srv_ok_step:
  assumes "server_step pb v out v'" and ok: "srv_okl L v" and calm: "L \<Longrightarrow> calm_step v v'"
  shows "srv_okl L v'"
  using assms(1)
proof cases
  case (tick l q q' es)
  then show ?thesis by (auto intro: srv_ok_frame [OF ok])
next
  case (dtor e env)
  have "entry_at v' e = None" using entry_dtor_gone [of pb env e v] dtor(2) by simp
  then have "srv_okl L (fst (entry_dtor pb env e v))"
    by (intro srv_ok_dtor [OF ok dtor(1)]) (use calm in \<open>auto simp: calm_step_def\<close>)
  then show ?thesis using dtor(2) by simp
next
  case (answer ctx env i r)
  then show ?thesis by (intro srv_ok_connect_answer [OF ok])
next
  case (queued w s env m s' db o')
  then show ?thesis using srv_ok_session [OF ok, of w s s' db] same_session_HandleMessage [of s pb "env_node env" m "srv_db v"] by simp
next
  case (reply w s env b m s' o')
  then show ?thesis using srv_ok_session [OF ok, of w s s' "srv_db v"] same_session_WeakCallback [of s pb "env_node env" b m] by simp
next
  case (clean g env)
  then show ?thesis using srv_ok_CleanSessions [OF ok, of g pb env] by simp
next
  case (log db)
  then show ?thesis by (auto intro: srv_ok_frame [OF ok])
qed (use ok in \<open>auto intro: srv_ok_OnConnection srv_ok_OnClose srv_ok_OnMessage srv_ok_lock srv_ok_unlock\<close>)

lemma srv_ok_reach: "server_reach pb v \<Longrightarrow> srv_ok v"
  by (induction rule: server_reach.induct) (auto intro: srv_ok_new srv_ok_step)

lemma srv_live_reach: "calm_reach pb v \<Longrightarrow> srv_okl True v"
  by (induction rule: calm_reach.induct) (auto intro: srv_ok_new srv_ok_step)

lemma calm_reach_reach: "calm_reach pb v \<Longrightarrow> server_reach pb v"
  by (induction rule: calm_reach.induct) (auto intro: server_reach.intros)

subsection \<open>The operations of one thread are runs of steps\<close>

lemma reach_destroy:
  assumes "server_reach pb v" and "\<not> entry_held v e"
  shows "server_reach pb (fst (destroy_entry pb env e v))"
proof -
  have D: "server_reach pb (fst (entry_dtor pb env e v))"
    using assms server_step.dtor [of v e pb env] by (metis prod.collapse server_reach.step)
  show ?thesis
  proof (cases "\<exists>en w. entry_at v e = Some en \<and> en_session en = Some w")
    case True
    then obtain en w where en: "entry_at v e = Some en" "en_session en = Some w" by blast
    have "w \<in> set (srv_locked (fst (entry_dtor pb env e v)))" by (simp add: entry_dtor_state [OF en])
    then show ?thesis using D by (simp add: destroy_entry_state [OF en] server_reach.step [OF _ server_step.unlock])
  next
    case False
    then show ?thesis using D by (auto simp: destroy_entry_def Let_def case_prod_beta split: option.split)
  qed
qed

lemma reach_release: "server_reach pb v \<Longrightarrow> server_reach pb (fst (release pb env es v))"
proof (induction es arbitrary: v)
  case (Cons e es)
  then show ?case using reach_destroy [of pb v e env] by (simp add: case_prod_beta Let_def)
qed simp

lemma reach_OnTimer:
  assumes R: "server_reach pb v" and T: "server_OnTimer pb env l v = Some (v', out)"
  shows "server_reach pb v'"
proof -
  obtain q q' es where q: "um_find (srv_buckets v) l = Some q" "OnTimer (idle_ticks v) q = Some (q', es)"
    and E: "release pb env es (v\<lparr>srv_buckets := um_set l q' (srv_buckets v)\<rparr>) = (v', out)"
    using T by (auto simp: server_OnTimer_def split: option.splits)
  show ?thesis using reach_release [OF server_reach.step [OF R server_step.tick [OF q]], of env es] E by simp
qed

lemma reach_connect_callback:
  assumes R: "server_reach pb v" and c: "ctx \<in> set (srv_pending v)" and C: "connect_callback pb env ctx i r v = Some (v', out)"
  shows "server_reach pb v'"
proof -
  obtain v1 out1 where A: "connect_answer pb env ctx i r v = Some (v1, out1)" and v': "v' = fst (release pb env [cx_entry ctx] v1)"
    using C by (auto simp: connect_callback_def Let_def case_prod_beta simp del: release.simps)
  show ?thesis unfolding v' by (rule reach_release [OF server_reach.step [OF R server_step.answer [OF c A]]])
qed

end
