(* ===== verification/Codec_Example.thy ===== *)
theory Codec_Example
  imports Messages
begin

text \<open>
  The laws of the serialisers that the theorems on sessions and clients use as a hypothesis, and an
  executable codec that satisfies them: numbers in unary, strings with their length in front.
\<close>

definition codec_law :: "pb_codec \<Rightarrow> bool" where
  "codec_law pb \<longleftrightarrow>
     (\<forall>m. parse_SaberMessage pb (ser_SaberMessage pb m) = m) \<and>
     (\<forall>t. parse_Transaction pb (ser_Transaction pb t) = t)"

definition enc_nat :: "nat \<Rightarrow> string" where
  "enc_nat n = replicate n CHR ''1'' @ ''0''"

definition dec_nat :: "string \<Rightarrow> nat \<times> string" where
  "dec_nat s = (let n = length (takeWhile (\<lambda>c. c = CHR ''1'') s) in (n, drop (Suc n) s))"

definition enc_str :: "string \<Rightarrow> string" where
  "enc_str s = enc_nat (length s) @ s"

definition dec_str :: "string \<Rightarrow> string \<times> string" where
  "dec_str s = (let (n, r) = dec_nat s in (take n r, drop n r))"

lemma dec_enc_nat [simp]: "dec_nat (enc_nat n @ r) = (n, r)"
proof -
  have "takeWhile (\<lambda>c. c = CHR ''1'') (replicate n CHR ''1'' @ CHR ''0'' # r) = replicate n CHR ''1''"
    by (induction n) simp_all
  then show ?thesis by (simp add: dec_nat_def enc_nat_def Let_def)
qed

lemma dec_enc_str [simp]: "dec_str (enc_str s @ r) = (s, r)"
  by (simp add: dec_str_def enc_str_def)

fun enc_type :: "MessageType \<Rightarrow> nat" where
  "enc_type MT_NOTIFICATION = 0" | "enc_type MT_CONNECT = 1" | "enc_type MT_CLOSE = 2"
| "enc_type MT_PING = 3" | "enc_type MT_CREATE = 4" | "enc_type MT_DELETE = 5"
| "enc_type MT_EXISTS = 6" | "enc_type MT_GETDATA = 7" | "enc_type MT_SETDATA = 8"
| "enc_type MT_GETCHILDREN = 9" | "enc_type MT_MASTER = 10" | "enc_type MT_SERVERS = 11"
| "enc_type (MT_OTHER k) = 12 + (if k \<ge> 0 then 2 * nat k else 2 * nat (- k) + 1)"

definition dec_type :: "nat \<Rightarrow> MessageType" where
  "dec_type n =
     (if n < 12
      then [MT_NOTIFICATION, MT_CONNECT, MT_CLOSE, MT_PING, MT_CREATE, MT_DELETE, MT_EXISTS, MT_GETDATA,
            MT_SETDATA, MT_GETCHILDREN, MT_MASTER, MT_SERVERS] ! n
      else MT_OTHER (if even n then int ((n - 12) div 2) else - int ((n - 12) div 2)))"

lemma dec_enc_type [simp]: "dec_type (enc_type ty) = ty"
  by (cases ty) (auto simp: dec_type_def)

definition plain_codec :: pb_codec where
  "plain_codec = blank_codec
     \<lparr>ser_SaberMessage := \<lambda>m. enc_nat (enc_type (sm_type m)) @ enc_nat (unat (sm_id m)) @
        enc_str (sm_data m) @ enc_str (sm_extra_data m),
      parse_SaberMessage := \<lambda>s.
        (let (ty, s) = dec_nat s; (i, s) = dec_nat s; (d, s) = dec_str s; (x, s) = dec_str s
         in \<lparr>sm_type = dec_type ty, sm_id = word_of_nat i, sm_data = d, sm_extra_data = x\<rparr>),
      ser_Transaction := \<lambda>t. enc_nat (unat (tx_group_id t)) @ enc_nat (unat (tx_instance_id t)) @
        enc_nat (unat (tx_time t)) @ enc_nat (unat (tx_session_id t)),
      parse_Transaction := \<lambda>s.
        (let (g, s) = dec_nat s; (i, s) = dec_nat s; (t, s) = dec_nat s; (k, s) = dec_nat s
         in \<lparr>tx_group_id = word_of_nat g, tx_instance_id = word_of_nat i, tx_time = word_of_nat t,
             tx_session_id = word_of_nat k\<rparr>)\<rparr>"

lemma dec_enc_last [simp]: "dec_nat (enc_nat n) = (n, [])" "dec_str (enc_str s) = (s, [])"
  using dec_enc_nat [of n "[]"] dec_enc_str [of s "[]"] by simp_all

lemma plain_codec_law: "codec_law plain_codec"
  by (simp add: codec_law_def plain_codec_def)

lemma codec_law_update:
  "codec_law pb \<Longrightarrow> codec_law (pb\<lparr>parse_CreateRequest := f\<rparr>)"
  "codec_law pb \<Longrightarrow> codec_law (pb\<lparr>ser_CreateRequest := h\<rparr>)"
  by (simp_all add: codec_law_def)

text \<open>The laws of the messages that connect a client, and the example extended to them.\<close>

definition connect_law :: "pb_codec \<Rightarrow> bool" where
  "connect_law pb \<longleftrightarrow> codec_law pb \<and>
     (\<forall>r. parse_ConnectRequest pb (ser_ConnectRequest pb r) = r) \<and>
     (\<forall>r. parse_ConnectResponse pb (ser_ConnectResponse pb r) = r) \<and>
     (\<forall>r. parse_CloseRequest pb (ser_CloseRequest pb r) = r)"

fun enc_code :: "ResponseCode \<Rightarrow> nat" where
  "enc_code RC_OK = 0" | "enc_code RC_FAILED = 1" | "enc_code RC_NO_NODE = 2"
| "enc_code RC_NO_PARENT = 3" | "enc_code RC_PARENT_EPHEMERAL = 4" | "enc_code RC_NODE_EXISTS = 5"
| "enc_code RC_CHILDREN_EXISTS = 6" | "enc_code RC_BAD_VERSION = 7" | "enc_code RC_UNKNOWN = 8"
| "enc_code RC_RECONNECT = 9" | "enc_code RC_ERRPATH = 10"
| "enc_code (RC_OTHER k) = 12 + (if k \<ge> 0 then 2 * nat k else 2 * nat (- k) + 1)"

definition dec_code :: "nat \<Rightarrow> ResponseCode" where
  "dec_code n =
     (if n < 12
      then [RC_OK, RC_FAILED, RC_NO_NODE, RC_NO_PARENT, RC_PARENT_EPHEMERAL, RC_NODE_EXISTS,
            RC_CHILDREN_EXISTS, RC_BAD_VERSION, RC_UNKNOWN, RC_RECONNECT, RC_ERRPATH, RC_UNKNOWN] ! n
      else RC_OTHER (if even n then int ((n - 12) div 2) else - int ((n - 12) div 2)))"

lemma dec_enc_code [simp]: "dec_code (enc_code c) = c"
  by (cases c) (auto simp: dec_code_def)

definition enc_nats :: "u64 list \<Rightarrow> string" where
  "enc_nats ns = enc_nat (length ns) @ concat (map (\<lambda>n. enc_nat (unat n)) ns)"

fun dec_items :: "nat \<Rightarrow> string \<Rightarrow> u64 list \<times> string" where
  "dec_items 0 s = ([], s)"
| "dec_items (Suc k) s = (let (n, s) = dec_nat s; (ns, s) = dec_items k s in (word_of_nat n # ns, s))"

definition dec_nats :: "string \<Rightarrow> u64 list \<times> string" where
  "dec_nats s = (let (k, s) = dec_nat s in dec_items k s)"

lemma dec_enc_items: "dec_items (length ns) (concat (map (\<lambda>n. enc_nat (unat n)) ns) @ r) = (ns, r)"
  by (induction ns) simp_all

lemma dec_enc_nats [simp]: "dec_nats (enc_nats ns @ r) = (ns, r)" "dec_nats (enc_nats ns) = (ns, [])"
  using dec_enc_items [of ns r] dec_enc_items [of ns "[]"] by (simp_all add: dec_nats_def enc_nats_def)

definition connect_codec :: pb_codec where
  "connect_codec = plain_codec
     \<lparr>ser_ConnectRequest := \<lambda>r. enc_nat (unat (cnq_session_id r)) @ enc_nat (unat (cnq_version r)),
      parse_ConnectRequest := \<lambda>s.
        (let (i, s) = dec_nat s; (n, s) = dec_nat s in \<lparr>cnq_session_id = word_of_nat i, cnq_version = word_of_nat n\<rparr>),
      ser_ConnectResponse := \<lambda>r. enc_nat (enc_code (cnr_code r)) @ enc_nat (unat (cnr_session_id r)) @
        enc_nat (unat (cnr_timeout r)),
      parse_ConnectResponse := \<lambda>s.
        (let (c, s) = dec_nat s; (i, s) = dec_nat s; (t, s) = dec_nat s
         in \<lparr>cnr_code = dec_code c, cnr_session_id = word_of_nat i, cnr_timeout = word_of_nat t\<rparr>),
      ser_CloseRequest := \<lambda>r. enc_nats (clq_session_id r) @ enc_nats (clq_version r),
      parse_CloseRequest := \<lambda>s.
        (let (is, s) = dec_nats s; (ns, s) = dec_nats s in \<lparr>clq_session_id = is, clq_version = ns\<rparr>)\<rparr>"

lemma connect_codec_law: "connect_law connect_codec"
  using plain_codec_law by (simp add: connect_law_def connect_codec_def codec_law_def)

end
