(* ===== verification/SaberServer_Claims.thy ===== *)
theory SaberServer_Claims
  imports SaberServer_Steps Codec_Example
begin

text \<open>
  The properties of the server: when pointers can be locked, the path of a connect request from the
  message to the reply, and the end of a session with its last connection.
\<close>

section \<open>The example server\<close>

definition ex_node_env :: "bool \<Rightarrow> bool \<Rightarrow> server_env" where
  "ex_node_env master accept =
     \<lparr>env_has_node = True,
      env_node = \<lparr>env_is_master = (\<lambda>_. master), env_master = (\<lambda>_. None), env_propose = (\<lambda>_ _. accept), env_now = 0,
        env_alive = (\<lambda>_. True), env_max_data = 1048576\<rparr>,
      env_loop = (\<lambda>_. 0), env_connected = (\<lambda>_. True), env_group_size = 1, env_hash = (\<lambda>_. 0),
      env_members = (\<lambda>_. ([], 0))\<rparr>"

definition ex_senv :: "bool \<Rightarrow> server_env" where
  "ex_senv master = ex_node_env master True"

definition ex_connect :: "u64 \<Rightarrow> SaberMessage" where
  "ex_connect sid = \<lparr>sm_type = MT_CONNECT, sm_id = 9,
     sm_data = ser_ConnectRequest connect_codec \<lparr>cnq_session_id = sid, cnq_version = 0\<rparr>, sm_extra_data = ''/a''\<rparr>"

definition ex_v0 :: SaberServer where
  "ex_v0 = SaberServer_new 0 8 2 1 [0]"

text \<open>A client connects; its first request is not taken, its second one is. The ids of the requests are 0 and 1.\<close>

definition ex_msg_step :: "server_env \<Rightarrow> conn \<Rightarrow> u64 \<Rightarrow> SaberServer \<Rightarrow> SaberServer" where
  "ex_msg_step env p sid v = fst (fst (the (server_OnMessage connect_codec env p (ex_connect sid) v)))"

definition ex_v1 :: SaberServer where
  "ex_v1 = the (OnConnection (ex_senv True) True 1 ex_v0)"

definition ex_w1 :: SaberServer where
  "ex_w1 = ex_msg_step (ex_node_env True False) 1 0 ex_v1"

definition ex_v2 :: SaberServer where
  "ex_v2 = ex_msg_step (ex_senv True) 1 0 ex_w1"

text \<open>The log executes the connect proposal as instance \<open>i\<close> and its callback runs.\<close>

definition ex_answer :: "u64 \<Rightarrow> SaberServer \<Rightarrow> SaberServer" where
  "ex_answer i v =
     (let ctx = hd (srv_pending v);
          (db, ok) = DB_CreateSession 0 (cx_session_id ctx) i (if i = 5 then 0 else 5) (srv_db v)
      in fst (the (connect_answer connect_codec (ex_senv True) ctx i
           ((cx_reply ctx)\<lparr>sm_data := ser_ConnectResponse connect_codec ConnectResponse_default\<rparr>) (v\<lparr>srv_db := db\<rparr>))))"

definition ex_v3 :: SaberServer where
  "ex_v3 = ex_answer 5 ex_v2"

text \<open>While no other thread holds a session, every step is calm.\<close>

lemma calm_quiet: "calm_reach pb v \<Longrightarrow> srv_locked v = [] \<Longrightarrow> server_step pb v out v' \<Longrightarrow> calm_reach pb v'"
  by (rule calm_reach.calm) (auto simp: calm_step_def)

lemma ex_v1_reach: "calm_reach connect_codec ex_v1"
proof -
  have "OnConnection (ex_senv True) True 1 ex_v0 \<noteq> None" by code_simp
  then have "OnConnection (ex_senv True) True 1 ex_v0 = Some ex_v1" by (simp add: ex_v1_def)
  then show ?thesis using calm_reach.calm_start unfolding ex_v0_def
    by (rule calm_quiet [OF _ _ server_step.connection, rotated 2]) (simp add: SaberServer_new_def Let_def)
qed

lemma ex_msg_step_reach:
  assumes "calm_reach connect_codec v" and "srv_locked v = []" and "env_ok env v"
    and "server_OnMessage connect_codec env p (ex_connect sid) v \<noteq> None"
  shows "calm_reach connect_codec (ex_msg_step env p sid v)"
proof -
  obtain out b where "server_OnMessage connect_codec env p (ex_connect sid) v = Some ((ex_msg_step env p sid v, out), b)"
    using assms(4) by (auto simp: ex_msg_step_def)
  then show ?thesis using assms(1-3) by (blast intro: calm_quiet server_step.message)
qed

lemma ex_v2_reach: "calm_reach connect_codec ex_v2"
proof -
  have "env_ok (ex_node_env True False) ex_v1" "env_ok (ex_senv True) ex_w1" "srv_locked ex_v1 = []" "srv_locked ex_w1 = []"
    "server_OnMessage connect_codec (ex_node_env True False) 1 (ex_connect 0) ex_v1 \<noteq> None"
    "server_OnMessage connect_codec (ex_senv True) 1 (ex_connect 0) ex_w1 \<noteq> None" by code_simp+
  then show ?thesis using ex_v1_reach unfolding ex_v2_def ex_w1_def by (intro ex_msg_step_reach)
qed

lemma ex_v3_reach: "calm_reach connect_codec ex_v3"
proof -
  let ?ctx = "hd (srv_pending ex_v2)"
  let ?db = "fst (DB_CreateSession 0 (cx_session_id ?ctx) 5 0 (srv_db ex_v2))"
  let ?v = "ex_v2\<lparr>srv_db := ?db\<rparr>"
  let ?r = "(cx_reply ?ctx)\<lparr>sm_data := ser_ConnectResponse connect_codec ConnectResponse_default\<rparr>"
  have p: "?ctx \<in> set (srv_pending ?v)" using hd_in_set [of "srv_pending ex_v2"] by (simp, code_simp)
  have quiet: "srv_locked ex_v2 = []" and some: "connect_answer connect_codec (ex_senv True) ?ctx 5 ?r ?v \<noteq> None" by code_simp+
  then obtain out where A: "connect_answer connect_codec (ex_senv True) ?ctx 5 ?r ?v = Some (ex_v3, out)"
    by (auto simp: ex_v3_def ex_answer_def Let_def case_prod_beta)
  have "calm_reach connect_codec ?v" by (rule calm_quiet [OF ex_v2_reach quiet server_step.log])
  then show ?thesis using quiet by (intro calm_quiet [OF _ _ server_step.answer [OF p A]]) simp_all
qed

section \<open>Pointers\<close>

text \<open>C25: the weak pointers in \<^verbatim>\<open>sessions_\<close>, in every state that a server can reach by interleaving the steps of its
  threads. A registration that can be locked leads to the session of its id and group; one that cannot is one
  that nobody can hold again. And in a run in which no entry dies while another thread holds its session, every
  registration can be locked and leads to a session that the entry of a connection holds, so that the assertion of
  \<^verbatim>\<open>CreateSession\<close> cannot fail.\<close>

theorem registered_sessions_live:
  assumes R: "server_reach pb v" and g: "valid_gid v g" and f: "um_find (group_sessions g v) sid = Some w"
  shows "(case um_find (srv_heap v) w of
      Some s \<Rightarrow> sess_id s = sid \<and> sess_group s = g
    | None \<Rightarrow> session_holders v w = [] \<and> w \<notin> set (srv_locked v) \<and> w < srv_fresh v) \<and>
    (calm_reach pb v \<longrightarrow> (\<exists>s e en. um_find (srv_heap v) w = Some s \<and>
      um_find (srv_entries v) e = Some en \<and> en_started en \<and> en_session en = Some w))"
proof -
  have ok: "srv_ok v" by (rule srv_ok_reach [OF R])
  note Z = store_okD [OF srv_okD(2) [OF ok]]
  have reg: "smap (stores_of v) g sid = Some w" using f by (simp add: smap_stores [OF g])
  have "session_holders v w = [] \<and> w \<notin> set (srv_locked v) \<and> w < srv_fresh v" if "session_at v w = None"
  proof -
    have "\<not> holds (entry_at v) x w" for x using Z(1) that by (fastforce simp: entries_ok_def holds_def)
    moreover have "w \<notin> set (srv_locked v)" using Z(3) that by (auto simp: locks_ok_def)
    moreover have "w < srv_fresh v" using Z(4) reg unfolding smap_ok_def stores_of_simps by blast
    ultimately show ?thesis using no_holder [OF srv_okD(1) [OF ok], of w] by blast
  qed
  moreover have "\<exists>s e en. session_at v w = Some s \<and> entry_at v e = Some en \<and> en_started en \<and> en_session en = Some w"
    if "calm_reach pb v"
  proof -
    have "smap_live (stores_of v)" using store_okD(6) [OF srv_okD(2) [OF srv_live_reach [OF that]]] by simp
    then obtain e en where "entry_at v e = Some en" "en_session en = Some w" using reg unfolding smap_live_def holds_def stores_of_simps by blast
    then show ?thesis using Z(1) by (fastforce simp: entries_ok_def)
  qed
  ultimately show ?thesis using registered_session [OF ok g f] by (auto split: option.split)
qed

theorem registered_sessions_live_witness:
  "\<exists>w s e en. um_find (group_sessions 0 ex_v3) 1 = Some w \<and> um_find (srv_heap ex_v3) w = Some s \<and>
    sess_id s = 1 \<and> um_find (srv_entries ex_v3) e = Some en \<and> en_session en = Some w"
proof -
  have "um_find (group_sessions 0 ex_v3) 1 \<noteq> None" and g: "valid_gid ex_v3 0" by code_simp+
  then obtain w where w: "um_find (group_sessions 0 ex_v3) 1 = Some w" by blast
  note L = registered_sessions_live [OF calm_reach_reach [OF ex_v3_reach] g w]
  then obtain s e en where "um_find (srv_heap ex_v3) w = Some s" "um_find (srv_entries ex_v3) e = Some en" "en_session en = Some w"
    using ex_v3_reach by blast
  then show ?thesis using w L by auto
qed

section \<open>Connecting\<close>

lemma OnConnectRequest_proposal:
  assumes "OnConnectRequest pb env root g e en m v = ((v1, out), b)" and "ProposeConnect g' bytes ctx \<in> set out"
  shows "g' = g \<and> cx_group ctx = g \<and> cx_entry ctx = e \<and>
    cx_reply ctx = m\<lparr>sm_data := ser_ConnectResponse pb (ConnectResponse_default\<lparr>cnr_code := RC_FAILED\<rparr>)\<rparr> \<and>
    (\<exists>ver. bytes = ser_SaberMessage pb
       (m\<lparr>sm_data := ser_ConnectRequest pb \<lparr>cnq_session_id = cx_session_id ctx, cnq_version = ver\<rparr>\<rparr>))"
  using assms by (auto simp: OnConnectRequest_def Let_def case_prod_beta split: if_splits option.splits)

lemma Execute_connect:
  assumes law: "connect_law pb" and ty: "sm_type m = MT_CONNECT"
  shows "Execute pb g i (ser_SaberMessage pb
      (m\<lparr>sm_data := ser_ConnectRequest pb \<lparr>cnq_session_id = sid, cnq_version = ver\<rparr>\<rparr>)) (Some r) db =
    (let (db, b) = DB_CreateSession g sid i ver db;
         response = (if b then ConnectResponse_default else ConnectResponse_default\<lparr>cnr_code := RC_UNKNOWN\<rparr>)
     in (db, True, Some (r\<lparr>sm_data := ser_ConnectResponse pb response\<rparr>), []))"
  using law ty by (simp add: Execute_def Let_def connect_law_def codec_law_def set_reply_def)

lemma DB_CreateSession_cases:
  assumes "valid_group db g"
  shows "DB_FindVersion g sid (fst (DB_CreateSession g sid i ver db)) =
    (if snd (DB_CreateSession g sid i ver db) then Some i else DB_FindVersion g sid db)"
  using assms by (auto simp: DB_CreateSession_def DB_FindVersion_def SM_CreateSession_def SM_FindVersion_def Let_def
      put_sessions_def valid_group_def split: option.split)

text \<open>What \<open>CreateSession\<close> leaves for the entry of a callback, when a registration of the id can be locked.\<close>

definition lockable :: "SaberServer \<Rightarrow> u32 \<Rightarrow> u64 \<Rightarrow> bool" where
  "lockable v g sid \<longleftrightarrow> (case um_find (group_sessions g v) sid of None \<Rightarrow> True | Some w \<Rightarrow> um_find (srv_heap v) w \<noteq> None)"

lemma CreateSession_result:
  assumes ok: "srv_okl L v" and e: "entry_at v e = Some en" and g: "valid_gid v g" and l: "lockable v g sid"
  obtains v' w s where
    "server_CreateSession env root g sid ver e v = Some (v', um_find (group_sessions g v) sid \<noteq> None)"
    "entry_at v' e = Some (en\<lparr>en_session := Some w\<rparr>)" "session_at v' w = Some s" "sess_id s = sid"
    "sess_group s = g" "sess_version s = ver" "um_find (group_sessions g v') sid = Some w"
    "srv_buckets v' = srv_buckets v" "srv_pending v' = srv_pending v" "session_timeout v' = session_timeout v"
proof (cases "um_find (group_sessions g v) sid")
  case None
  have "unat g < length (srv_sessions v)" using g by (simp add: valid_gid_def)
  then show thesis using that None e
    by (auto simp: server_CreateSession_def Let_def SaberSession_new_def put_group_sessions_def group_sessions_def)
next
  case (Some w)
  then obtain s where s: "session_at v w = Some s" using l by (auto simp: lockable_def)
  note reg = registered_session [OF ok g Some s]
  show thesis
    by (rule that [of "v\<lparr>srv_heap := um_set w ((OnConnect (alive_conn env (en_conn en)) s)\<lparr>sess_version := ver\<rparr>) (srv_heap v),
            srv_entries := um_set e (en\<lparr>en_session := Some w\<rparr>) (srv_entries v)\<rparr>" w "(OnConnect (alive_conn env (en_conn en)) s)\<lparr>sess_version := ver\<rparr>"])
      (use e Some s reg in \<open>simp_all add: server_CreateSession_def OnConnect_def group_sessions_def\<close>)
qed

lemma release_held: "entry_held v e \<Longrightarrow> release pb env [e] v = (v, [])"
  by simp

text \<open>The two outcomes of the callback while the entry is held.\<close>

lemma callback_refused:
  assumes e: "cx_entry ctx = e" "entry_at v e = Some en" and res: "cnr_code (parse_ConnectResponse pb (sm_data r)) \<noteq> RC_OK"
    and held: "entry_held (v\<lparr>srv_pending := remove1 ctx (srv_pending v)\<rparr>) e"
  obtains c v' where "connect_callback pb env ctx i r v = Some (v', [ServerSend c r])" "entry_at v' e = Some (en\<lparr>en_started := False\<rparr>)"
proof -
  let ?v = "(set_started e False v)\<lparr>srv_pending := remove1 ctx (srv_pending v)\<rparr>"
  have "entry_held ?v e" using held by (simp add: entry_held_def)
  note rel = release_held [OF this]
  obtain c where "connect_answer pb env ctx i r v = Some (?v, [ServerSend c r])"
    using res by (simp add: connect_answer_def Let_def e(1))
  then have "connect_callback pb env ctx i r v = Some (?v, [ServerSend c r])"
    by (simp add: connect_callback_def e(1) rel del: release.simps)
  then show thesis using that by (simp add: set_started_find [OF e(2)])
qed

definition accepted :: "bool \<Rightarrow> u64 \<Rightarrow> u32 \<Rightarrow> ConnectResponse" where
  "accepted again sid timeout = ConnectResponse_default
     \<lparr>cnr_code := (if again then RC_RECONNECT else RC_OK), cnr_session_id := sid, cnr_timeout := ucast timeout\<rparr>"

lemma callback_accepted:
  assumes ok: "srv_okl L v" and cx: "cx_entry ctx = e" "cx_group ctx = g" and en: "entry_at v e = Some en" and g: "valid_gid v g"
    and l: "lockable v g (cx_session_id ctx)" and res: "parse_ConnectResponse pb (sm_data r) = ConnectResponse_default"
    and held: "entry_held (v\<lparr>srv_pending := remove1 ctx (srv_pending v)\<rparr>) e"
  defines "again \<equiv> um_find (group_sessions g v) (cx_session_id ctx) \<noteq> None"
  obtains v' c w s where "connect_callback pb env ctx i r v =
      Some (v', [ServerSend c (r\<lparr>sm_data := ser_ConnectResponse pb (accepted again (cx_session_id ctx) (session_timeout v))\<rparr>)])"
    "entry_at v' e = Some (en\<lparr>en_session := Some w\<rparr>)"
    "session_at v' w = Some s" "sess_id s = cx_session_id ctx" "sess_group s = g" "sess_version s = i"
    "um_find (group_sessions g v') (cx_session_id ctx) = Some w"
proof -
  obtain v1 w s where C: "server_CreateSession env (cx_root ctx) g (cx_session_id ctx) i e v = Some (v1, again)"
    and w: "entry_at v1 e = Some (en\<lparr>en_session := Some w\<rparr>)" "session_at v1 w = Some s" "sess_id s = cx_session_id ctx"
      "sess_group s = g" "sess_version s = i" "um_find (group_sessions g v1) (cx_session_id ctx) = Some w"
    and fr: "srv_buckets v1 = srv_buckets v" "srv_pending v1 = srv_pending v" "session_timeout v1 = session_timeout v"
    unfolding again_def by (rule CreateSession_result [OF ok en g l])
  let ?v = "v1\<lparr>srv_pending := remove1 ctx (srv_pending v1)\<rparr>"
  let ?m = "r\<lparr>sm_data := ser_ConnectResponse pb (accepted again (cx_session_id ctx) (session_timeout v))\<rparr>"
  have "entry_held ?v e" using held fr by (simp add: entry_held_def)
  note rel = release_held [OF this]
  obtain c where "connect_answer pb env ctx i r v = Some (?v, [ServerSend c ?m])"
    using C res fr(3) by (auto simp: connect_answer_def Let_def cx accepted_def ConnectResponse_default_def)
  then have "connect_callback pb env ctx i r v = Some (?v, [ServerSend c ?m])"
    by (simp add: connect_callback_def cx(1) rel del: release.simps)
  then show thesis by (rule that) (use w in \<open>simp_all add: group_sessions_def\<close>)
qed

text \<open>The reply as the log leaves it, and the version in the database.\<close>

lemma connect_executed:
  assumes law: "connect_law pb" and ty: "sm_type m = MT_CONNECT"
    and O: "OnConnectRequest pb env root g e en m v = ((v1, out), b)" and P: "ProposeConnect g' bytes ctx \<in> set out"
    and vg: "valid_group db g" and X: "Execute pb g' i bytes (Some (cx_reply ctx)) db = (db', ok, Some r, ns)"
  obtains won where "parse_ConnectResponse pb (sm_data r) =
      (if won then ConnectResponse_default else ConnectResponse_default\<lparr>cnr_code := RC_UNKNOWN\<rparr>)"
    "DB_FindVersion g (cx_session_id ctx) db' = (if won then Some i else DB_FindVersion g (cx_session_id ctx) db)"
    "sm_id r = sm_id m" "sm_type r = MT_CONNECT"
proof -
  obtain ver where g': "g' = g" and bytes: "bytes = ser_SaberMessage pb
      (m\<lparr>sm_data := ser_ConnectRequest pb \<lparr>cnq_session_id = cx_session_id ctx, cnq_version = ver\<rparr>\<rparr>)"
    and rep: "sm_id (cx_reply ctx) = sm_id m" "sm_type (cx_reply ctx) = MT_CONNECT"
    using OnConnectRequest_proposal [OF O P] ty by auto
  define won where "won = snd (DB_CreateSession g (cx_session_id ctx) i ver db)"
  have D: "DB_CreateSession g (cx_session_id ctx) i ver db = (db', won)"
    and r: "r = (cx_reply ctx)\<lparr>sm_data := ser_ConnectResponse pb
       (if won then ConnectResponse_default else ConnectResponse_default\<lparr>cnr_code := RC_UNKNOWN\<rparr>)\<rparr>"
    using X unfolding bytes g' Execute_connect [OF law ty] won_def by (auto simp: Let_def case_prod_beta)
  show thesis using that [of won] DB_CreateSession_cases [OF vg, of "cx_session_id ctx" i ver] law rep
    by (simp add: D r connect_law_def)
qed

text \<open>C21: the way of a connect request through the system. If the server proposes a connect, then whenever
  the log executes the entry and the callback runs while the connection has not timed out, and a registration
  of the session id, if there is one, can be locked, the callback returns and the client gets
  exactly one reply with the number of its request. Either the session of that id now has the instance as
  version in the database, is registered here, is held by the entry of the connection with the same version,
  and the reply names it and the timeout, saying whether it was registered before; or another
  connection was faster: the reply says \<^verbatim>\<open>RC_UNKNOWN\<close>, the database has kept its version of this session, and the entry of the
  connection has no session and may try again.\<close>

theorem connect_end_to_end:
  assumes law: "connect_law pb" and ty: "sm_type m = MT_CONNECT"
    and O: "OnConnectRequest pb env root g e en m v = ((v1, out), b)" and P: "ProposeConnect g' bytes ctx \<in> set out"
    and vg: "valid_group db g" and X: "Execute pb g' i bytes (Some (cx_reply ctx)) db = (db', ok, Some r, ns)"
    and R: "server_reach pb v2" and pend: "ctx \<in> set (srv_pending v2)"
    and held: "entry_held (v2\<lparr>srv_pending := remove1 ctx (srv_pending v2)\<rparr>) e"
    and l: "lockable v2 g (cx_session_id ctx)"
  shows "\<exists>v3 c m' en' res. connect_callback pb env2 ctx i r v2 = Some (v3, [ServerSend c m']) \<and>
    sm_id m' = sm_id m \<and> sm_type m' = MT_CONNECT \<and>
    res = parse_ConnectResponse pb (sm_data m') \<and> um_find (srv_entries v3) e = Some en' \<and>
    (if cnr_code res = RC_UNKNOWN
     then en_session en' = None \<and> \<not> en_started en' \<and>
       DB_FindVersion g (cx_session_id ctx) db' = DB_FindVersion g (cx_session_id ctx) db
     else cnr_code res = (if um_find (group_sessions g v2) (cx_session_id ctx) = None then RC_OK else RC_RECONNECT) \<and>
       cnr_session_id res = cx_session_id ctx \<and> cnr_timeout res = ucast (session_timeout v2) \<and>
       DB_FindVersion g (cx_session_id ctx) db' = Some i \<and>
       (\<exists>w s. en_session en' = Some w \<and> um_find (srv_heap v3) w = Some s \<and> sess_id s = cx_session_id ctx \<and>
          sess_group s = g \<and> sess_version s = i \<and> um_find (group_sessions g v3) (cx_session_id ctx) = Some w))"
proof -
  have cx: "cx_group ctx = g" "cx_entry ctx = e" using OnConnectRequest_proposal [OF O P] by blast+
  obtain won where res: "parse_ConnectResponse pb (sm_data r) =
      (if won then ConnectResponse_default else ConnectResponse_default\<lparr>cnr_code := RC_UNKNOWN\<rparr>)"
    and ver: "DB_FindVersion g (cx_session_id ctx) db' = (if won then Some i else DB_FindVersion g (cx_session_id ctx) db)"
    and r: "sm_id r = sm_id m" "sm_type r = MT_CONNECT" by (rule connect_executed [OF law ty O P vg X])
  have ok2: "srv_ok v2" by (rule srv_ok_reach [OF R])
  obtain en2 where en2: "entry_at v2 e = Some en2" "en_session en2 = None" and vg2: "valid_gid v2 g"
    using pending_entry [OF ok2 pend] unfolding cx by metis
  show ?thesis
  proof (cases won)
    case True
    let ?again = "um_find (group_sessions g v2) (cx_session_id ctx) \<noteq> None"
    let ?res = "accepted ?again (cx_session_id ctx) (session_timeout v2)"
    have "parse_ConnectResponse pb (sm_data r) = ConnectResponse_default" using res True by simp
    from callback_accepted [OF ok2 cx(2,1) en2(1) vg2 l this held, of env2 i] obtain v3 c w s where
      C: "connect_callback pb env2 ctx i r v2 = Some (v3, [ServerSend c (r\<lparr>sm_data := ser_ConnectResponse pb ?res\<rparr>)])"
      and w: "entry_at v3 e = Some (en2\<lparr>en_session := Some w\<rparr>)" "session_at v3 w = Some s" "sess_id s = cx_session_id ctx"
        "sess_group s = g" "sess_version s = i" "um_find (group_sessions g v3) (cx_session_id ctx) = Some w" by blast
    have "?res = parse_ConnectResponse pb (ser_ConnectResponse pb ?res)" using law by (simp add: connect_law_def)
    moreover have "cnr_code ?res = (if um_find (group_sessions g v2) (cx_session_id ctx) = None then RC_OK else RC_RECONNECT)"
      "cnr_session_id ?res = cx_session_id ctx" "cnr_timeout ?res = ucast (session_timeout v2)" "cnr_code ?res \<noteq> RC_UNKNOWN"
      by (simp_all add: accepted_def)
    ultimately show ?thesis using C w r ver True
      by (intro exI [of _ v3] exI [of _ c] exI [of _ "r\<lparr>sm_data := ser_ConnectResponse pb ?res\<rparr>"]
          exI [of _ "en2\<lparr>en_session := Some w\<rparr>"] exI [of _ ?res]) (simp only: if_False simp_thms, simp)
  next
    case False
    then have "cnr_code (parse_ConnectResponse pb (sm_data r)) \<noteq> RC_OK" using res by simp
    from callback_refused [OF cx(2) en2(1) this held, of env2 i]
    obtain c v3 where "connect_callback pb env2 ctx i r v2 = Some (v3, [ServerSend c r])" "entry_at v3 e = Some (en2\<lparr>en_started := False\<rparr>)" .
    then show ?thesis using r ver False en2 res
      by (intro exI [of _ v3] exI [of _ c] exI [of _ r] exI [of _ "en2\<lparr>en_started := False\<rparr>"] exI) auto
  qed
qed

definition ex_request :: SaberMessage where
  "ex_request = (ex_connect 0)\<lparr>sm_extra_data := []\<rparr>"

theorem connect_end_to_end_witness:
  "\<exists>ctx bytes out db' r v3 c m' en' w. out = [ProposeConnect 0 bytes ctx] \<and>
     snd (fst (OnConnectRequest connect_codec (ex_senv True) ''/a'' 0 0 (the (um_find (srv_entries ex_w1) 0)) ex_request ex_w1)) = out \<and>
     Execute connect_codec 0 5 bytes (Some (cx_reply ctx)) (srv_db ex_v2) = (db', True, Some r, []) \<and>
     connect_callback connect_codec (ex_senv True) ctx 5 r ex_v2 = Some (v3, [ServerSend c m']) \<and>
     cnr_session_id (parse_ConnectResponse connect_codec (sm_data m')) = 1 \<and>
     um_find (srv_entries v3) 0 = Some en' \<and>
     en_session en' = Some w"
proof -
  let ?O = "OnConnectRequest connect_codec (ex_senv True) ''/a'' 0 0 (the (um_find (srv_entries ex_w1) 0)) ex_request ex_w1"
  obtain v1 out b where O: "?O = ((v1, out), b)" by (metis prod.collapse)
  have "case snd (fst ?O) of [ProposeConnect g bytes ctx] \<Rightarrow> g = 0 \<and> ctx = hd (srv_pending ex_v2) \<and> cx_session_id ctx = 1 \<and>
      DB_FindVersion 0 1 (fst (Execute connect_codec 0 5 bytes (Some (cx_reply ctx)) (srv_db ex_v2))) = Some 5 | _ \<Rightarrow> False"
    by code_simp
  then obtain bytes where out: "out = [ProposeConnect 0 bytes (hd (srv_pending ex_v2))]" and sid: "cx_session_id (hd (srv_pending ex_v2)) = 1"
    and won: "DB_FindVersion 0 1 (fst (Execute connect_codec 0 5 bytes (Some (cx_reply (hd (srv_pending ex_v2)))) (srv_db ex_v2))) = Some 5"
    unfolding O by (cases out rule: remdups_adj.cases) (auto split: server_effect.splits)
  let ?ctx = "hd (srv_pending ex_v2)"
  have law: "connect_law connect_codec" by (rule connect_codec_law)
  have ty: "sm_type ex_request = MT_CONNECT" by (simp add: ex_request_def ex_connect_def)
  have in_out: "ProposeConnect 0 bytes ?ctx \<in> set out" by (simp add: out)
  have vg: "valid_group (srv_db ex_v2) 0" "?ctx \<in> set (srv_pending ex_v2)"
    "entry_held (ex_v2\<lparr>srv_pending := remove1 ?ctx (srv_pending ex_v2)\<rparr>) 0"
    "group_sessions 0 ex_v2 = []" by code_simp+
  obtain ver where bytes: "bytes = ser_SaberMessage connect_codec
      (ex_request\<lparr>sm_data := ser_ConnectRequest connect_codec \<lparr>cnq_session_id = cx_session_id ?ctx, cnq_version = ver\<rparr>\<rparr>)"
    using OnConnectRequest_proposal [OF O in_out] by blast
  obtain db' r where X: "Execute connect_codec 0 5 bytes (Some (cx_reply ?ctx)) (srv_db ex_v2) = (db', True, Some r, [])"
    unfolding bytes Execute_connect [OF law ty] by (auto simp: Let_def case_prod_beta)
  have l: "lockable ex_v2 0 (cx_session_id ?ctx)" by (simp add: lockable_def vg(4))
  have "DB_FindVersion 0 1 (srv_db ex_v2) = None" by code_simp
  then show ?thesis
    using connect_end_to_end [OF law ty O in_out vg(1) X calm_reach_reach [OF ex_v2_reach] vg(2,3) l, of "ex_senv True"] O out X sid won
    by (auto simp: vg(4) split: if_splits)
qed

section \<open>The end of a connection\<close>

text \<open>What is left when an entry with a session has died and its member is released, no other thread coming between.\<close>

lemma destroy_parts:
  assumes en: "entry_at v e = Some en" "en_session en = Some w" and D: "destroy_entry pb env e v = (v', out)"
  shows "v' = drop_session w ((fst (CloseSession pb env w v))\<lparr>srv_entries := um_erase e (srv_entries v)\<rparr>)"
    and "set out = set (snd (CloseSession pb env w v)) \<union>
      (if env_alive (env_node env) (en_conn en) then {ShutDown (en_conn en)} else {})"
proof -
  have same: "(fst (CloseSession pb env w v))\<lparr>srv_entries := x, srv_locked := srv_locked v\<rparr> =
      (fst (CloseSession pb env w v))\<lparr>srv_entries := x\<rparr>" for x
    using CloseSession_frame(2) [of pb env w v] by (cases "fst (CloseSession pb env w v)") simp
  have "v' = drop_session w ((fst (CloseSession pb env w v))\<lparr>srv_entries := um_erase e (srv_entries v), srv_locked := srv_locked v\<rparr>)"
    using D by (auto simp: destroy_entry_state [OF en] entry_dtor_state [OF en] unlock_session_def CloseSession_frame)
  then show "v' = drop_session w ((fst (CloseSession pb env w v))\<lparr>srv_entries := um_erase e (srv_entries v)\<rparr>)"
    by (simp only: same)
  show "set out = set (snd (CloseSession pb env w v)) \<union>
      (if env_alive (env_node env) (en_conn en) then {ShutDown (en_conn en)} else {})"
    using D en by (auto simp: destroy_entry_def entry_dtor_def Let_def case_prod_beta split: if_splits)
qed

text \<open>C26: when the entry of a connection dies, its session is closed exactly if this was the last shared pointer to it
  (no other entry and no other thread holds it), this server is the master of the group, and the session has not been
  moved to another server in the meantime: then, and only then, a close of exactly this session with exactly this
  version is proposed. The session object dies with its last holder, and no other session is touched.\<close>

theorem entry_end_closes_session:
  assumes law: "connect_law pb" and R: "srv_ok v" and free: "\<not> entry_held v e"
    and en: "um_find (srv_entries v) e = Some en" "en_session en = Some w" and s: "um_find (srv_heap v) w = Some s"
    and D: "destroy_entry pb env e v = (v', out)"
  shows "(ProposeClose g bytes \<in> set out \<longleftrightarrow>
      session_holders v w = [e] \<and> w \<notin> set (srv_locked v) \<and> env_is_master (env_node env) (sess_group s) \<and>
      DB_FindVersion (sess_group s) (sess_id s) (srv_db v) = Some (sess_version s) \<and> g = sess_group s \<and>
      bytes = ser_SaberMessage pb (SaberMessage_default\<lparr>sm_type := MT_CLOSE,
        sm_data := ser_CloseRequest pb \<lparr>clq_session_id = [sess_id s], clq_version = [sess_version s]\<rparr>\<rparr>)) \<and>
    (um_find (srv_heap v') w = None \<longleftrightarrow> session_holders v w = [e] \<and> w \<notin> set (srv_locked v)) \<and>
    (\<forall>u. u \<noteq> w \<longrightarrow> um_find (srv_heap v') u = um_find (srv_heap v) u) \<and> srv_ok v'"
proof -
  have wf: "um_wf (srv_entries v)" by (rule srv_okD(1) [OF R])
  have h: "holds (entry_at v) e w" using en by (simp add: holds_def)
  note parts = destroy_parts [OF en D]
  let ?v2 = "(fst (CloseSession pb env w v))\<lparr>srv_entries := um_erase e (srv_entries v)\<rparr>"
  have "um_wf (srv_entries ?v2)" using wf by simp
  moreover have "holds (entry_at ?v2) x w \<longleftrightarrow> x \<noteq> e \<and> holds (entry_at v) x w" for x by (simp add: holds_def)
  ultimately have "session_uses ?v2 w = 0 \<longleftrightarrow> (\<forall>x. x \<noteq> e \<longrightarrow> \<not> holds (entry_at v) x w) \<and> w \<notin> set (srv_locked v)"
    using session_uses_0 [of ?v2 w] by (auto simp: CloseSession_frame)
  then have gone: "session_uses ?v2 w = 0 \<longleftrightarrow> session_uses v w = 1" using session_uses_1 [OF wf h] by blast
  have "session_holders v w = [e]" if "length (session_holders v w) = 1"
  proof -
    have "e \<in> set (session_holders v w)" using session_holders_set [OF wf, of w] h by simp
    then show ?thesis using that by (cases "session_holders v w") auto
  qed
  moreover have "session_holders v w \<noteq> []" using no_holder [OF wf, of w] h by blast
  ultimately have sole: "session_uses v w = 1 \<longleftrightarrow> session_holders v w = [e] \<and> w \<notin> set (srv_locked v)"
    by (cases "session_holders v w") (auto simp: session_uses_def count_list_0_iff)
  have "DB_FindSession k sid n db \<longleftrightarrow> DB_FindVersion k sid db = Some n" for k sid n db
    by (auto simp: DB_FindSession_def DB_FindVersion_def SM_FindSession_def SM_FindVersion_def split: option.split)
  then have "ProposeClose g bytes \<in> set out \<longleftrightarrow>
      session_uses v w = 1 \<and> env_is_master (env_node env) (sess_group s) \<and>
      DB_FindVersion (sess_group s) (sess_id s) (srv_db v) = Some (sess_version s) \<and> g = sess_group s \<and>
      bytes = ser_SaberMessage pb (SaberMessage_default\<lparr>sm_type := MT_CLOSE,
        sm_data := ser_CloseRequest pb \<lparr>clq_session_id = [sess_id s], clq_version = [sess_version s]\<rparr>\<rparr>)"
    using s by (auto simp: parts(2) CloseSession_def Let_def OnCloseRequest_def)
  moreover have "session_at v' u = (if u = w \<and> session_uses v w = 1 then None else session_at v u)" for u
    using s by (simp add: parts(1) drop_session_def CloseSession_frame gone)
  moreover have "srv_ok v'" using srv_ok_destroy [OF R free, of pb env] D by simp
  ultimately show ?thesis using s sole by simp
qed

text \<open>The client reconnects while this server is no longer and again the master, on a second connection.\<close>

definition ex_tick :: "SaberServer \<Rightarrow> SaberServer" where
  "ex_tick v = fst (the (server_OnTimer connect_codec (ex_senv True) 0 v))"

definition ex_v4 :: SaberServer where
  "ex_v4 = ex_tick (fst (CleanSessions connect_codec (ex_senv False) 0 ex_v3))"

definition ex_v5 :: SaberServer where
  "ex_v5 = ex_answer 6 (ex_msg_step (ex_senv True) 2 1 (the (OnConnection (ex_senv True) True 2 ex_v4)))"

text \<open>The last tick before the first entry dies, with its bucket cleared.\<close>

definition ex_v6 :: SaberServer where
  "ex_v6 = (let v = ex_tick (ex_tick ex_v5)
     in v\<lparr>srv_buckets := map (\<lambda>(l, q). (l, fst (the (OnTimer (idle_ticks v) q)))) (srv_buckets v)\<rparr>)"

definition ex_v3_cleared :: SaberServer where
  "ex_v3_cleared = ex_v3\<lparr>srv_buckets := []\<rparr>"

lemma ex_v3_cleared_ok: "srv_ok ex_v3_cleared"
  unfolding ex_v3_cleared_def by (rule srv_ok_frame [OF srv_ok_reach [OF calm_reach_reach [OF ex_v3_reach]]]) simp_all

theorem entry_end_closes_session_witness:
  "\<exists>g bytes. ProposeClose g bytes \<in> set (snd (destroy_entry connect_codec (ex_senv True) 0 ex_v3_cleared)) \<and>
     um_find (srv_heap (fst (destroy_entry connect_codec (ex_senv True) 0 ex_v3_cleared))) 1 = None"
proof -
  let ?D = "destroy_entry connect_codec (ex_senv True) 0 ex_v3_cleared"
  have "case um_find (srv_entries ex_v3_cleared) 0 of None \<Rightarrow> False | Some en \<Rightarrow> en_session en = Some 1" by code_simp
  then obtain en where en: "um_find (srv_entries ex_v3_cleared) 0 = Some en" "en_session en = Some 1"
    by (auto split: option.splits)
  have "case um_find (srv_heap ex_v3_cleared) 1 of None \<Rightarrow> False
      | Some s \<Rightarrow> DB_FindVersion (sess_group s) (sess_id s) (srv_db ex_v3_cleared) = Some (sess_version s)" by code_simp
  then obtain s where s: "um_find (srv_heap ex_v3_cleared) 1 = Some s"
    "DB_FindVersion (sess_group s) (sess_id s) (srv_db ex_v3_cleared) = Some (sess_version s)" by (auto split: option.splits)
  have free: "\<not> entry_held ex_v3_cleared 0" and sole: "session_holders ex_v3_cleared 1 = [0]" "1 \<notin> set (srv_locked ex_v3_cleared)" by code_simp+
  have "env_is_master (env_node (ex_senv True)) g" for g by (simp add: ex_senv_def ex_node_env_def)
  moreover have D: "?D = (fst ?D, snd ?D)" by simp
  ultimately show ?thesis
    using entry_end_closes_session [OF connect_codec_law ex_v3_cleared_ok free en s(1) D] sole s(2) by blast
qed

text \<open>C30: a session object that outlived its registration takes the registration of its successor with it.
  \<^verbatim>\<open>CleanSessions\<close> on a server that lost its mastership empties \<^verbatim>\<open>sessions_\<close> while the entries of the old
  connections still hold their sessions. If the client comes back on a new connection before the old one
  times out, a second object of the same id is registered; when the old entry dies, \<^verbatim>\<open>CloseSession\<close> erases
  the id without looking whose registration it is. The second session is alive and connected, but
  another connect request for its id is no longer refused.\<close>

theorem stale_session_unregisters_newer:
  assumes wf: "um_wf (srv_entries v)" and en: "um_find (srv_entries v) e = Some en" "en_session en = Some w" and sole: "session_holders v w = [e]" "w \<notin> set (srv_locked v)"
    and s: "um_find (srv_heap v) w = Some s" and g: "valid_gid v (sess_group s)"
    and newer: "um_find (group_sessions (sess_group s) v) (sess_id s) = Some w'" "w' \<noteq> w" "um_find (srv_heap v) w' = Some s'"
    and D: "destroy_entry pb env e v = (v', out)"
  shows "um_find (srv_heap v') w' = Some s' \<and> session_holders v' w' = session_holders v w' \<and>
    um_find (group_sessions (sess_group s) v') (sess_id s) = None \<and> \<not> still_connected env' (sess_group s) (sess_id s) v'"
proof -
  let ?v1 = "fst (CloseSession pb env w v)"
  have "session_uses v w = 1" using sole by (simp add: session_uses_def count_list_0_iff)
  then have v1: "?v1 = put_group_sessions (sess_group s) (um_erase (sess_id s) (group_sessions (sess_group s) v)) v"
    by (simp add: CloseSession_state [OF s])
  have d: "srv_sessions v' = srv_sessions ?v1" "srv_entries v' = um_erase e (srv_entries v)"
    "session_at v' u = session_at v u" if "u \<noteq> w" for u
    using that by (simp_all add: destroy_parts(1) [OF en D] v1 drop_session_def split: option.split)
  have "session_holders v' w' = session_holders v w'"
  proof -
    have "filter (\<lambda>(x, y). en_session y = Some w') (um_erase e m) = filter (\<lambda>(x, y). en_session y = Some w') m"
      if "\<forall>y. (e, y) \<in> set m \<longrightarrow> en_session y \<noteq> Some w'" for m
      using that by (induction m) (auto simp: um_erase_def)
    moreover have "en_session y \<noteq> Some w'" if "(e, y) \<in> set (srv_entries v)" for y
      using that en newer(2) um_find_in_set [OF wf] by auto
    ultimately have "filter (\<lambda>(x, y). en_session y = Some w') (um_erase e (srv_entries v)) =
        filter (\<lambda>(x, y). en_session y = Some w') (srv_entries v)" by blast
    then show ?thesis by (simp only: session_holders_def d(2) [OF newer(2)])
  qed
  moreover have "um_find (group_sessions (sess_group s) v') (sess_id s) = None"
    using g by (simp add: group_sessions_def d(1) [OF newer(2)] v1 put_group_sessions_def valid_gid_def)
  ultimately show ?thesis using newer by (simp add: d(3) still_connected_def)
qed

theorem stale_session_unregisters_newer_witness:
  "\<exists>w' s'. um_find (group_sessions 0 ex_v6) 1 = Some w' \<and>
     um_find (srv_heap (fst (destroy_entry connect_codec (ex_senv True) 0 ex_v6))) w' = Some s' \<and>
     um_find (group_sessions 0 (fst (destroy_entry connect_codec (ex_senv True) 0 ex_v6))) 1 = None \<and>
     still_connected (ex_senv True) 0 1 ex_v6 \<and>
     \<not> still_connected (ex_senv True) 0 1 (fst (destroy_entry connect_codec (ex_senv True) 0 ex_v6))"
proof -
  let ?D = "destroy_entry connect_codec (ex_senv True) 0 ex_v6"
  have "case um_find (srv_entries ex_v6) 0 of None \<Rightarrow> False | Some en \<Rightarrow> en_session en = Some 1"
    and "case um_find (srv_heap ex_v6) 1 of None \<Rightarrow> False | Some s \<Rightarrow> sess_group s = 0 \<and> sess_id s = 1"
    and "case um_find (group_sessions 0 ex_v6) 1 of None \<Rightarrow> False | Some w \<Rightarrow> w \<noteq> 1 \<and> um_find (srv_heap ex_v6) w \<noteq> None"
    and hyps: "um_wf (srv_entries ex_v6)" "session_holders ex_v6 1 = [0]" "1 \<notin> set (srv_locked ex_v6)" "valid_gid ex_v6 0" "still_connected (ex_senv True) 0 1 ex_v6"
    by code_simp+
  then obtain en s w' s' where "um_find (srv_entries ex_v6) 0 = Some en" "en_session en = Some 1"
    and s: "um_find (srv_heap ex_v6) 1 = Some s" "sess_group s = 0" "sess_id s = 1"
    and "um_find (group_sessions 0 ex_v6) 1 = Some w'" "w' \<noteq> 1" "um_find (srv_heap ex_v6) w' = Some s'"
    by (auto split: option.splits)
  moreover have "?D = (fst ?D, snd ?D)" by simp
  ultimately show ?thesis
    using stale_session_unregisters_newer [of ex_v6 0 en 1 s w' s' connect_codec "ex_senv True" "fst ?D" "snd ?D" "ex_senv True"] hyps
    by auto
qed

text \<open>C39: an entry that dies while another thread holds its session leaves the session behind. The other thread is a
  callback that delivers a reply, or the destructor of a second entry of the session in another event loop. \<^verbatim>\<open>CloseSession\<close>
  then does not find the session unique: it neither erases the registration nor proposes the close. When the
  other pointer ends, too, the session object is gone, the database still has the session, and the id is registered for an
  object that nobody can lock any more: the delayed clean-up of a new master does not close the session either, and the
  callback of a connect request for the id dereferences a null pointer, where the assertion of
  \<^verbatim>\<open>CreateSession\<close> says that this cannot be.\<close>

theorem late_pointer_leaves_dead_registration:
  assumes ok: "srv_ok v" and g: "valid_gid v g" and reg: "um_find (group_sessions g v) sid = Some w"
    and en: "um_find (srv_entries v) e = Some en" "en_session en = Some w"
    and sole: "session_holders v w = [e]" and other: "srv_locked v = [w]"
    and D: "destroy_entry pb env e v = (v1, out)" and v2: "v2 = unlock_session w v1"
  shows "(\<forall>k bytes. ProposeClose k bytes \<notin> set out) \<and> um_find (srv_heap v2) w = None \<and>
    um_find (group_sessions g v2) sid = Some w \<and>
    DB_FindVersion g sid (srv_db v2) = DB_FindVersion g sid (srv_db v) \<and>
    clean_task pb g [(sid, ver)] v2 = [] \<and>
    server_CreateSession env' root g sid new e' v2 = None"
proof -
  have wf: "um_wf (srv_entries v)" by (rule srv_okD(1) [OF ok])
  have h: "holds (entry_at v) e w" using en by (simp add: holds_def)
  obtain s where s: "session_at v w = Some s" by (rule held_session [OF ok h])
  have uses: "session_uses v w = 2" using sole other by (simp add: session_uses_def)
  have C: "fst (CloseSession pb env w v) = v" "snd (CloseSession pb env w v) = []" using s uses by (simp_all add: CloseSession_def Let_def)
  let ?v = "v\<lparr>srv_entries := um_erase e (srv_entries v)\<rparr>"
  have "\<not> holds (entry_at ?v) x w" for x using session_holders_set [OF wf, of w] sole by (auto simp: holds_def)
  then have none: "session_holders ?v w = []" using no_holder [of ?v w] wf by simp
  have "session_uses ?v w = 1" using none other by (simp add: session_uses_def)
  then have v1: "v1 = ?v" using destroy_parts(1) [OF en D] by (simp add: C drop_session_def)
  have "session_holders (?v\<lparr>srv_locked := []\<rparr>) w = []" using none by (simp add: session_holders_def)
  then have v2': "v2 = ?v\<lparr>srv_locked := [], srv_db := SaberSession_destroy s (srv_db v), srv_heap := um_erase w (srv_heap v)\<rparr>"
    using s by (simp add: v2 v1 unlock_session_def other drop_session_def session_uses_def)
  have db: "DB_FindVersion g sid (SaberSession_destroy s d) = DB_FindVersion g sid d" for d
    by (simp add: SaberSession_destroy_def DB_RemoveWatcher_def DB_FindVersion_def put_tree_def)
  have "um_find (group_sessions g v2) sid = Some w" "session_at v2 w = None" using reg by (simp_all add: v2' group_sessions_def)
  moreover have "ProposeClose k bytes \<notin> set out" for k bytes using destroy_parts(2) [OF en D] by (simp add: C)
  moreover have "DB_FindVersion g sid (srv_db v2) = DB_FindVersion g sid (srv_db v)" using db [of "srv_db v"] by (simp add: v2')
  ultimately show ?thesis by (auto simp: server_CreateSession_def clean_task_def split: option.split)
qed

text \<open>The connection of the client times out while a reply is delivered to it; the client comes back on a second one.\<close>

definition ex_v3_locked :: SaberServer where
  "ex_v3_locked = lock_session 1 ex_v3_cleared"

theorem late_pointer_leaves_dead_registration_witness:
  "let v2 = unlock_session 1 (fst (destroy_entry connect_codec (ex_senv True) 0 ex_v3_locked));
       v3 = the (OnConnection (ex_senv True) True 2 (v2\<lparr>srv_buckets := srv_buckets ex_v3\<rparr>))
   in DB_FindVersion 0 1 (srv_db v2) = Some 5 \<and> um_find (group_sessions 0 v2) 1 = Some 1 \<and> um_find (srv_heap v2) 1 = None \<and>
      server_CreateSession (ex_senv True) ''/a'' 0 1 6 2 v2 = None \<and> um_find (srv_entries v3) 2 \<noteq> None \<and>
      server_CreateSession (ex_senv True) ''/a'' 0 1 6 2 v3 = None"
proof -
  let ?D = "destroy_entry connect_codec (ex_senv True) 0 ex_v3_locked"
  let ?v2 = "unlock_session 1 (fst ?D)"
  let ?v3 = "the (OnConnection (ex_senv True) True 2 (?v2\<lparr>srv_buckets := srv_buckets ex_v3\<rparr>))"
  have ok: "srv_ok ex_v3_locked" unfolding ex_v3_locked_def by (rule srv_ok_lock [OF ex_v3_cleared_ok])
  have "case um_find (srv_entries ex_v3_locked) 0 of None \<Rightarrow> False | Some en \<Rightarrow> en_session en = Some 1"
    and reg: "um_find (group_sessions 0 ex_v3_locked) 1 = Some 1" and g: "valid_gid ex_v3_locked 0"
    and sole: "session_holders ex_v3_locked 1 = [0]" "srv_locked ex_v3_locked = [1]"
    and db: "DB_FindVersion 0 1 (srv_db ex_v3_locked) = Some 5"
    and v3: "um_find (srv_entries ?v3) 2 \<noteq> None" "server_CreateSession (ex_senv True) ''/a'' 0 1 6 2 ?v3 = None"
    by code_simp+
  then obtain en where en: "um_find (srv_entries ex_v3_locked) 0 = Some en" "en_session en = Some 1" by (auto split: option.splits)
  have "?D = (fst ?D, snd ?D)" by simp
  from late_pointer_leaves_dead_registration [OF ok g reg en sole this refl, of 5 "ex_senv True" "''/a''" 6 2]
  have "um_find (srv_heap ?v2) 1 = None \<and> um_find (group_sessions 0 ?v2) 1 = Some 1 \<and> DB_FindVersion 0 1 (srv_db ?v2) = Some 5 \<and>
    server_CreateSession (ex_senv True) ''/a'' 0 1 6 2 ?v2 = None" by (simp only: db simp_thms)
  then show ?thesis using v3 by (simp only: Let_def simp_thms)
qed

section \<open>Refused connections\<close>

text \<open>Two connections never share a session that is in use. While the session of an id is registered
  and its connection is up, a connect request for that id on another connection is answered
  \<^verbatim>\<open>RC_UNKNOWN\<close>, nothing is proposed, the database and the sessions stay as they are, and the server closes
  the connection that asked.\<close>

lemma reconnect_refused_while_connected:
  assumes ty: "sm_type m = MT_CONNECT" and mast: "env_is_master (env_node env) (Shard env (sm_extra_data m))"
    and ctx: "um_find (srv_context v) p = Some e" "entry_held v e" and en: "um_find (srv_entries v) e = Some en" "\<not> en_started en"
    and req: "cnq_session_id (parse_ConnectRequest pb (sm_data m)) = sid" "sid \<noteq> 0"
    and busy: "still_connected env (Shard env (sm_extra_data m)) sid v"
    and M: "server_OnMessage pb env p m v = Some ((v', out), b)"
  shows "\<not> b \<and> srv_db v' = srv_db v \<and> srv_sessions v' = srv_sessions v \<and> srv_heap v' = srv_heap v \<and> srv_pending v' = srv_pending v \<and>
    out = [ServerSend (alive_conn env (en_conn en)) (m\<lparr>sm_extra_data := [], sm_data := ser_ConnectResponse pb
             (ConnectResponse_default\<lparr>cnr_code := RC_UNKNOWN\<rparr>)\<rparr>), CloseConn p]"
proof -
  have "still_connected env (Shard env (sm_extra_data m)) sid (set_started e True v)"
    using busy unfolding still_connected_def group_sessions_def set_started_frame .
  then show ?thesis using M ty mast ctx en req
    by (auto simp: server_OnMessage_def server_HandleMessage_def OnConnectRequest_def Let_def)
qed

end
