(* ===== verification/TimerList.thy ===== *)
theory TimerList
  imports Prelude "HOL-Library.Product_Lexorder" "HOL-Library.Sublist"
begin

text \<open>
  \<^verbatim>\<open>TimerList\<close> and \<^verbatim>\<open>RunLoop\<close> (\<^verbatim>\<open>saber/util/timerlist.{h,cc}\<close>, \<^verbatim>\<open>runloop.{h,cc}\<close>): timers ordered by the time
  they are due, and the queue of functions that other threads hand to the loop. A \<^verbatim>\<open>Timer\<close> is an object in
  the store \<open>timer_objs\<close> under its address; \<open>alloc\<close> is the address that \<^verbatim>\<open>new\<close> chooses when the addresses in
  the list are taken. A callback is a value \<open>'a\<close>; \<open>body cb rl\<close> are the calls on the loop that it makes when it
  runs in the state \<open>rl\<close>. The clock is an argument. A \<^verbatim>\<open>std::set\<close> is its ordered list of elements.
\<close>

type_synonym timer_ref = nat
type_synonym TimerId = "u64 \<times> timer_ref"

record 'a Timer =
  ms_value :: u64
  ms_interval :: u64
  timerproc_cb :: 'a

record 'a TimerList =
  last_time_out :: u64
  timer_objs :: "(timer_ref, 'a Timer) umap"
  timer_ptrs :: "timer_ref list"
  timers :: "TimerId list"

datatype 'a Func = InsertTimer TimerId | RemoveTimer TimerId | Call 'a

record 'a RunLoop =
  exit_requested :: bool
  funcs :: "'a Func list"
  loop_timers :: "'a TimerList"

section \<open>Ordered sets\<close>

definition oset_insert :: "'a::linorder \<Rightarrow> 'a list \<Rightarrow> 'a list" where
  "oset_insert x xs = (if x \<in> set xs then xs else insort x xs)"

definition oset_erase :: "'a \<Rightarrow> 'a list \<Rightarrow> 'a list" where
  "oset_erase x xs = filter (\<lambda>y. y \<noteq> x) xs"

definition oset_wf :: "'a::linorder list \<Rightarrow> bool" where
  "oset_wf xs \<longleftrightarrow> sorted xs \<and> distinct xs"

section \<open>The timer list\<close>

definition TimerList_new :: "u64 \<Rightarrow> 'a TimerList" where
  "TimerList_new now = \<lparr>last_time_out = now, timer_objs = [], timer_ptrs = [], timers = []\<rparr>"

definition RunLoop_new :: "u64 \<Rightarrow> 'a RunLoop" where
  "RunLoop_new now = \<lparr>exit_requested = False, funcs = [], loop_timers = TimerList_new now\<rparr>"

text \<open>The two functions that \<^verbatim>\<open>InsertInLoop\<close> and \<^verbatim>\<open>Remove\<close> hand to the loop.\<close>

definition insert_timer :: "TimerId \<Rightarrow> 'a TimerList \<Rightarrow> 'a TimerList" where
  "insert_timer timer l =
     l\<lparr>timers := oset_insert timer (timers l), timer_ptrs := oset_insert (snd timer) (timer_ptrs l)\<rparr>"

definition remove_timer :: "TimerId \<Rightarrow> 'a TimerList \<Rightarrow> 'a TimerList" where
  "remove_timer timer l =
     (let p = snd timer
      in if p \<in> set (timer_ptrs l)
         then (case um_find (timer_objs l) p of
                 None \<Rightarrow> l
               | Some t \<Rightarrow> l\<lparr>timer_ptrs := oset_erase p (timer_ptrs l), timer_objs := um_erase p (timer_objs l),
                             timers := oset_erase (ms_value t, p) (timers l)\<rparr>)
         else l)"

definition TimeoutMs :: "u64 \<Rightarrow> 'a TimerList \<Rightarrow> u64" where
  "TimeoutMs now l =
     (case timers l of
        [] \<Rightarrow> - 1
      | (v, p) # rest \<Rightarrow> if now < last_time_out l then 0 else if v \<le> now then 0 else v - now)"

definition shift_value :: "u64 \<Rightarrow> u64 \<Rightarrow> u64" where
  "shift_value diff v = (if diff < v then v - diff else 0)"

definition shift_timers :: "u64 \<Rightarrow> 'a TimerList \<Rightarrow> 'a TimerList" where
  "shift_timers now l =
     (if now < last_time_out l
      then (let diff = last_time_out l - now
            in l\<lparr>timer_objs := fold (\<lambda>(v, p) objs.
                   case um_find objs p of None \<Rightarrow> objs
                   | Some t \<Rightarrow> um_set p (t\<lparr>ms_value := shift_value diff v\<rparr>) objs) (timers l) (timer_objs l),
                 timers := fold (\<lambda>(v, p). oset_insert (shift_value diff v, p)) (timers l) []\<rparr>)
      else l)"

section \<open>The loop\<close>

definition QueueInLoop :: "'a Func \<Rightarrow> 'a RunLoop \<Rightarrow> 'a RunLoop" where
  "QueueInLoop f rl = rl\<lparr>funcs := funcs rl @ [f]\<rparr>"

definition timer_func :: "'a Func \<Rightarrow> 'a TimerList \<Rightarrow> 'a TimerList" where
  "timer_func f l = (case f of InsertTimer i \<Rightarrow> insert_timer i l | RemoveTimer i \<Rightarrow> remove_timer i l | Call cb \<Rightarrow> l)"

text \<open>\<^verbatim>\<open>RunInLoop\<close>: \<open>run\<close> is the call of the function in the thread of the loop.\<close>

definition RunInLoop :: "('a Func \<Rightarrow> 'a RunLoop \<Rightarrow> 'a RunLoop) \<Rightarrow> bool \<Rightarrow> 'a Func \<Rightarrow> 'a RunLoop \<Rightarrow> 'a RunLoop" where
  "RunInLoop run in_loop f rl = (if in_loop then run f rl else QueueInLoop f rl)"

definition run_timer_func :: "'a Func \<Rightarrow> 'a RunLoop \<Rightarrow> 'a RunLoop" where
  "run_timer_func f rl = rl\<lparr>loop_timers := timer_func f (loop_timers rl)\<rparr>"

definition InsertInLoop :: "bool \<Rightarrow> TimerId \<Rightarrow> 'a RunLoop \<Rightarrow> 'a RunLoop" where
  "InsertInLoop in_loop timer rl = RunInLoop run_timer_func in_loop (InsertTimer timer) rl"

definition new_timer :: "(timer_ref list \<Rightarrow> timer_ref) \<Rightarrow> u64 \<Rightarrow> u64 \<Rightarrow> 'a \<Rightarrow> 'a RunLoop \<Rightarrow> 'a RunLoop \<times> TimerId" where
  "new_timer alloc v interval cb rl =
     (let l = loop_timers rl; p = alloc (map fst (timer_objs l))
      in (rl\<lparr>loop_timers := l\<lparr>timer_objs := um_set p \<lparr>ms_value = v, ms_interval = interval, timerproc_cb = cb\<rparr> (timer_objs l)\<rparr>\<rparr>,
          (v, p)))"

definition RunAt :: "(timer_ref list \<Rightarrow> timer_ref) \<Rightarrow> bool \<Rightarrow> u64 \<Rightarrow> 'a \<Rightarrow> 'a RunLoop \<Rightarrow> 'a RunLoop \<times> TimerId" where
  "RunAt alloc in_loop v cb rl = (let (rl, timer) = new_timer alloc v 0 cb rl in (InsertInLoop in_loop timer rl, timer))"

definition RunAfter ::
    "(timer_ref list \<Rightarrow> timer_ref) \<Rightarrow> bool \<Rightarrow> u64 \<Rightarrow> u64 \<Rightarrow> 'a \<Rightarrow> 'a RunLoop \<Rightarrow> 'a RunLoop \<times> TimerId" where
  "RunAfter alloc in_loop now delay cb rl =
     (let (rl, timer) = new_timer alloc (now + delay) 0 cb rl in (InsertInLoop in_loop timer rl, timer))"

definition RunEvery ::
    "(timer_ref list \<Rightarrow> timer_ref) \<Rightarrow> bool \<Rightarrow> u64 \<Rightarrow> u64 \<Rightarrow> 'a \<Rightarrow> 'a RunLoop \<Rightarrow> 'a RunLoop \<times> TimerId" where
  "RunEvery alloc in_loop now interval cb rl =
     (let (rl, timer) = new_timer alloc (now + interval) interval cb rl in (InsertInLoop in_loop timer rl, timer))"

definition Remove :: "bool \<Rightarrow> TimerId \<Rightarrow> 'a RunLoop \<Rightarrow> 'a RunLoop" where
  "Remove in_loop timer rl = RunInLoop run_timer_func in_loop (RemoveTimer timer) rl"

definition Exit :: "'a RunLoop \<Rightarrow> 'a RunLoop" where
  "Exit rl = rl\<lparr>exit_requested := True\<rparr>"

text \<open>The calls of a callback, with the times it read from the clock.\<close>

datatype 'a loop_call =
    CallRunAt u64 'a
  | CallRunAfter u64 u64 'a
  | CallRunEvery u64 u64 'a
  | CallRemove TimerId
  | CallQueue 'a
  | CallExit

fun do_call :: "(timer_ref list \<Rightarrow> timer_ref) \<Rightarrow> bool \<Rightarrow> 'a loop_call \<Rightarrow> 'a RunLoop \<Rightarrow> 'a RunLoop" where
  "do_call alloc in_loop (CallRunAt v cb) rl = fst (RunAt alloc in_loop v cb rl)"
| "do_call alloc in_loop (CallRunAfter now delay cb) rl = fst (RunAfter alloc in_loop now delay cb rl)"
| "do_call alloc in_loop (CallRunEvery now interval cb) rl = fst (RunEvery alloc in_loop now interval cb rl)"
| "do_call alloc in_loop (CallRemove timer) rl = Remove in_loop timer rl"
| "do_call alloc in_loop (CallQueue cb) rl = QueueInLoop (Call cb) rl"
| "do_call alloc in_loop CallExit rl = Exit rl"

type_synonym 'a bodies = "'a \<Rightarrow> 'a RunLoop \<Rightarrow> 'a loop_call list"

definition run_callback :: "(timer_ref list \<Rightarrow> timer_ref) \<Rightarrow> 'a bodies \<Rightarrow> 'a \<Rightarrow> 'a RunLoop \<Rightarrow> 'a RunLoop" where
  "run_callback alloc body cb rl = fold (do_call alloc True) (body cb rl) rl"

text \<open>
  The loop of \<^verbatim>\<open>RunTimerProcs\<close>, with the callbacks that ran. \<open>None\<close> is a loop that does not end or a pointer
  to a timer that was deleted.
\<close>

definition take_timer :: "u64 \<Rightarrow> TimerId \<Rightarrow> 'a Timer \<Rightarrow> 'a TimerList \<Rightarrow> 'a TimerList" where
  "take_timer now timer t l =
     (let p = snd timer; l = l\<lparr>timers := oset_erase timer (timers l)\<rparr>
      in if 0 < ms_interval t
         then l\<lparr>timer_objs := um_set p (t\<lparr>ms_value := now + ms_interval t\<rparr>) (timer_objs l),
                timers := oset_insert (now + ms_interval t, p) (timers l)\<rparr>
         else l\<lparr>timer_objs := um_erase p (timer_objs l), timer_ptrs := oset_erase p (timer_ptrs l)\<rparr>)"

partial_function (option) run_due ::
    "(timer_ref list \<Rightarrow> timer_ref) \<Rightarrow> 'a bodies \<Rightarrow> u64 \<Rightarrow> 'a RunLoop \<Rightarrow> 'a list \<Rightarrow> ('a RunLoop \<times> 'a list) option" where
  "run_due alloc body now rl fired =
     (case timers (loop_timers rl) of
        [] \<Rightarrow> Some (rl, fired)
      | timer # rest \<Rightarrow>
          if fst timer \<le> now
          then (case um_find (timer_objs (loop_timers rl)) (snd timer) of
                  None \<Rightarrow> None
                | Some t \<Rightarrow>
                    run_due alloc body now
                      (run_callback alloc body (timerproc_cb t)
                        (rl\<lparr>loop_timers := take_timer now timer t (loop_timers rl)\<rparr>))
                      (fired @ [timerproc_cb t]))
          else Some (rl, fired))"

declare run_due.simps [code]

definition RunTimerProcs ::
    "(timer_ref list \<Rightarrow> timer_ref) \<Rightarrow> 'a bodies \<Rightarrow> u64 \<Rightarrow> 'a RunLoop \<Rightarrow> ('a RunLoop \<times> 'a list) option" where
  "RunTimerProcs alloc body now rl =
     (if timers (loop_timers rl) = [] then Some (rl, [])
      else run_due alloc body now
             (rl\<lparr>loop_timers := (shift_timers now (loop_timers rl))\<lparr>last_time_out := now\<rparr>\<rparr>) [])"

fun run_funcs :: "(timer_ref list \<Rightarrow> timer_ref) \<Rightarrow> 'a bodies \<Rightarrow> 'a Func list \<Rightarrow> 'a RunLoop \<Rightarrow> 'a RunLoop \<times> 'a list" where
  "run_funcs alloc body [] rl = (rl, [])"
| "run_funcs alloc body (f # fs) rl =
     (let rl = (case f of Call cb \<Rightarrow> run_callback alloc body cb rl
                | _ \<Rightarrow> run_timer_func f rl);
          (rl, ran) = run_funcs alloc body fs rl
      in (rl, (case f of Call cb \<Rightarrow> [cb] | _ \<Rightarrow> []) @ ran))"

text \<open>One round of \<^verbatim>\<open>Loop\<close>, after the wait. \<open>wait_ms\<close> is the duration handed to \<^verbatim>\<open>wait_for\<close>, whose
  \<^verbatim>\<open>std::chrono::milliseconds\<close> is signed; there is no wait when functions are queued.\<close>

definition wait_ms :: "u64 \<Rightarrow> 'a RunLoop \<Rightarrow> int option" where
  "wait_ms now rl = (if funcs rl = [] then Some (sint (TimeoutMs now (loop_timers rl))) else None)"

definition loop_round ::
    "(timer_ref list \<Rightarrow> timer_ref) \<Rightarrow> 'a bodies \<Rightarrow> u64 \<Rightarrow> 'a RunLoop \<Rightarrow> ('a RunLoop \<times> 'a list \<times> 'a list) option" where
  "loop_round alloc body now rl =
     (let fs = funcs rl
      in case RunTimerProcs alloc body now (rl\<lparr>funcs := []\<rparr>) of
           None \<Rightarrow> None
         | Some (rl, fired) \<Rightarrow> (let (rl, ran) = run_funcs alloc body fs rl in Some (rl, fired, ran)))"

text \<open>\<^verbatim>\<open>Loop\<close> over a number of rounds, each with the time it reads and the functions that other threads queued
  before it takes the queue; what ran, in order.\<close>

fun run_rounds ::
    "(timer_ref list \<Rightarrow> timer_ref) \<Rightarrow> 'a bodies \<Rightarrow> (u64 \<times> 'a Func list) list \<Rightarrow> 'a RunLoop \<Rightarrow> ('a RunLoop \<times> 'a list) option" where
  "run_rounds alloc body [] rl = Some (rl, [])"
| "run_rounds alloc body ((now, fs) # rounds) rl =
     (if exit_requested rl then Some (rl, [])
      else (case loop_round alloc body now (fold QueueInLoop fs rl) of
              None \<Rightarrow> None
            | Some (rl, fired, called) \<Rightarrow>
                (case run_rounds alloc body rounds rl of
                   None \<Rightarrow> None | Some (rl, after) \<Rightarrow> Some (rl, fired @ called @ after))))"

definition Loop ::
    "(timer_ref list \<Rightarrow> timer_ref) \<Rightarrow> 'a bodies \<Rightarrow> (u64 \<times> 'a Func list) list \<Rightarrow> 'a RunLoop \<Rightarrow> ('a RunLoop \<times> 'a list) option" where
  "Loop alloc body rounds rl = run_rounds alloc body rounds (rl\<lparr>exit_requested := False\<rparr>)"

end
