(* ===== verification/TimerList_Props.thy ===== *)
theory TimerList_Props
  imports TimerList
begin

text \<open>
  The invariant of the timer list, and what a round of \<^verbatim>\<open>RunTimerProcs\<close> does: it ends, runs the timers that
  are due in order, and leaves none that is due, provided the callbacks start no timer that is due at once.
\<close>

section \<open>Ordered sets\<close>

lemma oset_insert_set [simp]: "set (oset_insert x xs) = insert x (set xs)"
  by (auto simp: oset_insert_def set_insort_key)

lemma oset_insert_wf [simp]: "oset_wf xs \<Longrightarrow> oset_wf (oset_insert x xs)"
  by (auto simp: oset_wf_def oset_insert_def sorted_insort distinct_insort)

lemma oset_erase_set [simp]: "set (oset_erase x xs) = set xs - {x}"
  by (auto simp: oset_erase_def)

lemma oset_erase_wf [simp]: "oset_wf xs \<Longrightarrow> oset_wf (oset_erase x xs)"
  by (simp add: oset_wf_def oset_erase_def sorted_filter [where f = id, simplified])

lemma oset_wf_Nil [simp]: "oset_wf []"
  by (simp add: oset_wf_def)

text \<open>
  What the timers rely on, the contract of \<^verbatim>\<open>std::set\<close>: its elements in order, and what is below a bound does not
  see what is inserted above it.
\<close>

locale ordered_set =
  fixes wf :: "'s \<Rightarrow> bool" and elems :: "'s \<Rightarrow> 'a::linorder list" and ins :: "'a \<Rightarrow> 's \<Rightarrow> 's" and era :: "'a \<Rightarrow> 's \<Rightarrow> 's"
  assumes ordered: "wf s \<Longrightarrow> sorted (elems s) \<and> distinct (elems s)"
    and wf_ins: "wf s \<Longrightarrow> wf (ins x s)" and wf_era: "wf s \<Longrightarrow> wf (era x s)"
    and elems_ins: "wf s \<Longrightarrow> set (elems (ins x s)) = insert x (set (elems s))"
    and elems_era: "wf s \<Longrightarrow> set (elems (era x s)) = set (elems s) - {x}"
begin

lemma ins_above: "wf s \<Longrightarrow> \<not> Q x \<Longrightarrow> filter Q (elems (ins x s)) = filter Q (elems s)"
proof -
  assume wf: "wf s" and x: "\<not> Q x"
  have "set (filter Q (elems (ins x s))) = set (filter Q (elems s))" using x by (auto simp: elems_ins [OF wf])
  then show ?thesis using ordered [OF wf] ordered [OF wf_ins [OF wf]]
    by (metis distinct_filter sorted_distinct_set_unique sorted_wrt_filter)
qed

lemma era_first: "wf s \<Longrightarrow> elems s = x # xs \<Longrightarrow> elems (era x s) = xs"
proof -
  assume wf: "wf s" and E: "elems s = x # xs"
  have "sorted xs" "distinct xs" "x \<notin> set xs" using ordered [OF wf] E by auto
  moreover have "set (elems (era x s)) = set xs" using \<open>x \<notin> set xs\<close> by (simp add: elems_era [OF wf] E)
  ultimately show ?thesis using ordered [OF wf_era [OF wf]] by (metis sorted_distinct_set_unique)
qed

lemma first_least: "wf s \<Longrightarrow> elems s = x # xs \<Longrightarrow> y \<in> set (elems s) \<Longrightarrow> x \<le> y"
  using ordered [of s] by auto

end

interpretation oset: ordered_set oset_wf "\<lambda>xs. xs" oset_insert oset_erase
  by unfold_locales (auto simp: oset_wf_def oset_insert_def sorted_insort distinct_insort set_insort_key
      oset_erase_def sorted_filter [where f = id, simplified])

section \<open>The invariant\<close>

definition tl_ok :: "'a TimerList \<Rightarrow> bool" where
  "tl_ok l \<longleftrightarrow> oset_wf (timers l) \<and> oset_wf (timer_ptrs l) \<and> um_wf (timer_objs l) \<and>
     (\<forall>v p. (v, p) \<in> set (timers l) \<longleftrightarrow>
        p \<in> set (timer_ptrs l) \<and> (\<exists>t. um_find (timer_objs l) p = Some t \<and> ms_value t = v)) \<and>
     (\<forall>p \<in> set (timer_ptrs l). um_find (timer_objs l) p \<noteq> None)"

lemma tl_ok_timer:
  assumes "tl_ok l" and "i \<in> set (timers l)"
  obtains t where "um_find (timer_objs l) (snd i) = Some t" "ms_value t = fst i" "snd i \<in> set (timer_ptrs l)"
proof -
  have "(fst i, snd i) \<in> set (timers l)" using assms(2) by simp
  then show thesis using assms(1) that unfolding tl_ok_def by blast
qed

lemma tl_ok_new: "tl_ok (TimerList_new now)"
  by (simp add: tl_ok_def TimerList_new_def)

lemma tl_ok_last [simp]: "tl_ok (l\<lparr>last_time_out := n\<rparr>) = tl_ok l"
  by (simp add: tl_ok_def)

lemma tl_ok_fresh_obj:
  assumes "tl_ok l" and "um_find (timer_objs l) p = None"
  shows "tl_ok (l\<lparr>timer_objs := um_set p t (timer_objs l)\<rparr>)"
proof -
  have "p \<notin> set (timer_ptrs l)" using assms by (auto simp: tl_ok_def)
  then show ?thesis using assms(1) by (auto simp: tl_ok_def)
qed

lemma tl_ok_insert:
  assumes "tl_ok l" and "um_find (timer_objs l) p = Some t" and "ms_value t = v"
  shows "tl_ok (insert_timer (v, p) l)"
  using assms by (auto simp: tl_ok_def insert_timer_def)

lemma tl_ok_remove:
  assumes ok: "tl_ok l" shows "tl_ok (remove_timer i l)"
proof (cases "snd i \<in> set (timer_ptrs l)")
  case True
  then obtain t where t: "um_find (timer_objs l) (snd i) = Some t" using ok by (auto simp: tl_ok_def)
  have "(v, p) \<in> set (timers l) \<Longrightarrow> p = snd i \<Longrightarrow> v = ms_value t" for v p using ok t by (auto simp: tl_ok_def)
  then show ?thesis using ok t True by (auto simp: tl_ok_def remove_timer_def Let_def)
qed (simp add: remove_timer_def Let_def ok)

lemma tl_ok_take:
  assumes ok: "tl_ok l" and i: "i \<in> set (timers l)" and t: "um_find (timer_objs l) (snd i) = Some t"
  shows "tl_ok (take_timer now i t l)"
proof -
  have f: "fst i = ms_value t" "snd i \<in> set (timer_ptrs l)" using ok i t by (cases i; auto simp: tl_ok_def)+
  then have "i = (ms_value t, snd i)" by (cases i) simp
  then have "(v, snd i) \<in> set (timers l) \<Longrightarrow> (v, snd i) = i" for v using ok t by (auto simp: tl_ok_def)
  then show ?thesis using ok t f by (cases i) (auto simp: tl_ok_def take_timer_def Let_def)
qed

definition alloc_ok :: "(timer_ref list \<Rightarrow> timer_ref) \<Rightarrow> bool" where
  "alloc_ok alloc \<longleftrightarrow> (\<forall>ps. alloc ps \<notin> set ps)"

lemma alloc_fresh: "alloc_ok alloc \<Longrightarrow> um_find m (alloc (map fst m)) = None"
  by (metis alloc_ok_def list.set_map map_of_eq_None_iff)

text \<open>A call that starts a timer, from the thread of the loop.\<close>

lemma start_timer:
  assumes "alloc_ok alloc" and "tl_ok (loop_timers rl)" and E: "new_timer alloc v i cb rl = (rl1, timer)"
  defines "rl' \<equiv> InsertInLoop True timer rl1"
  shows "tl_ok (loop_timers rl')" and "funcs rl' = funcs rl" and "fst timer = v"
    and "set (timers (loop_timers rl')) = insert timer (set (timers (loop_timers rl)))"
    and "timers (loop_timers rl') = oset_insert timer (timers (loop_timers rl))"
    and "um_find (timer_objs (loop_timers rl')) =
      (um_find (timer_objs (loop_timers rl)))(snd timer \<mapsto> \<lparr>ms_value = v, ms_interval = i, timerproc_cb = cb\<rparr>)"
    and "um_find (timer_objs (loop_timers rl)) (snd timer) = None"
proof -
  let ?l = "loop_timers rl" and ?t = "\<lparr>ms_value = v, ms_interval = i, timerproc_cb = cb\<rparr>"
  let ?p = "alloc (map fst (timer_objs ?l))"
  have n: "um_find (timer_objs ?l) ?p = None" by (rule alloc_fresh [OF assms(1)])
  have tm: "timer = (v, ?p)" and l1: "loop_timers rl1 = ?l\<lparr>timer_objs := um_set ?p ?t (timer_objs ?l)\<rparr>" and f1: "funcs rl1 = funcs rl"
    using E by (auto simp: new_timer_def Let_def)
  have rl': "loop_timers rl' = insert_timer (v, ?p) (loop_timers rl1)" "funcs rl' = funcs rl"
    by (simp_all add: rl'_def InsertInLoop_def RunInLoop_def run_timer_func_def timer_func_def tm f1)
  show "tl_ok (loop_timers rl')" unfolding rl' l1
    by (rule tl_ok_insert [OF tl_ok_fresh_obj [OF assms(2) n, of ?t], where t = ?t]) simp_all
  show "funcs rl' = funcs rl" "fst timer = v"
    "set (timers (loop_timers rl')) = insert timer (set (timers ?l))" "timers (loop_timers rl') = oset_insert timer (timers ?l)"
    "um_find (timer_objs (loop_timers rl')) = (um_find (timer_objs ?l))(snd timer \<mapsto> ?t)"
    "um_find (timer_objs ?l) (snd timer) = None"
    using n by (simp_all add: rl' l1 tm insert_timer_def)
qed

section \<open>What is due\<close>

definition due :: "u64 \<Rightarrow> 'a TimerList \<Rightarrow> TimerId list" where
  "due now l = filter (\<lambda>i. fst i \<le> now) (timers l)"

definition callback_at :: "'a TimerList \<Rightarrow> timer_ref \<Rightarrow> 'a option" where
  "callback_at l p = map_option timerproc_cb (um_find (timer_objs l) p)"

definition due_callbacks :: "u64 \<Rightarrow> 'a TimerList \<Rightarrow> 'a option list" where
  "due_callbacks now l = map (\<lambda>i. callback_at l (snd i)) (due now l)"

text \<open>A timer that repeats is due again only later: the addition does not wrap.\<close>

definition repeats_later :: "u64 \<Rightarrow> 'a TimerList \<Rightarrow> bool" where
  "repeats_later now l \<longleftrightarrow> (\<forall>p t. um_find (timer_objs l) p = Some t \<longrightarrow> 0 < ms_interval t \<longrightarrow> now < now + ms_interval t)"

fun call_later :: "u64 \<Rightarrow> 'a loop_call \<Rightarrow> bool" where
  "call_later now (CallRunAt v cb) \<longleftrightarrow> now < v"
| "call_later now (CallRunAfter n delay cb) \<longleftrightarrow> now < n + delay"
| "call_later now (CallRunEvery n interval cb) \<longleftrightarrow> now < n + interval \<and> (0 < interval \<longrightarrow> now < now + interval)"
| "call_later now _ \<longleftrightarrow> True"

fun no_remove :: "'a loop_call \<Rightarrow> bool" where
  "no_remove (CallRemove i) \<longleftrightarrow> False"
| "no_remove _ \<longleftrightarrow> True"

definition bodies_later :: "u64 \<Rightarrow> 'a bodies \<Rightarrow> bool" where
  "bodies_later now body \<longleftrightarrow> (\<forall>cb rl. list_all (call_later now) (body cb rl))"

text \<open>What the calls of a callback may do to the timers that are due: remove some.\<close>

definition due_step :: "u64 \<Rightarrow> bool \<Rightarrow> 'a RunLoop \<Rightarrow> 'a RunLoop \<Rightarrow> bool" where
  "due_step now exact rl rl' \<longleftrightarrow> tl_ok (loop_timers rl') \<and> repeats_later now (loop_timers rl') \<and>
     subseq (due_callbacks now (loop_timers rl')) (due_callbacks now (loop_timers rl)) \<and>
     (exact \<longrightarrow> due_callbacks now (loop_timers rl') = due_callbacks now (loop_timers rl))"

definition rl_ok :: "u64 \<Rightarrow> 'a RunLoop \<Rightarrow> bool" where
  "rl_ok now rl \<longleftrightarrow> tl_ok (loop_timers rl) \<and> repeats_later now (loop_timers rl)"

lemma due_step_refl: "rl_ok now rl \<Longrightarrow> due_step now b rl rl"
  by (simp add: due_step_def rl_ok_def)

lemma due_step_trans: "due_step now b rl rl' \<Longrightarrow> due_step now b rl' rl'' \<Longrightarrow> due_step now b rl rl''"
  by (auto simp: due_step_def intro: subseq_order.trans)

lemma due_step_ok: "due_step now b rl rl' \<Longrightarrow> rl_ok now rl'"
  by (simp add: due_step_def rl_ok_def)

lemma due_objs:
  assumes "tl_ok l" and "due now l' = due now l" and "\<And>p. p \<in> set (timer_ptrs l) \<Longrightarrow> um_find (timer_objs l') p = um_find (timer_objs l) p"
  shows "due_callbacks now l' = due_callbacks now l"
proof -
  have "callback_at l' (snd i) = callback_at l (snd i)" if "i \<in> set (due now l)" for i
  proof -
    have "i \<in> set (timers l)" using that by (simp add: due_def)
    then have "snd i \<in> set (timer_ptrs l)" by (rule tl_ok_timer [OF assms(1)])
    then show ?thesis by (simp add: callback_at_def assms(3))
  qed
  then show ?thesis by (simp add: due_callbacks_def assms(2))
qed

lemma due_step_start:
  assumes al: "alloc_ok alloc" and ok: "rl_ok now rl" and E: "new_timer alloc v i cb rl = (rl1, timer)"
    and later: "now < v" "0 < i \<longrightarrow> now < now + i"
  shows "due_step now b rl (InsertInLoop True timer rl1)"
proof -
  have tl: "tl_ok (loop_timers rl)" using ok by (simp add: rl_ok_def)
  note st = start_timer [OF al tl E]
  let ?l' = "loop_timers (InsertInLoop True timer rl1)"
  have "due now ?l' = due now (loop_timers rl)"
  proof -
    have "oset_wf (timers (loop_timers rl))" using tl by (simp add: tl_ok_def)
    then show ?thesis unfolding due_def st(5) using later st(3) by (intro oset.ins_above) simp_all
  qed
  moreover have "p \<noteq> snd timer" if "p \<in> set (timer_ptrs (loop_timers rl))" for p
    using that tl st(7) by (auto simp: tl_ok_def)
  ultimately have "due_callbacks now ?l' = due_callbacks now (loop_timers rl)"
    by (intro due_objs [OF tl]) (simp_all add: st(6))
  then show ?thesis using ok later st(1) by (auto simp: due_step_def rl_ok_def repeats_later_def st(6))
qed

lemma due_step_remove:
  assumes ok: "rl_ok now rl" shows "due_step now False rl (Remove True i rl)"
proof -
  let ?l = "loop_timers rl" and ?l' = "loop_timers (Remove True i rl)"
  have tl: "tl_ok ?l" using ok by (simp add: rl_ok_def)
  have l': "?l' = remove_timer i ?l" by (simp add: Remove_def RunInLoop_def run_timer_func_def timer_func_def)
  show ?thesis
  proof (cases "snd i \<in> set (timer_ptrs ?l)")
    case True
    then obtain t where t: "um_find (timer_objs ?l) (snd i) = Some t" using tl by (auto simp: tl_ok_def)
    have r: "timers ?l' = oset_erase (ms_value t, snd i) (timers ?l)" "timer_objs ?l' = um_erase (snd i) (timer_objs ?l)"
      using True t by (simp_all add: l' remove_timer_def Let_def)
    have keep: "snd x \<noteq> snd i" if "x \<in> set (due now ?l')" for x
    proof
      assume same: "snd x = snd i"
      have x: "x \<in> set (timers ?l)" "x \<noteq> (ms_value t, snd i)" using that by (auto simp: due_def r)
      obtain t' where "um_find (timer_objs ?l) (snd x) = Some t'" "ms_value t' = fst x" by (rule tl_ok_timer [OF tl x(1)])
      then have "x = (ms_value t, snd i)" using same t by (cases x) simp
      then show False using x(2) by simp
    qed
    have eq: "due_callbacks now ?l' = map (\<lambda>x. callback_at ?l (snd x)) (due now ?l')"
      using keep by (auto simp: due_callbacks_def callback_at_def r(2))
    have sub: "subseq (due now ?l') (due now ?l)"
      by (simp add: due_def r(1) oset_erase_def filter_filter conj_commute [of _ "_ \<noteq> _"] flip: filter_filter)
    have "subseq (due_callbacks now ?l') (due_callbacks now ?l)"
      unfolding eq unfolding due_callbacks_def by (rule subseq_map [OF sub])
    then show ?thesis using ok tl_ok_remove [OF tl, of i] r(2)
      by (auto simp: due_step_def rl_ok_def repeats_later_def l' split: if_splits)
  next
    case False
    then show ?thesis using ok by (simp add: due_step_def rl_ok_def l' remove_timer_def Let_def)
  qed
qed

lemma due_step_call:
  assumes "alloc_ok alloc" and "rl_ok now rl" and "call_later now c" and "b \<longrightarrow> no_remove c"
  shows "due_step now b rl (do_call alloc True c rl)"
proof (cases c)
  case (CallRemove i)
  then show ?thesis using assms due_step_remove by simp
next
  case (CallQueue cb)
  then show ?thesis using assms(2) by (simp add: due_step_def rl_ok_def QueueInLoop_def)
next
  case CallExit
  then show ?thesis using assms(2) by (simp add: due_step_def rl_ok_def Exit_def)
qed (use assms in \<open>auto simp: RunAt_def RunAfter_def RunEvery_def case_prod_beta Let_def
      intro!: due_step_start [OF assms(1,2) surjective_pairing]\<close>)

lemma due_step_callback:
  assumes "alloc_ok alloc" and "rl_ok now rl" and "list_all (call_later now) (body cb rl)"
    and "b \<longrightarrow> list_all no_remove (body cb rl)"
  shows "due_step now b rl (run_callback alloc body cb rl)"
proof -
  have "due_step now b rl (fold (do_call alloc True) cs rl)" if "list_all (call_later now) cs" "b \<longrightarrow> list_all no_remove cs" "rl_ok now rl" for cs rl
    using that
  proof (induction cs arbitrary: rl)
    case (Cons c cs)
    have "due_step now b rl (do_call alloc True c rl)" using Cons.prems by (intro due_step_call [OF assms(1)]) auto
    moreover have "due_step now b (do_call alloc True c rl) (fold (do_call alloc True) cs (do_call alloc True c rl))"
      using Cons.prems due_step_ok [OF calculation] by (intro Cons.IH) auto
    ultimately show ?case by (simp add: due_step_trans)
  qed (simp add: due_step_refl)
  then show ?thesis using assms by (simp add: run_callback_def)
qed

section \<open>A round of the timers\<close>

lemma take_timer_due:
  assumes ok: "rl_ok now rl" and T: "timers (loop_timers rl) = i # rest" and le: "fst i \<le> now"
    and t: "um_find (timer_objs (loop_timers rl)) (snd i) = Some t"
  defines "rl' \<equiv> rl\<lparr>loop_timers := take_timer now i t (loop_timers rl)\<rparr>"
  shows "rl_ok now rl'" and "due_callbacks now (loop_timers rl) = Some (timerproc_cb t) # due_callbacks now (loop_timers rl')"
proof -
  let ?l = "loop_timers rl" and ?l' = "loop_timers rl'"
  have tl: "tl_ok ?l" and rep: "repeats_later now ?l" using ok by (simp_all add: rl_ok_def)
  have tl': "tl_ok ?l'" using tl_ok_take [OF tl _ t, of now] T by (simp add: rl'_def)
  have "repeats_later now ?l'" using rep t
    by (auto simp: repeats_later_def rl'_def take_timer_def Let_def split: if_splits)
  then show "rl_ok now rl'" using tl' by (simp add: rl_ok_def)
  have wf: "oset_wf (i # rest)" using tl T by (simp add: tl_ok_def)
  then have wfr: "oset_wf rest" by (simp add: oset_wf_def)
  have "now < now + ms_interval t" if "0 < ms_interval t" using rep t that by (simp add: repeats_later_def)
  then have "filter (\<lambda>i. fst i \<le> now) (oset_insert (now + ms_interval t, snd i) rest) = filter (\<lambda>i. fst i \<le> now) rest"
    if "0 < ms_interval t" using that oset.ins_above [OF wfr, of "\<lambda>i. fst i \<le> now" "(now + ms_interval t, snd i)"]
    by (simp add: not_le)
  then have d: "due now ?l' = filter (\<lambda>i. fst i \<le> now) rest"
    by (simp add: due_def rl'_def take_timer_def Let_def T oset.era_first [OF wf refl])
  have other: "callback_at ?l' (snd x) = callback_at ?l (snd x)" if "x \<in> set rest" for x
  proof -
    have "x \<in> set (timers ?l)" using that T by simp
    then obtain t' where x: "um_find (timer_objs ?l) (snd x) = Some t'" "ms_value t' = fst x" by (rule tl_ok_timer [OF tl])
    obtain t0 where "um_find (timer_objs ?l) (snd i) = Some t0" "ms_value t0 = fst i" by (rule tl_ok_timer [OF tl, of i]) (simp add: T)
    moreover have "x \<noteq> i" using wf that by (auto simp: oset_wf_def)
    ultimately have "snd x \<noteq> snd i" using x by (metis option.inject prod.expand)
    then show ?thesis by (simp add: callback_at_def rl'_def take_timer_def Let_def)
  qed
  have "due_callbacks now ?l = Some (timerproc_cb t) # map (\<lambda>x. callback_at ?l (snd x)) (filter (\<lambda>i. fst i \<le> now) rest)"
    using le t by (simp add: due_callbacks_def due_def T callback_at_def)
  also have "map (\<lambda>x. callback_at ?l (snd x)) (filter (\<lambda>i. fst i \<le> now) rest) = due_callbacks now ?l'"
    using other by (simp add: due_callbacks_def d)
  finally show "due_callbacks now ?l = Some (timerproc_cb t) # due_callbacks now ?l'" .
qed

lemma due_none:
  assumes "tl_ok l" and "due now l = []" and "i \<in> set (timers l)"
  shows "now < fst i"
  using assms(2,3) by (auto simp: due_def filter_empty_conv not_le)

lemma run_due_ends:
  assumes al: "alloc_ok alloc" and later: "bodies_later now body"
    and exact: "b \<longrightarrow> (\<forall>cb rl. list_all no_remove (body cb rl))"
  shows "rl_ok now rl \<Longrightarrow> \<exists>rl' ran. run_due alloc body now rl fired = Some (rl', fired @ ran) \<and> rl_ok now rl' \<and>
    due now (loop_timers rl') = [] \<and> subseq (map Some ran) (due_callbacks now (loop_timers rl)) \<and>
    (b \<longrightarrow> map Some ran = due_callbacks now (loop_timers rl))"
proof (induction "length (due_callbacks now (loop_timers rl))" arbitrary: rl fired rule: less_induct)
  case less
  let ?l = "loop_timers rl"
  have tl: "tl_ok ?l" using less.prems by (simp add: rl_ok_def)
  show ?case
  proof (cases "timers ?l")
    case Nil
    then show ?thesis using less.prems by (simp add: run_due.simps [of alloc body now rl] due_def due_callbacks_def)
  next
    case (Cons i rest)
    show ?thesis
    proof (cases "fst i \<le> now")
      case False
      have "sorted (i # rest)" using tl Cons by (simp add: tl_ok_def oset_wf_def)
      then have "\<not> fst x \<le> now" if "x \<in> set (i # rest)" for x using that False by (auto simp: less_eq_prod_def)
      then have "due now ?l = []" by (auto simp: due_def Cons filter_empty_conv)
      then show ?thesis using less.prems False Cons by (simp add: run_due.simps [of alloc body now rl] due_callbacks_def)
    next
      case True
      obtain t where t: "um_find (timer_objs ?l) (snd i) = Some t" by (rule tl_ok_timer [OF tl, of i]) (simp add: Cons)
      let ?rl1 = "rl\<lparr>loop_timers := take_timer now i t ?l\<rparr>"
      let ?rl2 = "run_callback alloc body (timerproc_cb t) ?rl1"
      note tk = take_timer_due [OF less.prems Cons True t]
      have ds: "due_step now b ?rl1 ?rl2"
        using later exact by (intro due_step_callback [OF al tk(1)]) (auto simp: bodies_later_def)
      have sub: "subseq (due_callbacks now (loop_timers ?rl2)) (due_callbacks now (loop_timers ?rl1))"
        and eq: "b \<longrightarrow> due_callbacks now (loop_timers ?rl2) = due_callbacks now (loop_timers ?rl1)"
        using ds by (simp_all add: due_step_def)
      have "length (due_callbacks now (loop_timers ?rl2)) < length (due_callbacks now ?l)"
        using list_emb_length [OF sub] tk(2) by simp
      from less.hyps [OF this due_step_ok [OF ds], of "fired @ [timerproc_cb t]"]
      obtain rl' ran where r: "run_due alloc body now ?rl2 (fired @ [timerproc_cb t]) = Some (rl', (fired @ [timerproc_cb t]) @ ran)"
        "rl_ok now rl'" "due now (loop_timers rl') = []" "subseq (map Some ran) (due_callbacks now (loop_timers ?rl2))"
        "b \<longrightarrow> map Some ran = due_callbacks now (loop_timers ?rl2)" by blast
      have "run_due alloc body now rl fired = Some (rl', fired @ (timerproc_cb t # ran))"
        using r(1) Cons True t by (subst run_due.simps) simp
      moreover have "subseq (map Some ran) (due_callbacks now (loop_timers ?rl1))" using r(4) sub by (rule subseq_order.trans)
      ultimately show ?thesis using r(2,3,5) tk(2) eq
        by (intro exI [of _ rl'] exI [of _ "timerproc_cb t # ran"]) simp
    qed
  qed
qed

section \<open>A clock that was set back\<close>

lemma option_eqI: "(\<And>v. a = Some v \<longleftrightarrow> b = Some v) \<Longrightarrow> a = b"
  by (cases a; cases b) auto

abbreviation shift_objs :: "u64 \<Rightarrow> TimerId list \<Rightarrow> (timer_ref, 'a Timer) umap \<Rightarrow> (timer_ref, 'a Timer) umap" where
  "shift_objs diff ts objs \<equiv> fold (\<lambda>(v, p) objs.
     case um_find objs p of None \<Rightarrow> objs | Some t \<Rightarrow> um_set p (t\<lparr>ms_value := shift_value diff v\<rparr>) objs) ts objs"

lemma shift_objs_wf: "um_wf objs \<Longrightarrow> um_wf (shift_objs diff ts objs)"
  by (induction ts arbitrary: objs) (auto split: option.split)

lemma shift_objs_find:
  "distinct (map snd ts) \<Longrightarrow> um_find (shift_objs diff ts objs) p =
     (case map_of (map prod.swap ts) p of
        None \<Rightarrow> um_find objs p
      | Some v \<Rightarrow> map_option (\<lambda>t. t\<lparr>ms_value := shift_value diff v\<rparr>) (um_find objs p))"
proof (induction ts arbitrary: objs)
  case (Cons i ts)
  obtain v q where i: "i = (v, q)" by (cases i)
  define objs' where "objs' = (case um_find objs q of None \<Rightarrow> objs | Some t \<Rightarrow> um_set q (t\<lparr>ms_value := shift_value diff v\<rparr>) objs)"
  have q: "map_of (map prod.swap ts) q = None" using Cons.prems i by (force simp: map_of_eq_None_iff)
  have o: "um_find objs' p = (if p = q then map_option (\<lambda>t. t\<lparr>ms_value := shift_value diff v\<rparr>) (um_find objs p) else um_find objs p)"
    by (simp add: objs'_def split: option.split)
  have "um_find (shift_objs diff (i # ts) objs) p = um_find (shift_objs diff ts objs') p" by (simp add: i objs'_def)
  also have "\<dots> = (case map_of (map prod.swap ts) p of None \<Rightarrow> um_find objs' p
      | Some v \<Rightarrow> map_option (\<lambda>t. t\<lparr>ms_value := shift_value diff v\<rparr>) (um_find objs' p))" using Cons by simp
  also have "\<dots> = (case map_of (map prod.swap (i # ts)) p of None \<Rightarrow> um_find objs p
      | Some v \<Rightarrow> map_option (\<lambda>t. t\<lparr>ms_value := shift_value diff v\<rparr>) (um_find objs p))"
    unfolding o using q by (cases "p = q") (simp_all add: i)
  finally show ?case .
qed simp

lemma shift_timers_set: "set (fold (\<lambda>(v, p). oset_insert (f v, p)) ts xs) = set xs \<union> (\<lambda>(v, p). (f v, p)) ` set ts"
  by (induction ts arbitrary: xs) auto

lemma shift_timers_wf: "oset_wf xs \<Longrightarrow> oset_wf (fold (\<lambda>(v, p). oset_insert (f v, p)) ts xs)"
  by (induction ts arbitrary: xs) auto

lemma timer_of_ptr:
  assumes ok: "tl_ok l"
  shows "distinct (map snd (timers l))"
    and "map_of (map prod.swap (timers l)) p = (if p \<in> set (timer_ptrs l) then map_option ms_value (um_find (timer_objs l) p) else None)"
proof -
  have inj: "i = j" if ij: "i \<in> set (timers l)" "j \<in> set (timers l)" "snd i = snd j" for i j
  proof -
    obtain t where "um_find (timer_objs l) (snd i) = Some t" "ms_value t = fst i" by (rule tl_ok_timer [OF ok ij(1)])
    moreover obtain t' where "um_find (timer_objs l) (snd j) = Some t'" "ms_value t' = fst j" by (rule tl_ok_timer [OF ok ij(2)])
    ultimately show ?thesis using ij(3) by (metis option.inject prod.expand)
  qed
  then show d: "distinct (map snd (timers l))" using ok by (auto simp: distinct_map inj_on_def tl_ok_def oset_wf_def)
  have dom: "distinct (map fst (map prod.swap (timers l)))" using d by (simp add: comp_def)
  have "map_of (map prod.swap (timers l)) p = Some v \<longleftrightarrow> (v, p) \<in> set (timers l)" for v
    using map_of_eq_Some_iff [OF dom, of p v] by force
  moreover have "(v, p) \<in> set (timers l) \<longleftrightarrow> p \<in> set (timer_ptrs l) \<and> (\<exists>t. um_find (timer_objs l) p = Some t \<and> ms_value t = v)" for v
    using ok unfolding tl_ok_def by blast
  ultimately show "map_of (map prod.swap (timers l)) p = (if p \<in> set (timer_ptrs l) then map_option ms_value (um_find (timer_objs l) p) else None)"
    by (intro option_eqI) simp
qed

lemma shift_ok:
  assumes ok: "tl_ok l" and bk: "now < last_time_out l"
  defines "f \<equiv> shift_value (last_time_out l - now)"
  shows "tl_ok (shift_timers now l)" and "set (timers (shift_timers now l)) = (\<lambda>(v, p). (f v, p)) ` set (timers l)"
    and "map_option ms_interval (um_find (timer_objs (shift_timers now l)) p) = map_option ms_interval (um_find (timer_objs l) p)"
    and "callback_at (shift_timers now l) p = callback_at l p"
proof -
  let ?l = "shift_timers now l" and ?diff = "last_time_out l - now"
  have objs: "um_find (timer_objs ?l) p = (if p \<in> set (timer_ptrs l)
      then map_option (\<lambda>t. t\<lparr>ms_value := f (ms_value t)\<rparr>) (um_find (timer_objs l) p) else um_find (timer_objs l) p)" for p
    using bk shift_objs_find [OF timer_of_ptr(1) [OF ok], of ?diff "timer_objs l" p] timer_of_ptr(2) [OF ok, of p]
    by (simp add: shift_timers_def Let_def f_def split: option.split)
  have ts: "set (timers ?l) = (\<lambda>(v, p). (f v, p)) ` set (timers l)" and ptrs: "timer_ptrs ?l = timer_ptrs l"
    and wf: "oset_wf (timers ?l)" "um_wf (timer_objs ?l)"
    using bk ok by (simp_all add: shift_timers_def Let_def f_def shift_timers_set shift_timers_wf shift_objs_wf tl_ok_def)
  show "set (timers ?l) = (\<lambda>(v, p). (f v, p)) ` set (timers l)" by (rule ts)
  show "map_option ms_interval (um_find (timer_objs ?l) p) = map_option ms_interval (um_find (timer_objs l) p)"
    by (simp add: objs option.map_comp comp_def)
  show "callback_at ?l p = callback_at l p" by (simp add: callback_at_def objs option.map_comp comp_def)
  have "(v, p) \<in> set (timers ?l) \<longleftrightarrow> p \<in> set (timer_ptrs l) \<and> (\<exists>t. um_find (timer_objs l) p = Some t \<and> f (ms_value t) = v)" for v p
    unfolding ts using ok by (force simp: tl_ok_def)
  then show "tl_ok ?l" using ok wf by (auto simp: tl_ok_def ptrs objs)
qed

lemma rl_ok_shift:
  assumes "rl_ok now rl"
  shows "rl_ok now (rl\<lparr>loop_timers := (shift_timers now (loop_timers rl))\<lparr>last_time_out := now\<rparr>\<rparr>)"
proof (cases "now < last_time_out (loop_timers rl)")
  case True
  have tl: "tl_ok (loop_timers rl)" and rep: "repeats_later now (loop_timers rl)" using assms by (simp_all add: rl_ok_def)
  have "now < now + ms_interval t" if "um_find (timer_objs (shift_timers now (loop_timers rl))) p = Some t" "0 < ms_interval t" for p t
  proof -
    have "map_option ms_interval (um_find (timer_objs (loop_timers rl)) p) = Some (ms_interval t)"
      using that(1) unfolding shift_ok(3) [OF tl True, of p, symmetric] by simp
    then obtain t0 where "um_find (timer_objs (loop_timers rl)) p = Some t0" "ms_interval t0 = ms_interval t"
      by (auto simp: map_option_eq_Some)
    then show ?thesis using rep that(2) unfolding repeats_later_def by metis
  qed
  then show ?thesis using shift_ok(1) [OF tl True] by (simp add: rl_ok_def repeats_later_def)
qed (use assms in \<open>simp add: rl_ok_def shift_timers_def repeats_later_def\<close>)

end
