(* ===== verification/TimerList_Claims.thy ===== *)
theory TimerList_Claims
  imports TimerList_Props
begin

text \<open>
  The properties of the timer list and the loop: a round ends and fires what is due, the loop sleeps until
  the earliest timer, delays survive a clock that was set back, and what a timer id means after its
  timer is gone.
\<close>

section \<open>The example loop\<close>

definition next_free :: "timer_ref list \<Rightarrow> timer_ref" where
  "next_free ps = fold (\<lambda>p m. max (Suc p) m) ps 0"

lemma next_free_ok: "alloc_ok next_free"
proof -
  have bound: "(\<forall>p \<in> set ps. p < fold (\<lambda>p m. max (Suc p) m) ps n) \<and> n \<le> fold (\<lambda>p m. max (Suc p) m) ps n" for ps n
    by (induction ps arbitrary: n) (auto, (metis Suc_le_eq max.bounded_iff)+)
  then show ?thesis unfolding alloc_ok_def next_free_def by (metis less_irrefl)
qed

definition quiet :: "string bodies" where
  "quiet cb rl = (if cb = ''a'' then [CallRunAfter 20 5 ''c'', CallQueue ''q''] else [])"

definition ex_loop :: "string RunLoop" where
  "ex_loop = fst (RunEvery next_free True 10 4 ''b'' (fst (RunAt next_free True 13 ''a''
     (fst (RunAfter next_free True 10 90 ''z'' (RunLoop_new 10))))))"

lemma ex_loop_ok: "tl_ok (loop_timers ex_loop)"
proof -
  have "tl_ok (loop_timers (RunLoop_new 10 :: string RunLoop))" by (simp add: RunLoop_new_def tl_ok_new)
  then show ?thesis unfolding ex_loop_def RunEvery_def RunAt_def RunAfter_def case_prod_beta Let_def fst_conv
    by (intro start_timer(1) [OF next_free_ok _ surjective_pairing])
qed

section \<open>A round of the timers\<close>

text \<open>C34: \<^verbatim>\<open>RunTimerProcs\<close> ends, whatever the callbacks do, as long as no timer they start is due at once
  and no addition wraps: timers that repeat are due again only later. Then no timer is due. The callbacks that
  ran are those of timers that were due, each once, in the order of their times; if no callback cancels a
  timer, all of them ran. The pointers of the list stay valid throughout.\<close>

theorem due_timers_fire_in_order:
  assumes "alloc_ok alloc" and ok: "tl_ok (loop_timers rl)" and later: "repeats_later now (loop_timers rl)" "bodies_later now body"
  shows "\<exists>rl' ran. RunTimerProcs alloc body now rl = Some (rl', ran) \<and> tl_ok (loop_timers rl') \<and>
    (\<forall>i. i \<in> set (timers (loop_timers rl')) \<longrightarrow> now < fst i) \<and>
    subseq (map Some ran) (due_callbacks now (shift_timers now (loop_timers rl))) \<and>
    ((\<forall>cb rl. list_all no_remove (body cb rl)) \<longrightarrow> map Some ran = due_callbacks now (shift_timers now (loop_timers rl)))"
proof (cases "timers (loop_timers rl) = []")
  case True
  then have "timers (shift_timers now (loop_timers rl)) = []" by (simp add: shift_timers_def Let_def)
  then show ?thesis using ok True by (simp add: RunTimerProcs_def due_callbacks_def due_def)
next
  case False
  let ?rl = "rl\<lparr>loop_timers := (shift_timers now (loop_timers rl))\<lparr>last_time_out := now\<rparr>\<rparr>"
  let ?b = "\<forall>cb rl. list_all no_remove (body cb rl)"
  have ok': "rl_ok now ?rl" using ok later by (intro rl_ok_shift) (simp add: rl_ok_def)
  have dc: "due_callbacks now (loop_timers ?rl) = due_callbacks now (shift_timers now (loop_timers rl))"
    by (simp add: due_callbacks_def due_def callback_at_def)
  obtain rl' ran where r: "run_due alloc body now ?rl [] = Some (rl', [] @ ran)" "rl_ok now rl'" "due now (loop_timers rl') = []"
    "subseq (map Some ran) (due_callbacks now (loop_timers ?rl))" "?b \<longrightarrow> map Some ran = due_callbacks now (loop_timers ?rl)"
    using run_due_ends [OF assms(1) later(2) _ ok', of ?b "[]"] by blast
  have tl': "tl_ok (loop_timers rl')" using r(2) by (simp add: rl_ok_def)
  have "RunTimerProcs alloc body now rl = Some (rl', ran)" using r(1) False by (simp add: RunTimerProcs_def)
  then show ?thesis using r(4,5) tl' due_none [OF tl' r(3)] unfolding dc by blast
qed

theorem due_timers_fire_in_order_witness:
  "\<exists>rl' ran. RunTimerProcs next_free quiet 20 ex_loop = Some (rl', ran) \<and> map Some ran = [Some ''a'', Some ''b'']"
proof -
  have "repeats_later 20 (loop_timers ex_loop)"
  proof -
    have "list_all (\<lambda>(p, t). 0 < ms_interval t \<longrightarrow> (20::u64) < 20 + ms_interval t) (timer_objs (loop_timers ex_loop))" by code_simp
    then show ?thesis by (auto simp: repeats_later_def list_all_iff dest!: map_of_SomeD)
  qed
  moreover have "bodies_later 20 quiet" "\<forall>cb rl. list_all no_remove (quiet cb rl)" by (simp_all add: bodies_later_def quiet_def)
  moreover have "due_callbacks 20 (shift_timers 20 (loop_timers ex_loop)) = [Some ''a'', Some ''b'']" by code_simp
  ultimately show ?thesis using due_timers_fire_in_order [OF next_free_ok ex_loop_ok, of 20 quiet] by metis
qed

section \<open>How long the loop sleeps\<close>

text \<open>With timers, and a clock that was not set back, \<^verbatim>\<open>TimeoutMs\<close> is exactly the time until the earliest
  one and never too long; a timer that is due makes it zero. With no timers it is -1, which \<^verbatim>\<open>wait_for\<close> takes
  as a time in the past: a loop without timers and functions does not sleep at all.\<close>

lemma timeout_is_exact:
  assumes ok: "tl_ok l" and clock: "last_time_out l \<le> now"
  shows "(if timers l = [] then sint (TimeoutMs now l) = - 1
    else unat now + unat (TimeoutMs now l) = max (unat now) (Min (unat ` fst ` set (timers l))))"
proof (cases "timers l")
  case Nil
  then show ?thesis by (simp add: TimeoutMs_def)
next
  case (Cons i rest)
  have "sorted (i # rest)" using ok Cons by (simp add: tl_ok_def oset_wf_def)
  then have "fst i \<le> fst x" if "x \<in> set (timers l)" for x using that Cons by (auto simp: less_eq_prod_def)
  then have "Min (unat ` fst ` set (timers l)) = unat (fst i)"
    using Cons by (intro Min_eqI) (auto simp: word_le_nat_alt)
  moreover have "unat now + unat (fst i - now) = unat (fst i)" if "now \<le> fst i"
    using that by (simp add: unat_sub word_le_nat_alt)
  ultimately show ?thesis using Cons clock by (auto simp: TimeoutMs_def word_le_nat_alt word_less_nat_alt not_le max_def split: prod.split)
qed

section \<open>A clock that was set back\<close>

text \<open>When the clock was set back since the last round, every timer is moved by the same amount, so that
  the time that was left for it is left again; a timer that would have to be moved before time zero is
  due at once. Nothing else about the timers changes.\<close>

lemma delays_survive_clock_change:
  assumes ok: "tl_ok l" and set_back: "now < last_time_out l" and i: "(v, p) \<in> set (timers l)"
  shows "\<exists>v'. (v', p) \<in> set (timers (shift_timers now l)) \<and> callback_at (shift_timers now l) p = callback_at l p \<and>
    tl_ok (shift_timers now l) \<and>
    (if last_time_out l \<le> v then v' - now = v - last_time_out l else v' \<le> now)"
proof -
  note sh = shift_ok [OF ok set_back]
  let ?v = "shift_value (last_time_out l - now) v"
  have "(?v, p) \<in> set (timers (shift_timers now l))" using i by (force simp: sh(2))
  moreover have "if last_time_out l \<le> v then ?v - now = v - last_time_out l else ?v \<le> now"
  proof (cases "last_time_out l \<le> v")
    case True
    have "unat (last_time_out l - now) \<le> unat v"
      using True set_back by (simp add: unat_sub word_le_nat_alt word_less_nat_alt less_imp_le)
    then have "?v = v - (last_time_out l - now)" by (cases "last_time_out l - now = v") (auto simp: shift_value_def word_less_nat_alt word_le_nat_alt dest: le_neq_implies_less unsigned_word_eqI)
    then show ?thesis using True by simp
  next
    case False
    have "unat (last_time_out l - now) = unat (last_time_out l) - unat now" using set_back by (simp add: unat_sub less_imp_le)
    moreover have "unat v < unat (last_time_out l)" using False by (simp add: word_le_nat_alt)
    moreover have "unat (v - (last_time_out l - now)) = unat v - unat (last_time_out l - now)" if "last_time_out l - now < v"
      using that by (simp add: unat_sub less_imp_le)
    ultimately have "?v \<le> now" by (auto simp: shift_value_def word_le_nat_alt)
    then show ?thesis using False by simp
  qed
  ultimately show ?thesis using sh(1) sh(4) by metis
qed

section \<open>Ids of timers that are gone\<close>

text \<open>A timer id is the address of its timer. Once the timer has fired and its memory is used for a new
  timer, cancelling the old id cancels the new timer: \<^verbatim>\<open>Remove\<close> looks only whether the address is in use. In
  the example the first timer has fired before the second is started at the same address.\<close>

lemma remove_by_address:
  assumes ok: "tl_ok (loop_timers rl)" and reused: "(v, p) \<in> set (timers (loop_timers rl))"
  shows "(v, p) \<notin> set (timers (loop_timers (Remove True (old, p) rl))) \<and>
    callback_at (loop_timers (Remove True (old, p) rl)) p = None"
proof -
  obtain t where "um_find (timer_objs (loop_timers rl)) p = Some t" "ms_value t = v" "p \<in> set (timer_ptrs (loop_timers rl))"
    using tl_ok_timer [OF ok reused] by auto
  then show ?thesis
    by (simp add: Remove_def RunInLoop_def run_timer_func_def timer_func_def remove_timer_def Let_def callback_at_def)
qed

lemma stale_timer_id_cancels_other:
  "let (rl, old) = RunAt next_free True 11 ''x'' (RunLoop_new 10);
       rl = fst (the (RunTimerProcs next_free quiet 12 rl));
       (rl, new) = RunAt next_free True 50 ''y'' rl
   in timers (loop_timers rl) = [new] \<and> fst old \<noteq> fst new \<and> timers (loop_timers (Remove True old rl)) = []"
  by code_simp

end
