(* ===== verification/ServerOptions.thy ===== *)
theory ServerOptions
  imports SaberServer
begin

text \<open>
  \<^verbatim>\<open>ServerOptions\<close> (\<^verbatim>\<open>saber/server/server_options.{h,cc}\<close>) with its defaults, and what \<^verbatim>\<open>SaberServer::Start\<close> makes of
  it: the options of skywalker, the calls it makes in their order, and the state of the server when it has started.
  Whether \<^verbatim>\<open>skywalker::Node::Start\<close> succeeds and the event loops of the listening server are parameters.
\<close>

record ServerMessage =
  smsg_id :: u64
  smsg_host :: string
  client_port :: u16
  paxos_port :: u16

definition ServerMessage_new :: ServerMessage where
  "ServerMessage_new = \<lparr>smsg_id = 1, smsg_host = ''127.0.0.1'', client_port = 6666, paxos_port = 5666\<rparr>"

record ServerOptions =
  opt_server_threads :: u32
  opt_paxos_io_threads :: u32
  opt_paxos_callback_threads :: u32
  opt_paxos_group_size :: u32
  opt_tick_time :: u32
  opt_session_timeout :: u32
  opt_max_all_connections :: u32
  opt_max_ip_connections :: u32
  opt_max_data_size :: u32
  opt_keep_log_count :: u32
  opt_log_sync_interval :: u32
  opt_log_storage_path :: string
  opt_keep_checkpoint_count :: u32
  opt_my_server :: ServerMessage
  opt_all_servers :: "ServerMessage list"
  opt_cluster :: "nat option"

definition ServerOptions_new :: ServerOptions where
  "ServerOptions_new =
     \<lparr>opt_server_threads = 3, opt_paxos_io_threads = 2, opt_paxos_callback_threads = 1, opt_paxos_group_size = 10,
      opt_tick_time = 3000, opt_session_timeout = 4 * 3000, opt_max_all_connections = 60000,
      opt_max_ip_connections = 60, opt_max_data_size = 1024 * 1024, opt_keep_log_count = 1000000,
      opt_log_sync_interval = 10, opt_log_storage_path = [], opt_keep_checkpoint_count = 3,
      opt_my_server = ServerMessage_new, opt_all_servers = [], opt_cluster = None\<rparr>"

record Member =
  mb_id :: u64
  mb_host :: string
  mb_port :: u16
  mb_context :: string

record GroupOptions =
  go_use_master :: bool
  go_log_sync :: bool
  go_sync_interval :: u32
  go_keep_log_count :: u32
  go_log_storage_path :: string
  go_keep_checkpoint_count :: u32
  go_membership :: "Member list"

definition Start_members :: "ServerOptions \<Rightarrow> Member list" where
  "Start_members options = map (\<lambda>m. \<lparr>mb_id = smsg_id m, mb_host = smsg_host m, mb_port = paxos_port m,
     mb_context = show_nat (unat (client_port m))\<rparr>) (opt_all_servers options)"

definition Start_groups :: "ServerOptions \<Rightarrow> GroupOptions list" where
  "Start_groups options =
     replicate (unat (opt_paxos_group_size options))
       \<lparr>go_use_master = True, go_log_sync = True, go_sync_interval = opt_log_sync_interval options,
        go_keep_log_count = opt_keep_log_count options, go_log_storage_path = opt_log_storage_path options,
        go_keep_checkpoint_count = opt_keep_checkpoint_count options, go_membership = Start_members options\<rparr>"

definition Start_state :: "ServerOptions \<Rightarrow> loop list \<Rightarrow> SaberServer" where
  "Start_state options loops =
     SaberServer_new (smsg_id (opt_my_server options)) (opt_session_timeout options) (opt_tick_time options)
       (opt_paxos_group_size options) loops"

text \<open>\<^verbatim>\<open>Start\<close> itself. The calls: the machine id of the database, skywalker, then, if it runs, the limit on data, a task that
  cleans the sessions of each group, the listening socket and a timer for each event loop.\<close>

record SkywalkerOptions =
  sk_io_threads :: u32
  sk_callback_threads :: u32
  sk_my_id :: u64
  sk_my_host :: string
  sk_my_port :: u16
  sk_groups :: "GroupOptions list"
  sk_cluster :: "nat option"

datatype start_effect =
    SetMachineId u32
  | NodeStart SkywalkerOptions
  | SetMaxDataSize u32
  | QueueCleanSessions u32
  | ListenStart
  | TickEvery loop u32

definition Start_options :: "ServerOptions \<Rightarrow> SkywalkerOptions" where
  "Start_options options =
     \<lparr>sk_io_threads = opt_paxos_io_threads options, sk_callback_threads = opt_paxos_callback_threads options,
      sk_my_id = smsg_id (opt_my_server options), sk_my_host = smsg_host (opt_my_server options),
      sk_my_port = paxos_port (opt_my_server options), sk_groups = Start_groups options, sk_cluster = opt_cluster options\<rparr>"

definition SaberServer_ctor :: "ServerOptions \<Rightarrow> SaberServer" where
  "SaberServer_ctor options =
     SaberServer_new (smsg_id (opt_my_server options)) (opt_session_timeout options) (opt_tick_time options)
       (opt_paxos_group_size options) []"

fun Start_loops :: "loop list \<Rightarrow> u32 \<Rightarrow> SaberServer \<Rightarrow> SaberServer \<times> start_effect list" where
  "Start_loops [] tick v = (v, [])"
| "Start_loops (l # ls) tick v =
     (let bs = (if um_find (srv_buckets v) l = None then srv_buckets v @ [(l, bucket_queue_new (idle_ticks v))] else srv_buckets v);
          (v, out) = Start_loops ls tick (v\<lparr>srv_buckets := bs\<rparr>)
      in (v, TickEvery l tick # out))"

definition SaberServer_Start ::
    "(SkywalkerOptions \<Rightarrow> bool) \<Rightarrow> loop list \<Rightarrow> ServerOptions \<Rightarrow> SaberServer \<Rightarrow> (SaberServer \<times> start_effect list) \<times> bool" where
  "SaberServer_Start node_start loops options v =
     (let v = v\<lparr>srv_db := SaberDB_new (opt_paxos_group_size options)\<rparr>;
          out = [SetMachineId 1001, NodeStart (Start_options options)];
          res = node_start (Start_options options)
      in if res
         then (let (v, out') = Start_loops loops (opt_tick_time options) v
               in ((v, out @ [SetMaxDataSize (opt_max_data_size options)] @
                    map (\<lambda>i. QueueCleanSessions (word_of_nat i)) [0..<unat (opt_paxos_group_size options)] @
                    [ListenStart] @ out'), True))
         else ((v, out), False))"

lemma Start_loops_eq:
  assumes "distinct ls" and "fst ` set (srv_buckets v) \<inter> set ls = {}"
  shows "Start_loops ls tick v =
    (v\<lparr>srv_buckets := srv_buckets v @ map (\<lambda>l. (l, bucket_queue_new (idle_ticks v))) ls\<rparr>, map (\<lambda>l. TickEvery l tick) ls)"
  using assms
proof (induction ls arbitrary: v)
  case (Cons l ls)
  have "um_find (srv_buckets v) l = None" using Cons.prems by (auto simp: map_of_eq_None_iff)
  moreover have "Start_loops ls tick (v\<lparr>srv_buckets := srv_buckets v @ [(l, bucket_queue_new (idle_ticks v))]\<rparr>) =
    (v\<lparr>srv_buckets := srv_buckets v @ map (\<lambda>l. (l, bucket_queue_new (idle_ticks v))) (l # ls)\<rparr>, map (\<lambda>l. TickEvery l tick) ls)"
    using Cons.prems by (subst Cons.IH) auto
  ultimately show ?case by simp
qed simp

text \<open>A server that has started is in the start state of the step relation.\<close>

lemma Start_reaches_start_state:
  assumes "distinct loops" and "node_start (Start_options options)"
  shows "fst (fst (SaberServer_Start node_start loops options (SaberServer_ctor options))) = Start_state options loops"
  using assms by (simp add: SaberServer_Start_def SaberServer_ctor_def Start_state_def SaberServer_new_def Let_def Start_loops_eq)

text \<open>What \<^verbatim>\<open>GetMembership\<close> and \<^verbatim>\<open>GetMaster\<close> tell the server about a member: its host and its context.\<close>

definition member_pair :: "Member \<Rightarrow> string \<times> string" where
  "member_pair m = (mb_host m, mb_context m)"

end
