(* ===== verification/ServerMain.thy ===== *)
theory ServerMain
  imports ServerOptions
begin

text \<open>
  The program \<^verbatim>\<open>saber_server\<close> (\<^verbatim>\<open>saber/main/saber_server_main.cc\<close>): two arguments, this server and all servers, each as
  \<^verbatim>\<open>id:ip:port:port\<close>. \<open>split ds\<close> is \<^verbatim>\<open>voyager::SplitStringUsing\<close> with the delimiters \<open>ds\<close> and \<open>cwd\<close> is what
  \<^verbatim>\<open>getcwd\<close> returns. The result is either the exit code and the text that is printed, or the options of the
  server that is started.
\<close>

datatype main_result = MainExit int string | MainRun ServerOptions

definition main_usage :: "string \<Rightarrow> main_result" where
  "main_usage prog = MainExit (- 1) (''Usage: '' @ prog @ '' id:ip:port:port id:ip:port:port,...'' @ [CHR 10])"

definition parse_server_message :: "string list \<Rightarrow> ServerMessage option" where
  "parse_server_message server =
     (case server of
        [a, b, c, d] \<Rightarrow> Some \<lparr>smsg_id = scast (atoi a), smsg_host = b, client_port = ucast (atoi c), paxos_port = ucast (atoi d)\<rparr>
      | _ \<Rightarrow> None)"

fun parse_all_servers :: "(string \<Rightarrow> string list) \<Rightarrow> string list \<Rightarrow> ServerMessage list option" where
  "parse_all_servers split_colon [] = Some []"
| "parse_all_servers split_colon (s # ss) =
     (case parse_server_message (split_colon s) of
        None \<Rightarrow> None
      | Some m \<Rightarrow> (case parse_all_servers split_colon ss of None \<Rightarrow> None | Some ms \<Rightarrow> Some (m # ms)))"

definition server_main :: "(string \<Rightarrow> string \<Rightarrow> string list) \<Rightarrow> string option \<Rightarrow> string \<Rightarrow> string list \<Rightarrow> main_result" where
  "server_main split cwd prog args =
     (case args of
        [my, all] \<Rightarrow>
          (case cwd of
             None \<Rightarrow> MainExit (- 1) (''getcwd failed.'' @ [CHR 10])
           | Some path \<Rightarrow>
               (case parse_server_message (split '':'' my) of
                  None \<Rightarrow> main_usage prog
                | Some m \<Rightarrow>
                    (case parse_all_servers (split '':'') (split '','' all) of
                       None \<Rightarrow> main_usage prog
                     | Some ms \<Rightarrow>
                         MainRun (ServerOptions_new\<lparr>opt_log_storage_path := path @ ''/log'', opt_keep_log_count := 100,
                           opt_my_server := m, opt_all_servers := ms\<rparr>))))
      | _ \<Rightarrow> main_usage prog)"

section \<open>Arguments as text\<close>

definition message_text :: "ServerMessage \<Rightarrow> string" where
  "message_text m = join_with CHR '':''
     [show_nat (unat (smsg_id m)), smsg_host m, show_nat (unat (client_port m)), show_nat (unat (paxos_port m))]"

text \<open>The servers whose text is read back: the host is not empty and holds neither delimiter, and the id fits in
  the positive half of an \<^verbatim>\<open>int\<close>.\<close>

definition printable :: "ServerMessage \<Rightarrow> bool" where
  "printable m \<longleftrightarrow> piece CHR '':'' (smsg_host m) \<and> piece CHR '','' (smsg_host m) \<and> smsg_id m < 2 ^ 31"

lemma port_roundtrip: "ucast (atoi (show_nat (unat (q :: u16)))) = q"
proof -
  have "ucast (ucast q :: u32) = q" by (rule bit_word_eqI) (simp add: bit_simps)
  moreover have "unat q < 2 ^ 63" by (rule less_trans [OF unsigned_less]) simp
  ultimately show ?thesis using atoi_show_nat [of "unat q"] by simp
qed

lemma small_int_roundtrip: "0 \<le> k \<Longrightarrow> k < 2 ^ 31 \<Longrightarrow> scast (word_of_int k :: i32) = (word_of_int k :: u64)"
  by (simp add: scast_eq sint_sbintrunc' signed_take_bit_int_eq_self)

lemma id_roundtrip:
  assumes "i < 2 ^ 31"
  shows "scast (atoi (show_nat (unat (i :: u64)))) = i"
proof -
  have i: "uint i < 2 ^ 31" using assms by (simp add: word_less_def)
  have "unat i < 2 ^ 31" using assms by (simp add: word_less_nat_alt)
  then have "unat i < 2 ^ 63" by simp
  then have "strtol (show_nat (unat i)) = uint i" by (simp add: strtol_show_nat)
  then show ?thesis unfolding atoi_def using small_int_roundtrip [of "uint i"] i by simp
qed

lemma show_nat_piece: "\<not> is_digit d \<Longrightarrow> piece d (show_nat n)"
  using is_digit_show_nat by (auto simp: piece_def)

lemma message_text_pieces:
  assumes "printable m"
  shows "list_all (piece CHR '':'') [show_nat (unat (smsg_id m)), smsg_host m, show_nat (unat (client_port m)), show_nat (unat (paxos_port m))]"
    and "piece CHR '','' (message_text m)"
proof -
  have d: "\<not> is_digit CHR '':''" "\<not> is_digit CHR '',''" by (simp_all add: is_digit_def)
  show "list_all (piece CHR '':'') [show_nat (unat (smsg_id m)), smsg_host m, show_nat (unat (client_port m)), show_nat (unat (paxos_port m))]"
    using assms show_nat_piece [OF d(1)] by (simp add: printable_def)
  show "piece CHR '','' (message_text m)"
    using assms show_nat_piece [OF d(2)] by (auto simp: message_text_def piece_def printable_def)
qed

lemma parse_message_text:
  assumes "split_law CHR '':'' split" and "printable m"
  shows "parse_server_message (split (message_text m)) = Some m"
proof -
  have "split (message_text m) = [show_nat (unat (smsg_id m)), smsg_host m, show_nat (unat (client_port m)), show_nat (unat (paxos_port m))]"
    unfolding message_text_def by (rule split_lawD [OF assms(1) message_text_pieces(1) [OF assms(2)]])
  moreover have "smsg_id m < 2 ^ 31" using assms(2) by (simp add: printable_def)
  ultimately show ?thesis by (simp add: parse_server_message_def id_roundtrip port_roundtrip del: unsigned_of_nat)
qed

lemma parse_all_texts:
  "split_law CHR '':'' split \<Longrightarrow> list_all printable ms \<Longrightarrow> parse_all_servers split (map message_text ms) = Some ms"
  by (induction ms) (simp_all add: parse_message_text)

lemma server_main_roundtrip:
  assumes split: "split_law CHR '':'' (split '':'')" "split_law CHR '','' (split '','')" and "printable my" and "list_all printable ms"
  shows "server_main split (Some path) prog [message_text my, join_with CHR '','' (map message_text ms)] =
    MainRun (ServerOptions_new\<lparr>opt_log_storage_path := path @ ''/log'', opt_keep_log_count := 100, opt_my_server := my, opt_all_servers := ms\<rparr>)"
proof -
  have "list_all (piece CHR '','') (map message_text ms)"
    using assms(4) message_text_pieces(2) by (auto simp: list_all_iff)
  then have "split '','' (join_with CHR '','' (map message_text ms)) = map message_text ms" by (rule split_lawD [OF split(2)])
  then show ?thesis using assms by (simp add: server_main_def parse_message_text parse_all_texts)
qed

text \<open>An id is read by \<^verbatim>\<open>atoi\<close>: a larger id, read back, is another one.\<close>

lemma uint_scast: "uint (scast (w :: i32) :: u64) = sint w mod 2 ^ 64"
  unfolding scast_eq uint_word_of_int by simp

lemma large_id_changes:
  assumes "2 ^ 31 \<le> uint (i :: u64)" and "uint i < 2 ^ 63"
  shows "scast (atoi (show_nat (unat i))) \<noteq> i"
proof
  assume e: "scast (atoi (show_nat (unat i))) = i"
  define k where "k = sint (atoi (show_nat (unat i)))"
  have k: "- (2 ^ 31) \<le> k" "k < 2 ^ 31"
    unfolding k_def using sint_greater_eq [of "atoi (show_nat (unat i))"] sint_less [of "atoi (show_nat (unat i))"] by simp_all
  have "uint i = k mod 2 ^ 64" using uint_scast [of "atoi (show_nat (unat i))"] unfolding e k_def .
  moreover have "k mod 2 ^ 64 = (if 0 \<le> k then k else k + 2 ^ 64)"
    using k mod_pos_pos_trivial [of "k + 2 ^ 64" "2 ^ 64"] mod_add_self2 [of k "2 ^ 64"] by (cases "0 \<le> k") simp_all
  ultimately show False using k assms by (simp split: if_splits)
qed

end
