(* ===== verification/ClientWatch.thy ===== *)
theory ClientWatch
  imports ServerWatch
begin

text \<open>
  \<^verbatim>\<open>ClientWatchManager\<close> (\<^verbatim>\<open>saber/client/client_watch_manager.{h,cc}\<close>): the watchers of the application, by
  path, for data and for children, and the watcher for the state of the session. For the events of nodes it
  keeps the same contract as the manager of the server, the locale \<open>watch_table\<close>; a change of the state of
  the session goes to every watcher and forgets them all.
\<close>

record ClientWatchManager =
  default_watcher :: "watcher option"
  data_watches :: "(string, watcher) buckets"
  child_watches :: "(string, watcher) buckets"

definition ClientWatchManager_new :: "watcher option \<Rightarrow> ClientWatchManager" where
  "ClientWatchManager_new w = \<lparr>default_watcher = w, data_watches = [], child_watches = []\<rparr>"

definition AddDataWatcher :: "string \<Rightarrow> watcher \<Rightarrow> ClientWatchManager \<Rightarrow> ClientWatchManager" where
  "AddDataWatcher path w m = m\<lparr>data_watches := bk_insert path w (data_watches m)\<rparr>"

definition AddChildWatcher :: "string \<Rightarrow> watcher \<Rightarrow> ClientWatchManager \<Rightarrow> ClientWatchManager" where
  "AddChildWatcher path w m = m\<lparr>child_watches := bk_insert path w (child_watches m)\<rparr>"

definition all_watchers :: "ClientWatchManager \<Rightarrow> watcher uset" where
  "all_watchers m =
     fold (\<lambda>(k, ws). fold us_insert ws) (child_watches m)
       (fold (\<lambda>(k, ws). fold us_insert ws) (data_watches m)
         (case default_watcher m of None \<Rightarrow> [] | Some w \<Rightarrow> [w]))"

definition client_TriggerWatcher :: "WatchedEvent \<Rightarrow> ClientWatchManager \<Rightarrow> ClientWatchManager \<times> notification list" where
  "client_TriggerWatcher event m =
     (let (m, watchers) =
        (case we_type event of
           ET_NONE \<Rightarrow> (m\<lparr>data_watches := [], child_watches := []\<rparr>, all_watchers m)
         | ET_NODE_CHILDREN_CHANGED \<Rightarrow>
             (case um_find (child_watches m) (we_path event) of
                None \<Rightarrow> (m, [])
              | Some ws \<Rightarrow> (m\<lparr>child_watches := um_erase (we_path event) (child_watches m)\<rparr>, ws))
         | ET_OTHER k \<Rightarrow> (m, [])
         | _ \<Rightarrow>
             (case um_find (data_watches m) (we_path event) of
                None \<Rightarrow> (m, [])
              | Some ws \<Rightarrow> (m\<lparr>data_watches := um_erase (we_path event) (data_watches m)\<rparr>, ws)))
      in (m, map (\<lambda>w. (w, event)) watchers))"

section \<open>The contract\<close>

datatype data_change = DC_CREATED | DC_DELETED | DC_CHANGED

fun data_event :: "string \<Rightarrow> data_change \<Rightarrow> WatchedEvent" where
  "data_event p DC_CREATED = watched_event p ET_NODE_CREATED"
| "data_event p DC_DELETED = watched_event p ET_NODE_DELETED"
| "data_event p DC_CHANGED = watched_event p ET_NODE_DATA_CHANGED"

definition child_event :: "string \<Rightarrow> unit \<Rightarrow> WatchedEvent" where
  "child_event p u = watched_event p ET_NODE_CHILDREN_CHANGED"

lemma um_erase_absent: "um_find m k = None \<Longrightarrow> um_erase k m = m"
  by (simp add: um_erase_def map_of_eq_None_iff)

lemma client_trigger_data:
  "client_TriggerWatcher (data_event p c) m =
     (m\<lparr>data_watches := um_erase p (data_watches m)\<rparr>, map (\<lambda>w. (w, data_event p c)) (bk_at (data_watches m) p))"
  by (cases c) (simp_all add: client_TriggerWatcher_def watched_event_def bk_at_def um_erase_absent split: option.splits)

lemma client_trigger_child:
  "client_TriggerWatcher (child_event p u) m =
     (m\<lparr>child_watches := um_erase p (child_watches m)\<rparr>, map (\<lambda>w. (w, child_event p u)) (bk_at (child_watches m) p))"
  by (simp add: client_TriggerWatcher_def child_event_def watched_event_def bk_at_def um_erase_absent split: option.splits)

lemma bk_wf_distinct: "bk_wf m \<Longrightarrow> distinct (bk_at m k)"
  by (simp add: bk_wf_def)

interpretation cdata: watch_table "\<lambda>m. bk_rel (data_watches m)" "\<lambda>m. bk_wf (data_watches m)"
    AddDataWatcher "\<lambda>p c. client_TriggerWatcher (data_event p c)" fst
  by unfold_locales
    (auto simp: AddDataWatcher_def client_trigger_data bk_wf_distinct comp_def simp del: data_event.simps)

interpretation cchild: watch_table "\<lambda>m. bk_rel (child_watches m)" "\<lambda>m. bk_wf (child_watches m)"
    AddChildWatcher "\<lambda>p u. client_TriggerWatcher (child_event p u)" fst
  by unfold_locales (auto simp: AddChildWatcher_def client_trigger_child bk_wf_distinct comp_def)

text \<open>A change of the state of the session reaches every watcher once, and none is left.\<close>

lemma set_fold_insert: "set (fold us_insert ws acc) = set ws \<union> set acc"
  by (induction ws arbitrary: acc) (auto simp: us_insert_def)

lemma distinct_fold_insert: "distinct acc \<Longrightarrow> distinct (fold us_insert ws acc)"
  by (induction ws arbitrary: acc) (auto simp: us_insert_def)

lemma set_fold_buckets: "set (fold (\<lambda>(k, ws). fold us_insert ws) m acc) = (\<Union>x \<in> set m. set (snd x)) \<union> set acc"
  by (induction m arbitrary: acc) (auto simp: set_fold_insert)

lemma distinct_fold_buckets: "distinct acc \<Longrightarrow> distinct (fold (\<lambda>(k, ws). fold us_insert ws) m acc)"
  by (induction m arbitrary: acc) (auto simp: distinct_fold_insert)

lemma bk_range: "um_wf m \<Longrightarrow> (\<Union>x \<in> set m. set (snd x)) = Range (bk_rel m)"
proof -
  assume wf: "um_wf m"
  have "w \<in> (\<Union>x \<in> set m. set (snd x)) \<longleftrightarrow> (\<exists>k ws. um_find m k = Some ws \<and> w \<in> set ws)" for w
    using um_find_in_set [OF wf] by force
  moreover have "w \<in> set (bk_at m k) \<longleftrightarrow> (\<exists>ws. um_find m k = Some ws \<and> w \<in> set ws)" for w k
    by (cases "um_find m k") (simp_all add: bk_at_def)
  ultimately have "w \<in> (\<Union>x \<in> set m. set (snd x)) \<longleftrightarrow> w \<in> Range (bk_rel m)" for w by (simp only: Range_iff bk_rel_iff)
  then show ?thesis by blast
qed

lemma state_change_reaches_all:
  assumes "um_wf (data_watches m)" and "um_wf (child_watches m)" and "we_type event = ET_NONE"
  shows "set (map fst (snd (client_TriggerWatcher event m))) =
      Range (bk_rel (data_watches m)) \<union> Range (bk_rel (child_watches m)) \<union> set_option (default_watcher m)"
    and "distinct (map fst (snd (client_TriggerWatcher event m)))"
  using assms by (auto simp: client_TriggerWatcher_def all_watchers_def comp_def set_fold_buckets bk_range
      intro!: distinct_fold_buckets split: option.splits)

end
