(* ===== verification/ServerManager.thy ===== *)
theory ServerManager
  imports Strings "HOL-Library.Multiset"
begin

text \<open>
  \<^verbatim>\<open>ServerManagerImpl\<close> (\<^verbatim>\<open>saber/client/server_manager_impl.{h,cc}\<close>): the servers a client may connect to, in a
  random order, taken in turn. \<open>split\<close> is \<^verbatim>\<open>voyager::SplitStringUsing\<close> at commas and \<open>shuffle\<close> is
  \<^verbatim>\<open>std::shuffle\<close>; both are parameters. The interface \<^verbatim>\<open>ServerManager\<close> is the locale \<open>server_source\<close>.
\<close>

datatype SockAddr = SockAddr (sa_host: string) (sa_port: u16)

record ServerManagerImpl =
  next_index :: nat
  servers :: "SockAddr list"

definition ServerManagerImpl_new :: ServerManagerImpl where
  "ServerManagerImpl_new = \<lparr>next_index = 0, servers = []\<rparr>"

definition colon :: char where
  "colon = CHR '':''"

definition parse_server :: "string \<Rightarrow> SockAddr list" where
  "parse_server s =
     (if colon \<in> set s
      then [SockAddr (takeWhile (\<lambda>c. c \<noteq> colon) s) (ucast (atoi (tl (dropWhile (\<lambda>c. c \<noteq> colon) s))))]
      else [])"

definition UpdateServers ::
    "(string \<Rightarrow> string list) \<Rightarrow> (SockAddr list \<Rightarrow> SockAddr list) \<Rightarrow> string \<Rightarrow> ServerManagerImpl \<Rightarrow> ServerManagerImpl" where
  "UpdateServers split shuffle s m = m\<lparr>servers := shuffle (concat (map parse_server (split s))), next_index := 0\<rparr>"

definition GetSize :: "ServerManagerImpl \<Rightarrow> nat" where
  "GetSize m = length (servers m)"

text \<open>\<open>None\<close>: there is no server; the code asserts that there is one.\<close>

definition GetNextServer :: "ServerManagerImpl \<Rightarrow> (SockAddr \<times> ServerManagerImpl) option" where
  "GetNextServer m =
     (if servers m = [] then None
      else (let i = (if next_index m \<ge> length (servers m) then 0 else next_index m)
            in Some (servers m ! i, m\<lparr>next_index := i + 1\<rparr>)))"

section \<open>The contract\<close>

text \<open>What the client relies on: a source that has servers always gives one of them and keeps them, and an
  update replaces them.\<close>

locale server_source =
  fixes known :: "'m \<Rightarrow> 'a set" and next_one :: "'m \<Rightarrow> ('a \<times> 'm) option" and update :: "'a list \<Rightarrow> 'm \<Rightarrow> 'm"
  assumes next_some: "known m \<noteq> {} \<Longrightarrow> \<exists>a m'. next_one m = Some (a, m') \<and> a \<in> known m \<and> known m' = known m"
    and known_update: "known (update as m) = set as"
begin

lemma next_after_update:
  assumes "as \<noteq> []"
  obtains a m' where "next_one (update as m) = Some (a, m')" "a \<in> set as" "known m' = set as"
proof -
  have "known (update as m) \<noteq> {}" using assms by (simp add: known_update)
  then show thesis using next_some [of "update as m"] that by (auto simp: known_update)
qed

end

interpretation impl: server_source "\<lambda>m. set (servers m)" GetNextServer "\<lambda>as m. m\<lparr>servers := as, next_index := 0\<rparr>"
  by unfold_locales (auto simp: GetNextServer_def Let_def)

section \<open>Every server in turn\<close>

fun next_servers :: "nat \<Rightarrow> ServerManagerImpl \<Rightarrow> SockAddr list" where
  "next_servers 0 m = []"
| "next_servers (Suc k) m = (case GetNextServer m of None \<Rightarrow> [] | Some (a, m') \<Rightarrow> a # next_servers k m')"

lemma next_servers_from:
  assumes "servers m = as" and "as \<noteq> []" and "next_index m \<le> length as"
  shows "next_servers k m = map (\<lambda>j. as ! ((next_index m + j) mod length as)) [0..<k]"
  using assms
proof (induction k arbitrary: m)
  case (Suc k)
  let ?i = "if next_index m \<ge> length as then 0 else next_index m"
  let ?m = "m\<lparr>next_index := ?i + 1\<rparr>"
  have pos: "0 < length as" using Suc.prems by simp
  have i: "?i = next_index m mod length as" using Suc.prems by auto
  have G: "GetNextServer m = Some (as ! ?i, ?m)" using Suc.prems by (simp add: GetNextServer_def Let_def)
  have "next_servers k ?m = map (\<lambda>j. as ! ((?i + 1 + j) mod length as)) [0..<k]"
  proof -
    have "next_index ?m \<le> length as" using pos by (auto simp: Suc_le_eq)
    then show ?thesis using Suc.IH [of ?m] Suc.prems(1,2) by simp
  qed
  moreover have "(?i + 1 + j) mod length as = (next_index m + Suc j) mod length as" for j
    unfolding i by (metis add.assoc mod_add_left_eq plus_1_eq_Suc)
  ultimately have "next_servers (Suc k) m = as ! (next_index m mod length as) # map (\<lambda>j. as ! ((next_index m + Suc j) mod length as)) [0..<k]"
    by (simp only: next_servers.simps G option.case prod.case) (simp add: i)
  also have "\<dots> = map (\<lambda>j. as ! ((next_index m + j) mod length as)) [0..<Suc k]"
    by (simp only: upt_conv_Cons [OF zero_less_Suc] list.map map_Suc_upt [symmetric] map_map comp_def) simp
  finally show ?case .
qed simp

lemma round_robin:
  assumes "servers m \<noteq> []" and "next_index m = 0"
  shows "next_servers (length (servers m)) m = servers m"
proof -
  have "next_servers (length (servers m)) m = map (\<lambda>j. servers m ! ((next_index m + j) mod length (servers m))) [0..<length (servers m)]"
    by (rule next_servers_from) (use assms in simp_all)
  also have "\<dots> = map (\<lambda>j. servers m ! j) [0..<length (servers m)]" by (rule map_cong) (simp_all add: assms(2))
  also have "\<dots> = servers m" by (rule map_nth)
  finally show ?thesis .
qed

end
