(* ===== verification/SaberClient.thy ===== *)
theory SaberClient
  imports ClientWatch ServerManager
begin

text \<open>
  \<^verbatim>\<open>SaberClient\<close> (\<^verbatim>\<open>saber/client/saber_client.{h,cc}\<close>) and the facade \<^verbatim>\<open>Saber\<close>: requests of the application get
  a number, wait in the queue of their kind for the reply and in \<open>outgoing_queue\<close> until they are answered, and
  are sent again after every reconnect. An operation returns the client and its effects in the order of the
  calls. \<open>p\<close> is what \<^verbatim>\<open>client_->GetTcpConnectionPtr()\<close> returns. All of it runs in the event loop of the client:
  a request of another thread is an operation at the time the loop runs it. A callback of the application is
  an effect; what it does with the client are operations after it.
\<close>

type_synonym conn_ptr = "nat option"

record SaberRequest =
  rq_id :: u32
  rq_path :: string
  rq_watcher :: "watcher option"
  rq_context :: nat
  rq_callback :: nat

datatype client_effect =
    ClientSend conn_ptr SaberMessage
  | CreateCb SaberRequest CreateResponse
  | DeleteCb SaberRequest DeleteResponse
  | ExistsCb SaberRequest ExistsResponse
  | GetDataCb SaberRequest GetDataResponse
  | SetDataCb SaberRequest SetDataResponse
  | GetChildrenCb SaberRequest GetChildrenResponse
  | Notify watcher WatchedEvent
  | TcpConnect SockAddr
  | TcpClose
  | TcpForceClose nat
  | TcpStopRead nat
  | PingEvery u64
  | StopPing
  | RetryAfter u64
  | StopRetry

record SaberClient =
  cl_root :: string
  has_started :: bool
  cl_state :: SessionState
  can_send :: bool
  message_id :: u32
  session_id :: u64
  retry_time :: u64
  server_manager :: ServerManagerImpl
  watch_manager :: ClientWatchManager
  create_queue :: "SaberRequest list"
  delete_queue :: "SaberRequest list"
  exists_queue :: "SaberRequest list"
  get_data_queue :: "SaberRequest list"
  set_data_queue :: "SaberRequest list"
  children_queue :: "SaberRequest list"
  outgoing_queue :: "SaberMessage list"
  master_addr :: Master

type_synonym client_result = "SaberClient \<times> client_effect list"

definition kMaxRetryTime :: u64 where
  "kMaxRetryTime = 1000"

definition client_GetRoot :: "string \<Rightarrow> string" where
  "client_GetRoot path = (case path of [] \<Rightarrow> [] | x # xs \<Rightarrow> x # takeWhile (\<lambda>c. c \<noteq> slash) xs)"

definition SaberClient_new :: "string \<Rightarrow> ServerManagerImpl \<Rightarrow> watcher option \<Rightarrow> SaberClient" where
  "SaberClient_new root sm w =
     \<lparr>cl_root = root, has_started = False, cl_state = SS_DISCONNECTED, can_send = False, message_id = 0, session_id = 0,
      retry_time = 50, server_manager = sm, watch_manager = ClientWatchManager_new w, create_queue = [],
      delete_queue = [], exists_queue = [], get_data_queue = [], set_data_queue = [], children_queue = [],
      outgoing_queue = [], master_addr = Master_default\<rparr>"

text \<open>\<^verbatim>\<open>ClientOptions\<close> without a server manager of the application: the client then makes its own.\<close>

record ClientOptions =
  co_root :: string
  co_servers :: string
  co_watcher :: "watcher option"

definition ClientOptions_new :: ClientOptions where
  "ClientOptions_new = \<lparr>co_root = [], co_servers = [], co_watcher = None\<rparr>"

definition SaberClient_ctor :: "(string \<Rightarrow> string list) \<Rightarrow> (SockAddr list \<Rightarrow> SockAddr list) \<Rightarrow> ClientOptions \<Rightarrow> SaberClient" where
  "SaberClient_ctor split shuffle options =
     SaberClient_new (co_root options) (UpdateServers split shuffle (co_servers options) ServerManagerImpl_new) (co_watcher options)"

text \<open>The destructor; \<open>None\<close>: the program is aborted, because the client was not closed.\<close>

definition SaberClient_destroy :: "SaberClient \<Rightarrow> client_effect list option" where
  "SaberClient_destroy c = (if has_started c then None else Some [StopPing, StopRetry])"

section \<open>Starting and stopping\<close>

definition ClearMessage :: "SaberClient \<Rightarrow> SaberClient" where
  "ClearMessage c = c\<lparr>create_queue := [], delete_queue := [], exists_queue := [], get_data_queue := [],
     set_data_queue := [], children_queue := [], outgoing_queue := []\<rparr>"

definition TriggerState :: "SaberClient \<Rightarrow> client_result" where
  "TriggerState c =
     (let (wm, ns) = client_TriggerWatcher \<lparr>we_state = cl_state c, we_type = ET_NONE, we_path = []\<rparr> (watch_manager c)
      in (c\<lparr>watch_manager := wm\<rparr>, map (\<lambda>(w, e). Notify w e) ns))"

definition client_Connect_addr :: "SockAddr \<Rightarrow> SaberClient \<Rightarrow> client_effect list" where
  "client_Connect_addr addr c = (if has_started c then [TcpConnect addr] else [])"

definition connect_next :: "SaberClient \<Rightarrow> client_result" where
  "connect_next c =
     (case GetNextServer (server_manager c) of
        None \<Rightarrow> (c, [])
      | Some (addr, sm) \<Rightarrow> (c\<lparr>server_manager := sm\<rparr>, client_Connect_addr addr c))"

definition client_Connect :: "SaberClient \<Rightarrow> client_result" where
  "client_Connect c =
     (if has_started c then (c, [])
      else connect_next (ClearMessage (c\<lparr>has_started := True, session_id := 0\<rparr>)))"

definition CloseInLoop :: "conn_ptr \<Rightarrow> client_effect list" where
  "CloseInLoop p =
     (case p of
        Some q \<Rightarrow> [TcpStopRead q, ClientSend p (SaberMessage_default\<lparr>sm_type := MT_CLOSE\<rparr>), StopPing]
      | None \<Rightarrow> [StopRetry]) @ [TcpClose]"

definition client_Close :: "conn_ptr \<Rightarrow> SaberClient \<Rightarrow> client_result" where
  "client_Close p c = (if has_started c then (c\<lparr>has_started := False\<rparr>, CloseInLoop p) else (c, []))"

section \<open>Requests\<close>

definition TrySendInLoop :: "conn_ptr \<Rightarrow> SaberMessage \<Rightarrow> SaberClient \<Rightarrow> client_result" where
  "TrySendInLoop p message c =
     (c\<lparr>outgoing_queue := outgoing_queue c @ [message]\<rparr>, if can_send c then [ClientSend p message] else [])"

definition new_message :: "MessageType \<Rightarrow> bytes \<Rightarrow> SaberClient \<Rightarrow> SaberMessage" where
  "new_message ty data c = \<lparr>sm_type = ty, sm_id = message_id c, sm_data = data, sm_extra_data = []\<rparr>"

definition new_request :: "string \<Rightarrow> watcher option \<Rightarrow> nat \<Rightarrow> nat \<Rightarrow> SaberClient \<Rightarrow> SaberRequest" where
  "new_request path w context cb c =
     \<lparr>rq_id = message_id c, rq_path = path, rq_watcher = w, rq_context = context, rq_callback = cb\<rparr>"

definition client_Create ::
    "pb_codec \<Rightarrow> conn_ptr \<Rightarrow> CreateRequest \<Rightarrow> nat \<Rightarrow> nat \<Rightarrow> SaberClient \<Rightarrow> client_result \<times> bool" where
  "client_Create pb p request context cb c =
     (if client_GetRoot (crq_path request) \<noteq> cl_root c then ((c, []), False)
      else (let c = c\<lparr>message_id := message_id c + 1\<rparr>;
                message = new_message MT_CREATE (ser_CreateRequest pb request) c;
                c = c\<lparr>create_queue := create_queue c @ [new_request (crq_path request) None context cb c]\<rparr>
            in (TrySendInLoop p message c, True)))"

definition client_Delete ::
    "pb_codec \<Rightarrow> conn_ptr \<Rightarrow> DeleteRequest \<Rightarrow> nat \<Rightarrow> nat \<Rightarrow> SaberClient \<Rightarrow> client_result \<times> bool" where
  "client_Delete pb p request context cb c =
     (if client_GetRoot (dlq_path request) \<noteq> cl_root c then ((c, []), False)
      else (let c = c\<lparr>message_id := message_id c + 1\<rparr>;
                message = new_message MT_DELETE (ser_DeleteRequest pb request) c;
                c = c\<lparr>delete_queue := delete_queue c @ [new_request (dlq_path request) None context cb c]\<rparr>
            in (TrySendInLoop p message c, True)))"

definition client_Exists ::
    "pb_codec \<Rightarrow> conn_ptr \<Rightarrow> ExistsRequest \<Rightarrow> watcher option \<Rightarrow> nat \<Rightarrow> nat \<Rightarrow> SaberClient \<Rightarrow> client_result \<times> bool" where
  "client_Exists pb p request w context cb c =
     (if client_GetRoot (exq_path request) \<noteq> cl_root c then ((c, []), False)
      else (let c = c\<lparr>message_id := message_id c + 1\<rparr>;
                message = new_message MT_EXISTS (ser_ExistsRequest pb request) c;
                c = c\<lparr>exists_queue := exists_queue c @ [new_request (exq_path request) w context cb c]\<rparr>
            in (TrySendInLoop p message c, True)))"

definition client_GetData ::
    "pb_codec \<Rightarrow> conn_ptr \<Rightarrow> GetDataRequest \<Rightarrow> watcher option \<Rightarrow> nat \<Rightarrow> nat \<Rightarrow> SaberClient \<Rightarrow> client_result \<times> bool" where
  "client_GetData pb p request w context cb c =
     (if client_GetRoot (gdq_path request) \<noteq> cl_root c then ((c, []), False)
      else (let c = c\<lparr>message_id := message_id c + 1\<rparr>;
                message = new_message MT_GETDATA (ser_GetDataRequest pb request) c;
                c = c\<lparr>get_data_queue := get_data_queue c @ [new_request (gdq_path request) w context cb c]\<rparr>
            in (TrySendInLoop p message c, True)))"

definition client_SetData ::
    "pb_codec \<Rightarrow> conn_ptr \<Rightarrow> SetDataRequest \<Rightarrow> nat \<Rightarrow> nat \<Rightarrow> SaberClient \<Rightarrow> client_result \<times> bool" where
  "client_SetData pb p request context cb c =
     (if client_GetRoot (sdq_path request) \<noteq> cl_root c then ((c, []), False)
      else (let c = c\<lparr>message_id := message_id c + 1\<rparr>;
                message = new_message MT_SETDATA (ser_SetDataRequest pb request) c;
                c = c\<lparr>set_data_queue := set_data_queue c @ [new_request (sdq_path request) None context cb c]\<rparr>
            in (TrySendInLoop p message c, True)))"

definition client_GetChildren ::
    "pb_codec \<Rightarrow> conn_ptr \<Rightarrow> GetChildrenRequest \<Rightarrow> watcher option \<Rightarrow> nat \<Rightarrow> nat \<Rightarrow> SaberClient \<Rightarrow> client_result \<times> bool" where
  "client_GetChildren pb p request w context cb c =
     (if client_GetRoot (gcq_path request) \<noteq> cl_root c then ((c, []), False)
      else (let c = c\<lparr>message_id := message_id c + 1\<rparr>;
                message = new_message MT_GETCHILDREN (ser_GetChildrenRequest pb request) c;
                c = c\<lparr>children_queue := children_queue c @ [new_request (gcq_path request) w context cb c]\<rparr>
            in (TrySendInLoop p message c, True)))"

section \<open>The connection\<close>

definition set_state :: "SessionState \<Rightarrow> SaberClient \<Rightarrow> client_result" where
  "set_state st c = (if cl_state c \<noteq> st then TriggerState (c\<lparr>cl_state := st\<rparr>) else (c, []))"

definition client_OnConnection :: "pb_codec \<Rightarrow> conn_ptr \<Rightarrow> SaberClient \<Rightarrow> client_result" where
  "client_OnConnection pb p c =
     (let message = \<lparr>sm_type = MT_CONNECT, sm_id = message_id c,
                     sm_data = ser_ConnectRequest pb \<lparr>cnq_session_id = session_id c, cnq_version = 0\<rparr>,
                     sm_extra_data = cl_root c\<rparr>;
          (c, out) = set_state SS_CONNECTING (c\<lparr>message_id := message_id c + 1\<rparr>)
      in (c, ClientSend p message # out))"

definition longer_retry :: "u64 \<Rightarrow> u64" where
  "longer_retry t = (let t = t * 2 in if t < kMaxRetryTime then t else kMaxRetryTime)"

definition OnFailue :: "SaberClient \<Rightarrow> client_result" where
  "OnFailue c =
     (let (c, out) = set_state SS_DISCONNECTED (c\<lparr>can_send := False, master_addr := Master_default\<rparr>);
          c = c\<lparr>retry_time := longer_retry (retry_time c)\<rparr>
      in (c, out @ [StopRetry, RetryAfter (retry_time c)]))"

definition client_OnClose :: "SaberClient \<Rightarrow> client_result" where
  "client_OnClose c =
     (let (c, out) = set_state SS_DISCONNECTED (c\<lparr>can_send := False\<rparr>)
      in if ms_host (master_addr c) = []
         then (let c = c\<lparr>retry_time := longer_retry (retry_time c)\<rparr>
               in (c, [StopPing, StopRetry] @ out @ [RetryAfter (retry_time c)]))
         else (c, [StopPing, StopRetry] @ out @
                 client_Connect_addr (SockAddr (ms_host (master_addr c)) (ucast (ms_port (master_addr c)))) c))"

text \<open>The callback of a closed connection holds the client weakly.\<close>

definition client_WeakCallback :: "SaberClient option \<Rightarrow> client_result option" where
  "client_WeakCallback client_wp = map_option client_OnClose client_wp"

definition client_OnTimer :: "conn_ptr \<Rightarrow> client_effect list" where
  "client_OnTimer p = [ClientSend p (SaberMessage_default\<lparr>sm_type := MT_PING\<rparr>)]"

definition client_OnError :: "nat \<Rightarrow> bool \<Rightarrow> client_effect list" where
  "client_OnError p parse_error = (if parse_error then [TcpForceClose p] else [])"

definition ping_interval :: "u64 \<Rightarrow> u64" where
  "ping_interval timeout = (if timeout < 12000 then timeout * 4 div 5 else timeout - 3000)"

definition client_OnConnect :: "pb_codec \<Rightarrow> conn_ptr \<Rightarrow> SaberMessage \<Rightarrow> SaberClient \<Rightarrow> client_result" where
  "client_OnConnect pb p message c =
     (let response = parse_ConnectResponse pb (sm_data message);
          (c, out) =
            (if cnr_code response = RC_OK \<or> cnr_code response = RC_RECONNECT
             then
               (let c = c\<lparr>retry_time := 50\<rparr>;
                    (c, out1) = (if session_id c \<noteq> 0 \<and> session_id c \<noteq> cnr_session_id response
                                 then TriggerState (c\<lparr>cl_state := SS_EXPIRED\<rparr>) else (c, []));
                    (c, out2) = TriggerState (c\<lparr>cl_state := SS_CONNECTED\<rparr>)
                in (c\<lparr>can_send := True\<rparr>,
                    out1 @ out2 @ map (ClientSend p) (outgoing_queue c) @ [PingEvery (ping_interval (cnr_timeout response))]))
             else
               (let (c, out1) = (if session_id c \<noteq> 0 then TriggerState (c\<lparr>cl_state := SS_EXPIRED\<rparr>) else (c, []));
                    (c, out2) = client_OnConnection pb p (c\<lparr>session_id := 0\<rparr>)
                in (c, out1 @ out2)))
      in (c\<lparr>session_id := cnr_session_id response\<rparr>, out))"

section \<open>Replies\<close>

text \<open>
  The loop that all six handlers of replies have: requests with smaller numbers than the reply are taken
  from the queue and answered \<^verbatim>\<open>RC_UNKNOWN\<close>; the next one is taken from the queue whatever its number, and is
  answered if the numbers are equal.
\<close>

fun match_request :: "u32 \<Rightarrow> SaberRequest list \<Rightarrow> SaberRequest list \<times> SaberRequest option \<times> SaberRequest list" where
  "match_request i [] = ([], None, [])"
| "match_request i (r # q) =
     (if rq_id r < i then (let (skipped, found, rest) = match_request i q in (r # skipped, found, rest))
      else ([], if rq_id r = i then Some r else None, q))"

definition OnNotification :: "pb_codec \<Rightarrow> SaberMessage \<Rightarrow> SaberClient \<Rightarrow> client_result" where
  "OnNotification pb message c =
     (let (wm, ns) = client_TriggerWatcher (parse_WatchedEvent pb (sm_data message)) (watch_manager c)
      in (c\<lparr>watch_manager := wm\<rparr>, map (\<lambda>(w, e). Notify w e) ns))"

definition OnCreate :: "pb_codec \<Rightarrow> SaberMessage \<Rightarrow> SaberClient \<Rightarrow> client_result \<times> bool" where
  "OnCreate pb message c =
     (let (skipped, found, rest) = match_request (sm_id message) (create_queue c);
          out = map (\<lambda>r. CreateCb r (CreateResponse_default\<lparr>crr_code := RC_UNKNOWN\<rparr>)) skipped;
          c = c\<lparr>create_queue := rest\<rparr>
      in case found of
           None \<Rightarrow> ((c, out), False)
         | Some r \<Rightarrow> ((c, out @ [CreateCb r (parse_CreateResponse pb (sm_data message))]), True))"

definition OnDelete :: "pb_codec \<Rightarrow> SaberMessage \<Rightarrow> SaberClient \<Rightarrow> client_result \<times> bool" where
  "OnDelete pb message c =
     (let (skipped, found, rest) = match_request (sm_id message) (delete_queue c);
          out = map (\<lambda>r. DeleteCb r (DeleteResponse_default\<lparr>dlr_code := RC_UNKNOWN\<rparr>)) skipped;
          c = c\<lparr>delete_queue := rest\<rparr>
      in case found of
           None \<Rightarrow> ((c, out), False)
         | Some r \<Rightarrow> ((c, out @ [DeleteCb r (parse_DeleteResponse pb (sm_data message))]), True))"

definition add_watch ::
    "(string \<Rightarrow> watcher \<Rightarrow> ClientWatchManager \<Rightarrow> ClientWatchManager) \<Rightarrow> bool \<Rightarrow> SaberRequest \<Rightarrow> SaberClient \<Rightarrow> SaberClient" where
  "add_watch add b r c =
     (case rq_watcher r of
        Some w \<Rightarrow> if b then c\<lparr>watch_manager := add (rq_path r) w (watch_manager c)\<rparr> else c
      | None \<Rightarrow> c)"

definition OnExists :: "pb_codec \<Rightarrow> SaberMessage \<Rightarrow> SaberClient \<Rightarrow> client_result \<times> bool" where
  "OnExists pb message c =
     (let (skipped, found, rest) = match_request (sm_id message) (exists_queue c);
          out = map (\<lambda>r. ExistsCb r (ExistsResponse_default\<lparr>exr_code := RC_UNKNOWN\<rparr>)) skipped;
          c = c\<lparr>exists_queue := rest\<rparr>
      in case found of
           None \<Rightarrow> ((c, out), False)
         | Some r \<Rightarrow>
             (let response = parse_ExistsResponse pb (sm_data message)
              in ((add_watch AddDataWatcher (exr_code response = RC_OK \<or> exr_code response = RC_NO_NODE) r c,
                   out @ [ExistsCb r response]), True)))"

definition OnGetData :: "pb_codec \<Rightarrow> SaberMessage \<Rightarrow> SaberClient \<Rightarrow> client_result \<times> bool" where
  "OnGetData pb message c =
     (let (skipped, found, rest) = match_request (sm_id message) (get_data_queue c);
          out = map (\<lambda>r. GetDataCb r (GetDataResponse_default\<lparr>gdr_code := RC_UNKNOWN\<rparr>)) skipped;
          c = c\<lparr>get_data_queue := rest\<rparr>
      in case found of
           None \<Rightarrow> ((c, out), False)
         | Some r \<Rightarrow>
             (let response = parse_GetDataResponse pb (sm_data message)
              in ((add_watch AddDataWatcher (gdr_code response = RC_OK) r c, out @ [GetDataCb r response]), True)))"

definition OnSetData :: "pb_codec \<Rightarrow> SaberMessage \<Rightarrow> SaberClient \<Rightarrow> client_result \<times> bool" where
  "OnSetData pb message c =
     (let (skipped, found, rest) = match_request (sm_id message) (set_data_queue c);
          out = map (\<lambda>r. SetDataCb r (SetDataResponse_default\<lparr>sdr_code := RC_UNKNOWN\<rparr>)) skipped;
          c = c\<lparr>set_data_queue := rest\<rparr>
      in case found of
           None \<Rightarrow> ((c, out), False)
         | Some r \<Rightarrow> ((c, out @ [SetDataCb r (parse_SetDataResponse pb (sm_data message))]), True))"

definition OnGetChildren :: "pb_codec \<Rightarrow> SaberMessage \<Rightarrow> SaberClient \<Rightarrow> client_result \<times> bool" where
  "OnGetChildren pb message c =
     (let (skipped, found, rest) = match_request (sm_id message) (children_queue c);
          out = map (\<lambda>r. GetChildrenCb r (GetChildrenResponse_default\<lparr>gcr_code := RC_UNKNOWN\<rparr>)) skipped;
          c = c\<lparr>children_queue := rest\<rparr>
      in case found of
           None \<Rightarrow> ((c, out), False)
         | Some r \<Rightarrow>
             (let response = parse_GetChildrenResponse pb (sm_data message)
              in ((add_watch AddChildWatcher (gcr_code response = RC_OK) r c, out @ [GetChildrenCb r response]), True)))"

definition pop_outgoing :: "u32 \<Rightarrow> SaberMessage list \<Rightarrow> SaberMessage list" where
  "pop_outgoing i q = dropWhile (\<lambda>m. sm_id m \<le> i) q"

definition answered :: "u32 \<Rightarrow> client_result \<times> bool \<Rightarrow> client_result" where
  "answered i res = (let ((c, out), result) = res in (c\<lparr>outgoing_queue := pop_outgoing i (outgoing_queue c)\<rparr>, out))"

definition client_OnMessage ::
    "pb_codec \<Rightarrow> (string \<Rightarrow> string list) \<Rightarrow> (SockAddr list \<Rightarrow> SockAddr list) \<Rightarrow> conn_ptr \<Rightarrow> SaberMessage \<Rightarrow> SaberClient \<Rightarrow>
     client_result \<times> bool" where
  "client_OnMessage pb split shuffle p message c =
     ((case sm_type message of
         MT_NOTIFICATION \<Rightarrow> OnNotification pb message c
       | MT_CREATE \<Rightarrow> answered (sm_id message) (OnCreate pb message c)
       | MT_DELETE \<Rightarrow> answered (sm_id message) (OnDelete pb message c)
       | MT_EXISTS \<Rightarrow> answered (sm_id message) (OnExists pb message c)
       | MT_GETDATA \<Rightarrow> answered (sm_id message) (OnGetData pb message c)
       | MT_SETDATA \<Rightarrow> answered (sm_id message) (OnSetData pb message c)
       | MT_GETCHILDREN \<Rightarrow> answered (sm_id message) (OnGetChildren pb message c)
       | MT_MASTER \<Rightarrow> (c\<lparr>master_addr := parse_Master pb (sm_data message)\<rparr>, [TcpClose])
       | MT_CONNECT \<Rightarrow> client_OnConnect pb p message c
       | MT_SERVERS \<Rightarrow> (c\<lparr>server_manager := UpdateServers split shuffle (sm_data message) (server_manager c)\<rparr>, [])
       | _ \<Rightarrow> (c, [])),
      sm_type message \<noteq> MT_MASTER)"

section \<open>The facade\<close>

record Saber =
  connect_flag :: bool
  saber_client :: SaberClient

definition Saber_new :: "string \<Rightarrow> ServerManagerImpl \<Rightarrow> watcher option \<Rightarrow> Saber" where
  "Saber_new root sm w = \<lparr>connect_flag = False, saber_client = SaberClient_new root sm w\<rparr>"

definition Saber_Connect :: "Saber \<Rightarrow> Saber \<times> client_effect list" where
  "Saber_Connect s =
     (if connect_flag s then (s, [])
      else (let (c, out) = client_Connect (saber_client s) in (\<lparr>connect_flag = True, saber_client = c\<rparr>, out)))"

definition Saber_Close :: "conn_ptr \<Rightarrow> Saber \<Rightarrow> Saber \<times> client_effect list" where
  "Saber_Close p s =
     (if connect_flag s
      then (let (c, out) = client_Close p (saber_client s) in (\<lparr>connect_flag = False, saber_client = c\<rparr>, out))
      else (s, []))"

definition Saber_forward :: "(SaberClient \<Rightarrow> client_result \<times> bool) \<Rightarrow> Saber \<Rightarrow> (Saber \<times> client_effect list) \<times> bool" where
  "Saber_forward f s = (let ((c, out), b) = f (saber_client s) in ((s\<lparr>saber_client := c\<rparr>, out), b))"

definition Saber_destroy :: "conn_ptr \<Rightarrow> Saber \<Rightarrow> client_effect list" where
  "Saber_destroy p s = (if connect_flag s then snd (client_Close p (saber_client s)) else [])"

end
