(* ===== verification/SaberClient_Props.thy ===== *)
theory SaberClient_Props
  imports SaberClient
begin

text \<open>
  The queues of a client: the numbers of its requests grow, every request waits in the queue of its kind and
  in \<open>outgoing_queue\<close>, and the connection events change neither.
\<close>

section \<open>Uniform views of the six kinds of requests\<close>

definition is_request :: "MessageType \<Rightarrow> bool" where
  "is_request ty \<longleftrightarrow> ty \<in> {MT_CREATE, MT_DELETE, MT_EXISTS, MT_GETDATA, MT_SETDATA, MT_GETCHILDREN}"

fun queue_of :: "MessageType \<Rightarrow> SaberClient \<Rightarrow> SaberRequest list" where
  "queue_of MT_CREATE c = create_queue c"
| "queue_of MT_DELETE c = delete_queue c"
| "queue_of MT_EXISTS c = exists_queue c"
| "queue_of MT_GETDATA c = get_data_queue c"
| "queue_of MT_SETDATA c = set_data_queue c"
| "queue_of MT_GETCHILDREN c = children_queue c"
| "queue_of _ c = []"

fun reply_code :: "pb_codec \<Rightarrow> MessageType \<Rightarrow> bytes \<Rightarrow> ResponseCode" where
  "reply_code pb MT_CREATE d = crr_code (parse_CreateResponse pb d)"
| "reply_code pb MT_DELETE d = dlr_code (parse_DeleteResponse pb d)"
| "reply_code pb MT_EXISTS d = exr_code (parse_ExistsResponse pb d)"
| "reply_code pb MT_GETDATA d = gdr_code (parse_GetDataResponse pb d)"
| "reply_code pb MT_SETDATA d = sdr_code (parse_SetDataResponse pb d)"
| "reply_code pb MT_GETCHILDREN d = gcr_code (parse_GetChildrenResponse pb d)"
| "reply_code pb _ d = RC_UNKNOWN"

fun callbacks :: "client_effect list \<Rightarrow> (SaberRequest \<times> ResponseCode) list" where
  "callbacks [] = []"
| "callbacks (CreateCb r x # out) = (r, crr_code x) # callbacks out"
| "callbacks (DeleteCb r x # out) = (r, dlr_code x) # callbacks out"
| "callbacks (ExistsCb r x # out) = (r, exr_code x) # callbacks out"
| "callbacks (GetDataCb r x # out) = (r, gdr_code x) # callbacks out"
| "callbacks (SetDataCb r x # out) = (r, sdr_code x) # callbacks out"
| "callbacks (GetChildrenCb r x # out) = (r, gcr_code x) # callbacks out"
| "callbacks (_ # out) = callbacks out"

fun sent :: "client_effect list \<Rightarrow> SaberMessage list" where
  "sent [] = []"
| "sent (ClientSend p m # out) = m # sent out"
| "sent (_ # out) = sent out"

lemma callbacks_append [simp]: "callbacks (out @ out') = callbacks out @ callbacks out'"
  by (induction out rule: callbacks.induct) simp_all

lemma sent_append [simp]: "sent (out @ out') = sent out @ sent out'"
  by (induction out rule: sent.induct) simp_all

lemma sent_map [simp]: "sent (map (ClientSend p) ms) = ms"
  by (induction ms) simp_all

lemma notify_quiet [simp]:
  "sent (map (\<lambda>(w, e). Notify w e) ns) = []" "callbacks (map (\<lambda>(w, e). Notify w e) ns) = []"
  by (induction ns) auto

lemma callbacks_map [simp]:
  "callbacks (map (\<lambda>r. CreateCb r x1) rs) = map (\<lambda>r. (r, crr_code x1)) rs"
  "callbacks (map (\<lambda>r. DeleteCb r x2) rs) = map (\<lambda>r. (r, dlr_code x2)) rs"
  "callbacks (map (\<lambda>r. ExistsCb r x3) rs) = map (\<lambda>r. (r, exr_code x3)) rs"
  "callbacks (map (\<lambda>r. GetDataCb r x4) rs) = map (\<lambda>r. (r, gdr_code x4)) rs"
  "callbacks (map (\<lambda>r. SetDataCb r x5) rs) = map (\<lambda>r. (r, sdr_code x5)) rs"
  "callbacks (map (\<lambda>r. GetChildrenCb r x6) rs) = map (\<lambda>r. (r, gcr_code x6)) rs"
  by (induction rs) simp_all

section \<open>Replies\<close>

lemmas reply_defs = OnCreate_def OnDelete_def OnExists_def OnGetData_def OnSetData_def OnGetChildren_def

lemma add_watch_frame [simp]:
  "queue_of ty (add_watch add b r c) = queue_of ty c" "outgoing_queue (add_watch add b r c) = outgoing_queue c"
  "message_id (add_watch add b r c) = message_id c" "retry_time (add_watch add b r c) = retry_time c"
  by (cases ty; simp add: add_watch_def split: option.split)+

text \<open>The effect of a reply on the queues, for every kind of request.\<close>

lemma client_reply:
  assumes ty: "is_request (sm_type m)"
    and M: "match_request (sm_id m) (queue_of (sm_type m) c) = (skipped, found, rest)"
    and E: "client_OnMessage pb split shuffle p m c = ((c', out), b)"
  shows "callbacks out = map (\<lambda>r. (r, RC_UNKNOWN)) skipped @
      (case found of None \<Rightarrow> [] | Some r \<Rightarrow> [(r, reply_code pb (sm_type m) (sm_data m))])"
    and "queue_of ty c' = (if ty = sm_type m then rest else queue_of ty c)"
    and "outgoing_queue c' = pop_outgoing (sm_id m) (outgoing_queue c)" and "sent out = []" and "b"
proof -
  have k: "sm_type m = MT_CREATE \<or> sm_type m = MT_DELETE \<or> sm_type m = MT_EXISTS \<or> sm_type m = MT_GETDATA \<or>
      sm_type m = MT_SETDATA \<or> sm_type m = MT_GETCHILDREN" using ty by (auto simp: is_request_def)
  have sk: "sent (map (\<lambda>r. CreateCb r x1) rs) = []" "sent (map (\<lambda>r. DeleteCb r x2) rs) = []" "sent (map (\<lambda>r. ExistsCb r x3) rs) = []"
    "sent (map (\<lambda>r. GetDataCb r x4) rs) = []" "sent (map (\<lambda>r. SetDataCb r x5) rs) = []" "sent (map (\<lambda>r. GetChildrenCb r x6) rs) = []"
    for x1 x2 x3 x4 x5 x6 rs by (induction rs) simp_all
  show "callbacks out = map (\<lambda>r. (r, RC_UNKNOWN)) skipped @
      (case found of None \<Rightarrow> [] | Some r \<Rightarrow> [(r, reply_code pb (sm_type m) (sm_data m))])"
    using k M E by (elim disjE) (auto simp: client_OnMessage_def reply_defs answered_def Let_def split: option.splits)
  show "queue_of ty c' = (if ty = sm_type m then rest else queue_of ty c)"
    using k M E by (elim disjE; cases ty)
      (auto simp: client_OnMessage_def reply_defs answered_def add_watch_def Let_def split: option.splits)
  show "outgoing_queue c' = pop_outgoing (sm_id m) (outgoing_queue c)" "sent out = []" "b"
    using k M E sk by (elim disjE; auto simp: client_OnMessage_def reply_defs answered_def Let_def split: option.splits)+
qed

text \<open>The callback of a request with its response, and the watch that the reply leaves.\<close>

fun reply_cb :: "pb_codec \<Rightarrow> MessageType \<Rightarrow> bytes \<Rightarrow> SaberRequest \<Rightarrow> client_effect list" where
  "reply_cb pb MT_CREATE d r = [CreateCb r (parse_CreateResponse pb d)]"
| "reply_cb pb MT_DELETE d r = [DeleteCb r (parse_DeleteResponse pb d)]"
| "reply_cb pb MT_EXISTS d r = [ExistsCb r (parse_ExistsResponse pb d)]"
| "reply_cb pb MT_GETDATA d r = [GetDataCb r (parse_GetDataResponse pb d)]"
| "reply_cb pb MT_SETDATA d r = [SetDataCb r (parse_SetDataResponse pb d)]"
| "reply_cb pb MT_GETCHILDREN d r = [GetChildrenCb r (parse_GetChildrenResponse pb d)]"
| "reply_cb pb _ d r = []"

definition reply_watch :: "pb_codec \<Rightarrow> MessageType \<Rightarrow> bytes \<Rightarrow> SaberRequest \<Rightarrow> ClientWatchManager \<Rightarrow> ClientWatchManager" where
  "reply_watch pb ty d r wm =
     (case rq_watcher r of
        None \<Rightarrow> wm
      | Some w \<Rightarrow>
          if reply_code pb ty d = RC_OK \<and> ty \<in> {MT_EXISTS, MT_GETDATA} \<or> reply_code pb ty d = RC_NO_NODE \<and> ty = MT_EXISTS
          then AddDataWatcher (rq_path r) w wm
          else if reply_code pb ty d = RC_OK \<and> ty = MT_GETCHILDREN then AddChildWatcher (rq_path r) w wm
          else wm)"

lemma client_reply_front:
  assumes ty: "is_request (sm_type m)" and q: "queue_of (sm_type m) c = r # later" "rq_id r = sm_id m"
    and E: "client_OnMessage pb split shuffle p m c = ((c', out), b)"
  shows "out = reply_cb pb (sm_type m) (sm_data m) r"
    and "watch_manager c' = reply_watch pb (sm_type m) (sm_data m) r (watch_manager c)"
proof -
  have k: "sm_type m = MT_CREATE \<or> sm_type m = MT_DELETE \<or> sm_type m = MT_EXISTS \<or> sm_type m = MT_GETDATA \<or>
      sm_type m = MT_SETDATA \<or> sm_type m = MT_GETCHILDREN" using ty by (auto simp: is_request_def)
  have M: "match_request (sm_id m) (r # later) = ([], Some r, later)" using q(2) by simp
  show "out = reply_cb pb (sm_type m) (sm_data m) r"
    using k M E q by (elim disjE) (auto simp: client_OnMessage_def reply_defs answered_def Let_def)
  show "watch_manager c' = reply_watch pb (sm_type m) (sm_data m) r (watch_manager c)"
    using k M E q by (elim disjE)
      (auto simp: client_OnMessage_def reply_defs answered_def add_watch_def reply_watch_def Let_def split: option.splits)
qed

lemma match_request_found:
  assumes "\<forall>b \<in> set before. rq_id b < i" and "rq_id r = i"
  shows "match_request i (before @ r # later) = (before, Some r, later)"
  using assms by (induction before) simp_all

lemma match_request_stale: "i < rq_id r \<Longrightarrow> match_request i (r # later) = ([], None, later)"
  by (simp add: not_less_iff_gr_or_eq [of "rq_id r"]) (metis less_asym)

section \<open>Connection events and requests\<close>

datatype client_op =
    OpCreate CreateRequest nat nat
  | OpDelete DeleteRequest nat nat
  | OpExists ExistsRequest "watcher option" nat nat
  | OpGetData GetDataRequest "watcher option" nat nat
  | OpSetData SetDataRequest nat nat
  | OpGetChildren GetChildrenRequest "watcher option" nat nat
  | OpConnection
  | OpFailure
  | OpClosed
  | OpRetry
  | OpPing

fun do_client_op :: "pb_codec \<Rightarrow> conn_ptr \<Rightarrow> client_op \<Rightarrow> SaberClient \<Rightarrow> client_result" where
  "do_client_op pb p (OpCreate r x cb) c = fst (client_Create pb p r x cb c)"
| "do_client_op pb p (OpDelete r x cb) c = fst (client_Delete pb p r x cb c)"
| "do_client_op pb p (OpExists r w x cb) c = fst (client_Exists pb p r w x cb c)"
| "do_client_op pb p (OpGetData r w x cb) c = fst (client_GetData pb p r w x cb c)"
| "do_client_op pb p (OpSetData r x cb) c = fst (client_SetData pb p r x cb c)"
| "do_client_op pb p (OpGetChildren r w x cb) c = fst (client_GetChildren pb p r w x cb c)"
| "do_client_op pb p OpConnection c = client_OnConnection pb p c"
| "do_client_op pb p OpFailure c = OnFailue c"
| "do_client_op pb p OpClosed c = client_OnClose c"
| "do_client_op pb p OpRetry c = connect_next c"
| "do_client_op pb p OpPing c = (c, client_OnTimer p)"

text \<open>The message that an operation adds to the queue: that of a request for the root of the client.\<close>

fun op_request :: "pb_codec \<Rightarrow> client_op \<Rightarrow> (MessageType \<times> string \<times> bytes) option" where
  "op_request pb (OpCreate r x cb) = Some (MT_CREATE, crq_path r, ser_CreateRequest pb r)"
| "op_request pb (OpDelete r x cb) = Some (MT_DELETE, dlq_path r, ser_DeleteRequest pb r)"
| "op_request pb (OpExists r w x cb) = Some (MT_EXISTS, exq_path r, ser_ExistsRequest pb r)"
| "op_request pb (OpGetData r w x cb) = Some (MT_GETDATA, gdq_path r, ser_GetDataRequest pb r)"
| "op_request pb (OpSetData r x cb) = Some (MT_SETDATA, sdq_path r, ser_SetDataRequest pb r)"
| "op_request pb (OpGetChildren r w x cb) = Some (MT_GETCHILDREN, gcq_path r, ser_GetChildrenRequest pb r)"
| "op_request pb _ = None"

definition op_message :: "pb_codec \<Rightarrow> client_op \<Rightarrow> SaberClient \<Rightarrow> SaberMessage list" where
  "op_message pb op c =
     (case op_request pb op of
        Some (ty, path, data) \<Rightarrow>
          if client_GetRoot path = cl_root c
          then [\<lparr>sm_type = ty, sm_id = message_id c + 1, sm_data = data, sm_extra_data = []\<rparr>] else []
      | None \<Rightarrow> [])"

fun run_client :: "pb_codec \<Rightarrow> (conn_ptr \<times> client_op) list \<Rightarrow> SaberClient \<Rightarrow> SaberClient \<times> SaberMessage list" where
  "run_client pb [] c = (c, [])"
| "run_client pb ((p, op) # ops) c =
     (let (c', ms) = run_client pb ops (fst (do_client_op pb p op c)) in (c', op_message pb op c @ ms))"

lemma queue_of_cong:
  "create_queue c' = create_queue c \<Longrightarrow> delete_queue c' = delete_queue c \<Longrightarrow> exists_queue c' = exists_queue c \<Longrightarrow>
   get_data_queue c' = get_data_queue c \<Longrightarrow> set_data_queue c' = set_data_queue c \<Longrightarrow> children_queue c' = children_queue c \<Longrightarrow>
   queue_of ty c' = queue_of ty c"
  by (cases ty) simp_all

lemma TriggerState_frame [simp]:
  "outgoing_queue (fst (TriggerState c)) = outgoing_queue c"
  "cl_root (fst (TriggerState c)) = cl_root c" "message_id (fst (TriggerState c)) = message_id c"
  "retry_time (fst (TriggerState c)) = retry_time c" "can_send (fst (TriggerState c)) = can_send c"
  "session_id (fst (TriggerState c)) = session_id c" "sent (snd (TriggerState c)) = []" "callbacks (snd (TriggerState c)) = []"
  by (simp_all add: TriggerState_def Let_def case_prod_beta)

lemma TriggerState_queue [simp]: "queue_of ty (fst (TriggerState c)) = queue_of ty c"
  by (rule queue_of_cong) (simp_all add: TriggerState_def Let_def case_prod_beta)

lemma set_state_frame [simp]:
  "outgoing_queue (fst (set_state st c)) = outgoing_queue c"
  "cl_root (fst (set_state st c)) = cl_root c" "message_id (fst (set_state st c)) = message_id c"
  "retry_time (fst (set_state st c)) = retry_time c" "can_send (fst (set_state st c)) = can_send c"
  "session_id (fst (set_state st c)) = session_id c" "sent (snd (set_state st c)) = []" "callbacks (snd (set_state st c)) = []"
  by (simp_all add: set_state_def)

lemma set_state_queue [simp]: "queue_of ty (fst (set_state st c)) = queue_of ty c"
  by (rule queue_of_cong) (simp_all add: set_state_def TriggerState_def Let_def case_prod_beta)

lemma queue_frames:
  "create_queue (fst (TriggerState c)) = create_queue c" "delete_queue (fst (TriggerState c)) = delete_queue c"
  "exists_queue (fst (TriggerState c)) = exists_queue c" "get_data_queue (fst (TriggerState c)) = get_data_queue c"
  "set_data_queue (fst (TriggerState c)) = set_data_queue c" "children_queue (fst (TriggerState c)) = children_queue c"
  "create_queue (fst (set_state st c)) = create_queue c" "delete_queue (fst (set_state st c)) = delete_queue c"
  "exists_queue (fst (set_state st c)) = exists_queue c" "get_data_queue (fst (set_state st c)) = get_data_queue c"
  "set_data_queue (fst (set_state st c)) = set_data_queue c" "children_queue (fst (set_state st c)) = children_queue c"
  by (simp_all add: set_state_def TriggerState_def Let_def case_prod_beta)

lemmas request_defs = client_Create_def client_Delete_def client_Exists_def client_GetData_def client_SetData_def
  client_GetChildren_def

lemmas connection_defs = client_OnConnection_def OnFailue_def client_OnClose_def connect_next_def

lemma do_client_op_queue:
  "outgoing_queue (fst (do_client_op pb p op c)) = outgoing_queue c @ op_message pb op c"
  by (cases op) (simp_all add: request_defs connection_defs op_message_def TrySendInLoop_def new_message_def Let_def
      case_prod_beta split: option.split)

lemma run_client_queue: "run_client pb ops c = (c', ms) \<Longrightarrow> outgoing_queue c' = outgoing_queue c @ ms"
proof (induction ops arbitrary: c c' ms)
  case (Cons x ops)
  obtain p op where x: "x = (p, op)" by (cases x)
  obtain c1 ms1 where R: "run_client pb ops (fst (do_client_op pb p op c)) = (c1, ms1)"
    by (cases "run_client pb ops (fst (do_client_op pb p op c))") auto
  then show ?case using Cons.IH [OF R] Cons.prems by (simp add: x do_client_op_queue)
qed simp

end
