(* ===== verification/SaberClient_Claims.thy ===== *)
theory SaberClient_Claims
  imports SaberClient_Props
begin

text \<open>
  The properties of the client: replies find their requests, nothing that waits is lost by a reconnect, and
  what a reply that comes twice does.
\<close>

section \<open>The example client\<close>

definition ex_client0 :: SaberClient where
  "ex_client0 = (SaberClient_new ''/a'' (ServerManagerImpl_new\<lparr>servers := [SockAddr ''h'' 1]\<rparr>) None)\<lparr>has_started := True\<rparr>"

definition ex_ops :: "(conn_ptr \<times> client_op) list" where
  "ex_ops = [(None, OpCreate \<lparr>crq_node_type = NT_PERSISTENT, crq_path = ''/a/x'', crq_data = []\<rparr> 0 7),
     (None, OpFailure), (None, OpRetry), (None, OpGetData \<lparr>gdq_path = ''/a/x'', gdq_watch = True\<rparr> (Some 3) 0 8),
     (None, OpCreate \<lparr>crq_node_type = NT_PERSISTENT, crq_path = ''/a/y'', crq_data = []\<rparr> 0 9),
     (None, OpCreate \<lparr>crq_node_type = NT_PERSISTENT, crq_path = ''/b/z'', crq_data = []\<rparr> 0 9),
     (Some 5, OpConnection)]"

definition ex_client1 :: SaberClient where
  "ex_client1 = fst (run_client blank_codec ex_ops ex_client0)"

definition ex_reply :: "MessageType \<Rightarrow> u32 \<Rightarrow> SaberMessage" where
  "ex_reply ty i = \<lparr>sm_type = ty, sm_id = i, sm_data = [], sm_extra_data = []\<rparr>"

section \<open>Replies\<close>

text \<open>C33: a reply to the request that waits longest among its kind, which is also the first message that has to be sent
  again (what the assertions of the handlers require), completes exactly this request: its callback, and no
  other, is called with the response in the reply; the watch of the request is kept if and only if the response
  allows it, under the path of the request and in the table of its kind; the request and its message leave their
  queues, and every other queue stays as it is.\<close>

theorem client_reply_completes_request:
  assumes ty: "is_request (sm_type m)" and q: "queue_of (sm_type m) c = r # later" "rq_id r = sm_id m"
    and o: "outgoing_queue c = x # rest" "sm_id x = sm_id m" "\<forall>y \<in> set rest. sm_id m < sm_id y"
    and E: "client_OnMessage pb split shuffle p m c = ((c', out), b)"
  shows "out = reply_cb pb (sm_type m) (sm_data m) r \<and>
    watch_manager c' = reply_watch pb (sm_type m) (sm_data m) r (watch_manager c) \<and>
    queue_of (sm_type m) c' = later \<and> (\<forall>t. t \<noteq> sm_type m \<longrightarrow> queue_of t c' = queue_of t c) \<and> outgoing_queue c' = rest \<and> b"
proof -
  have M: "match_request (sm_id m) (queue_of (sm_type m) c) = ([], Some r, later)" using q by simp
  note cr = client_reply [OF ty M E] and cf = client_reply_front [OF ty q E]
  have "pop_outgoing (sm_id m) (x # rest) = rest"
    using o(2,3) by (cases rest) (auto simp: pop_outgoing_def)
  then show ?thesis using cr(2) [of "sm_type m"] cr(2,3,5) cf o(1) by simp
qed

theorem client_reply_completes_request_witness:
  "\<exists>r. client_OnMessage blank_codec (\<lambda>s. [s]) id (Some 5) (ex_reply MT_GETDATA 2)
      (ex_client1\<lparr>create_queue := tl (create_queue ex_client1), outgoing_queue := tl (outgoing_queue ex_client1)\<rparr>) =
    ((ex_client1\<lparr>create_queue := tl (create_queue ex_client1), get_data_queue := [], outgoing_queue := tl (tl (outgoing_queue ex_client1)),
        watch_manager := AddDataWatcher ''/a/x'' 3 (watch_manager ex_client1)\<rparr>, [GetDataCb r (parse_GetDataResponse blank_codec [])]), True) \<and>
    rq_callback r = 8"
proof -
  let ?m = "ex_reply MT_GETDATA 2"
  let ?c = "ex_client1\<lparr>create_queue := tl (create_queue ex_client1), outgoing_queue := tl (outgoing_queue ex_client1)\<rparr>"
  let ?r = "hd (get_data_queue ex_client1)" and ?o = "outgoing_queue ex_client1"
  have q: "get_data_queue ex_client1 = [?r]" "rq_id ?r = 2" "rq_callback ?r = 8" "rq_watcher ?r = Some 3" "rq_path ?r = ''/a/x''"
    and o: "tl ?o = [?o ! 1, ?o ! 2]" "sm_id (?o ! 1) = 2" "sm_id (?o ! 2) = 3" by code_simp+
  obtain c' out b where E: "client_OnMessage blank_codec (\<lambda>s. [s]) id (Some 5) ?m ?c = ((c', out), b)" by (metis prod.collapse)
  have t: "sm_type ?m = MT_GETDATA" "sm_id ?m = 2" "sm_data ?m = []" by (simp_all add: ex_reply_def)
  have "gdr_code (parse_GetDataResponse blank_codec []) = RC_OK" by code_simp
  then have w: "reply_watch blank_codec MT_GETDATA [] ?r (watch_manager ?c) = AddDataWatcher ''/a/x'' 3 (watch_manager ex_client1)"
    using q by (simp add: reply_watch_def)
  have "out = [GetDataCb ?r (parse_GetDataResponse blank_codec [])] \<and> watch_manager c' = AddDataWatcher ''/a/x'' 3 (watch_manager ex_client1) \<and>
      get_data_queue c' = [] \<and> outgoing_queue c' = tl (tl ?o) \<and> b"
    using client_reply_completes_request [OF _ _ _ _ _ _ E, of ?r "[]" "?o ! 1" "[?o ! 2]"] q o w by (simp add: t is_request_def)
  moreover have "c' = ?c\<lparr>get_data_queue := get_data_queue c', watch_manager := watch_manager c', outgoing_queue := outgoing_queue c'\<rparr>"
    using E by (auto simp: client_OnMessage_def t OnGetData_def answered_def add_watch_def Let_def case_prod_beta split: option.splits)
  ultimately show ?thesis using E q(3) by (intro exI [of _ ?r]) simp
qed

text \<open>What the release build does with a reply that skips requests, which the assertions rule out: the requests of its
  kind that were issued before are called back with \<^verbatim>\<open>RC_UNKNOWN\<close>, in order, and their messages are no longer
  sent again.\<close>

lemma skipped_requests_unknown:
  assumes ty: "is_request (sm_type m)" and q: "queue_of (sm_type m) c = before @ r # later"
    and before: "\<forall>x \<in> set before. rq_id x < sm_id m" and r: "rq_id r = sm_id m"
    and E: "client_OnMessage pb split shuffle p m c = ((c', out), b)"
  shows "callbacks out = map (\<lambda>r. (r, RC_UNKNOWN)) before @ [(r, reply_code pb (sm_type m) (sm_data m))] \<and>
    queue_of (sm_type m) c' = later \<and> outgoing_queue c' = dropWhile (\<lambda>x. sm_id x \<le> sm_id m) (outgoing_queue c)"
proof -
  have M: "match_request (sm_id m) (queue_of (sm_type m) c) = (before, Some r, later)"
    unfolding q by (rule match_request_found [OF before r])
  note cr = client_reply [OF ty M E]
  show ?thesis using cr(1) cr(2) [of "sm_type m"] cr(3) by (simp add: pop_outgoing_def)
qed

section \<open>Reconnecting\<close>

text \<open>C32: no request is lost by a loss of the connection. Whatever fails, closes and connects again in whatever
  order, and whatever the application asks for in the meantime: when the server accepts the connection, the
  client sends exactly the requests that were not answered, those from before the loss first, each once and in
  the order they were made, and from then on sends new ones at once.\<close>

theorem unanswered_requests_are_resent:
  assumes R: "run_client pb ops c = (c1, ms)" and ty: "sm_type m = MT_CONNECT"
    and ok: "cnr_code (parse_ConnectResponse pb (sm_data m)) = RC_OK \<or> cnr_code (parse_ConnectResponse pb (sm_data m)) = RC_RECONNECT"
    and E: "client_OnMessage pb split shuffle p m c1 = ((c2, out), b)"
  shows "sent out = outgoing_queue c @ ms \<and> outgoing_queue c2 = outgoing_queue c @ ms \<and> can_send c2 \<and>
    session_id c2 = cnr_session_id (parse_ConnectResponse pb (sm_data m)) \<and> callbacks out = []"
proof -
  have cb: "callbacks (map (ClientSend p) qs) = []" for qs by (induction qs) simp_all
  show ?thesis using E ok run_client_queue [OF R]
    by (auto simp: client_OnMessage_def ty client_OnConnect_def Let_def case_prod_beta cb)
qed

theorem unanswered_requests_are_resent_witness:
  "\<exists>ms. run_client blank_codec ex_ops ex_client0 = (ex_client1, ms) \<and> map sm_id ms = [1, 2, 3] \<and>
     sent (snd (fst (client_OnMessage blank_codec (\<lambda>s. [s]) id (Some 5) (ex_reply MT_CONNECT 0) ex_client1))) = ms"
proof -
  obtain ms where R: "run_client blank_codec ex_ops ex_client0 = (ex_client1, ms)"
    by (cases "run_client blank_codec ex_ops ex_client0") (simp add: ex_client1_def)
  have "map sm_id (snd (run_client blank_codec ex_ops ex_client0)) = [1, 2, 3]" by code_simp
  then have ids: "map sm_id ms = [1, 2, 3]" by (simp only: R snd_conv)
  obtain c2 out b where E: "client_OnMessage blank_codec (\<lambda>s. [s]) id (Some 5) (ex_reply MT_CONNECT 0) ex_client1 = ((c2, out), b)"
    by (metis prod.collapse)
  have "cnr_code (parse_ConnectResponse blank_codec (sm_data (ex_reply MT_CONNECT 0))) = RC_OK" "sm_type (ex_reply MT_CONNECT 0) = MT_CONNECT"
    "outgoing_queue ex_client0 = []"
    by (simp_all add: ex_reply_def blank_codec_def ConnectResponse_default_def ex_client0_def SaberClient_new_def)
  then show ?thesis using unanswered_requests_are_resent [OF R _ _ E] R ids by (simp add: E)
qed

section \<open>A reply that comes twice\<close>

text \<open>C40: a reply whose number is smaller than that of the next waiting request of its kind takes that request
  from the queue without calling it back. Its own reply then takes the one after it, and so on: the callbacks
  of both are never called. Such a reply comes when a request was sent again after a reconnect while the session
  of the server was still working on it.\<close>

theorem second_reply_loses_requests:
  assumes ty: "is_request (sm_type m)" "sm_type m2 = sm_type m" and q: "queue_of (sm_type m) c = r # r2 # later"
    and old: "sm_id m < rq_id r" and own: "sm_id m2 = rq_id r" and sorted: "rq_id r < rq_id r2"
    and E: "client_OnMessage pb split shuffle p m c = ((c1, out1), b1)"
    and E2: "client_OnMessage pb split shuffle p m2 c1 = ((c2, out2), b2)"
  shows "callbacks out1 = [] \<and> callbacks out2 = [] \<and> queue_of (sm_type m) c2 = later"
proof -
  have M: "match_request (sm_id m) (queue_of (sm_type m) c) = ([], None, r2 # later)"
    unfolding q by (rule match_request_stale [OF old])
  note cr = client_reply [OF ty(1) M E]
  have q1: "queue_of (sm_type m2) c1 = r2 # later" using cr(2) [of "sm_type m2"] ty(2) by simp
  have ty2: "is_request (sm_type m2)" using ty by simp
  have M2: "match_request (sm_id m2) (queue_of (sm_type m2) c1) = ([], None, later)"
    unfolding q1 own by (rule match_request_stale [OF sorted])
  note cr2 = client_reply [OF ty2 M2 E2]
  show ?thesis using cr(1) cr2(1) cr2(2) [of "sm_type m"] ty(2) by simp
qed

theorem second_reply_loses_requests_witness:
  "let c1 = fst (fst (client_OnMessage blank_codec (\<lambda>s. [s]) id (Some 5) (ex_reply MT_CREATE 0) ex_client1));
       res = fst (client_OnMessage blank_codec (\<lambda>s. [s]) id (Some 5) (ex_reply MT_CREATE 1) c1)
   in callbacks (snd res) = [] \<and> queue_of MT_CREATE (fst res) = []"
proof -
  let ?m = "ex_reply MT_CREATE 0" and ?m2 = "ex_reply MT_CREATE 1"
  let ?q = "queue_of MT_CREATE ex_client1"
  have "length ?q = 2" "rq_id (hd ?q) = 1" "rq_id (?q ! 1) = 3" by code_simp+
  then obtain r r2 where q: "queue_of MT_CREATE ex_client1 = r # r2 # []" and r: "rq_id r = 1" "rq_id r2 = 3"
    by (cases ?q rule: remdups_adj.cases) auto
  obtain c1 out1 b1 where E: "client_OnMessage blank_codec (\<lambda>s. [s]) id (Some 5) ?m ex_client1 = ((c1, out1), b1)" by (metis prod.collapse)
  obtain c2 out2 b2 where E2: "client_OnMessage blank_codec (\<lambda>s. [s]) id (Some 5) ?m2 c1 = ((c2, out2), b2)" by (metis prod.collapse)
  have t: "sm_type ?m = MT_CREATE" "sm_id ?m = 0" "sm_type ?m2 = MT_CREATE" "sm_id ?m2 = 1" by (simp_all add: ex_reply_def)
  show ?thesis
    using second_reply_loses_requests [OF _ _ _ _ _ _ E E2, of r r2 "[]"] q r
    by (simp add: t is_request_def E E2 Let_def del: queue_of.simps)
qed

end
