(* ===== verification/SaberDB_Claims.thy ===== *)
theory SaberDB_Claims
  imports SaberDB_Props DataTree_Claims
begin

text \<open>
  The properties of \<^verbatim>\<open>SaberDB\<close> with concrete instances: a server with two groups and a client with
  session 7, whose log entries are decoded by a small codec. The first letter of an entry is its kind;
  the rest is the path, or a string whose length is the version of the session.
\<close>

section \<open>The example\<close>

definition ex_type :: "bytes \<Rightarrow> MessageType" where
  "ex_type v = (if v = [] then MT_PING else if hd v = CHR ''c'' then MT_CREATE
     else if hd v = CHR ''d'' then MT_DELETE else if hd v = CHR ''x'' then MT_CLOSE
     else if hd v = CHR ''o'' then MT_CONNECT else MT_PING)"

definition ex_codec :: pb_codec where
  "ex_codec = blank_codec
     \<lparr>parse_SaberMessage := \<lambda>v. SaberMessage_default\<lparr>sm_type := ex_type v, sm_data := tl v\<rparr>,
      parse_CreateRequest := \<lambda>d. ex_create (if length d < 3 then NT_PERSISTENT else NT_EPHEMERAL) d,
      parse_DeleteRequest := \<lambda>d. \<lparr>dlq_path = d, dlq_version = - 1\<rparr>,
      parse_CloseRequest := \<lambda>d. \<lparr>clq_session_id = [7], clq_version = [word_of_nat (length d)]\<rparr>,
      parse_ConnectRequest := \<lambda>d. \<lparr>cnq_session_id = 7, cnq_version = word_of_nat (length d)\<rparr>,
      parse_Transaction := \<lambda>_. Transaction_default\<lparr>tx_session_id := 7\<rparr>\<rparr>"

definition ex_log :: "(u64 \<times> bytes) list" where
  "ex_log = [(1, ''o''), (2, ''c/a''), (3, ''c/a/b''), (4, ''c/c'')]"

definition ex_db :: SaberDB where
  "ex_db = replay ex_codec 0 ex_log (SaberDB_new 2)"

lemma ex_legal: "legal_entry ex_codec e"
  by (cases e) (simp add: legal_entry_def ex_codec_def)

lemma ex_legal_all: "list_all (legal_entry ex_codec) es"
  by (simp add: list_all_iff ex_legal)

lemma ex_db_valid: "valid_group ex_db 0"
  unfolding ex_db_def by (simp add: valid_group_replay valid_group_new)

lemma ex_db_agree: "group_agree (group_of ex_db 0) (group_of ex_db 0)"
proof -
  have v: "valid_group (SaberDB_new 2) 0" by (simp add: valid_group_new)
  have "group_agree (group_of (SaberDB_new 2) 0) (group_of (SaberDB_new 2) 0)"
    using db_agree_new [of 2] v unfolding db_agree_def by blast
  from rsm.agree_replay [OF this ex_legal_all, of 0 ex_log] show ?thesis
    unfolding ex_db_def Execute_fold [OF v] .
qed

lemma ex_db_ok: "group_ok (group_of ex_db 0)"
  using ex_db_agree by (simp add: group_agree_def group_ok_def tree_agree_def)

lemma ex_db_tree_ok: "tree_ok (tree_of ex_db 0)"
  using ex_db_ok unfolding group_ok_def by simp

section \<open>The replicated state machine\<close>














text \<open>C14: executing an entry of one group leaves the tree and the sessions of every other group exactly
  as they are.\<close>

theorem groups_are_isolated:
  assumes "valid_group db g" and "h \<noteq> g"
  shows "tree_of (fst (Execute pb g i v reply db)) h = tree_of db h \<and>
    sessions_of (fst (Execute pb g i v reply db)) h = sessions_of db h"
  using Execute_other_group [OF assms] by simp

theorem groups_are_isolated_witness:
  "tree_of (fst (Execute ex_codec 0 5 ''d/c'' None ex_db)) 1 = tree_of ex_db 1 \<and>
   node_at (tree_of (fst (Execute ex_codec 0 5 ''d/c'' None ex_db)) 0) ''/c'' = None"
proof -
  have "node_at (tree_of (fst (Execute ex_codec 0 5 ''d/c'' None ex_db)) 0) ''/c'' = None" by code_simp
  then show ?thesis using groups_are_isolated [OF ex_db_valid, of 1 ex_codec 5 "''d/c''" None] by simp
qed

text \<open>C2: a server that was restored from a checkpoint of another one, and then executed the entries
  after the checkpoint, holds the same nodes and sessions as a server that executed the whole log.
  What \<^verbatim>\<open>skywalker\<close> does with the files is a hypothesis: a file that was written successfully reads
  back as it was written, and writing another file does not disturb it.\<close>

theorem checkpoint_catch_up:
  assumes law: "checkpoint_io_law io" and g: "g < n" and legal: "list_all (legal_entry pb) (xs @ ys)"
    and task: "fst (MakeCheckpoint g i dir (replay pb g xs (SaberDB_new n))) = task"
    and run: "run_checkpoint_task io task fs = (fs', g', i', True)"
  shows "\<exists>db'. DB_Recover io fs' g i dir (SaberDB_new n) = (db', True) \<and>
    node_at (tree_of (replay pb g ys db') g) = node_at (tree_of (replay pb g (xs @ ys) (SaberDB_new n)) g) \<and>
    version_of (sessions_of (replay pb g ys db') g) =
      version_of (sessions_of (replay pb g (xs @ ys) (SaberDB_new n)) g)"
proof -
  let ?n = "SaberDB_new n" and ?s = "(DataTree_new, SessionManager_new)"
  let ?db = "replay pb g xs ?n"
  let ?c = "save_group (group_of ?db g)"
  have v: "valid_group ?n g" using g by (simp add: valid_group_new)
  have t: "ct_group task = g" "ct_instance task = i" "ct_dir task = dir"
    "ct_nodes task = fst ?c" "ct_sessions task = snd ?c"
    using task by (auto simp: MakeCheckpoint_def save_group_def)
  note W = checkpoint_task_written [OF law run, unfolded t]
  have R: "DB_Recover io fs' g i dir ?n = (put_group g (load_group ?c) ?n, True)"
    by (rule DB_Recover_group [OF v group_of_new [OF v] W])
  have A0: "group_agree ?s ?s" using db_agree_new [of n] v group_of_new [OF v] by (auto simp: db_agree_def)
  have "group_agree (fold (group_execute pb g) (xs @ ys) ?s)
     (fold (group_execute pb g) ys (load_group (save_group (fold (group_execute pb g) xs ?s))))"
    by (rule rsm.agree_catch_up [OF A0 legal])
  then have "group_agree (group_of (replay pb g (xs @ ys) ?n) g)
      (group_of (replay pb g ys (put_group g (load_group ?c) ?n)) g)"
    using v group_of_new [OF v] by (simp only: Execute_fold put_group_simps)
  then show ?thesis using R by (simp add: group_agree_def tree_agree_def)
qed

definition ex_io :: "((string \<rightharpoonup> DataNode list) \<times> (string \<rightharpoonup> Session list)) checkpoint_io" where
  "ex_io =
     \<lparr>read_nodes = (\<lambda>g i f fs. fst fs f), read_sessions = (\<lambda>g i f fs. snd fs f),
      write_nodes = (\<lambda>g i f ns fs. (((fst fs)(f \<mapsto> ns), snd fs), True)),
      write_sessions = (\<lambda>g i f ss fs. ((fst fs, (snd fs)(f \<mapsto> ss)), True))\<rparr>"

theorem checkpoint_catch_up_witness:
  "\<exists>db' fs'. DB_Recover ex_io fs' 0 4 ''ckpt'' (SaberDB_new 2) = (db', True) \<and>
     node_at (tree_of (replay ex_codec 0 [(5, ''d/c'')] db') 0) =
     node_at (tree_of (replay ex_codec 0 (ex_log @ [(5, ''d/c'')]) (SaberDB_new 2)) 0)"
proof -
  have law: "checkpoint_io_law ex_io" by (auto simp: checkpoint_io_law_def ex_io_def)
  let ?task = "fst (MakeCheckpoint 0 4 ''ckpt'' (replay ex_codec 0 ex_log (SaberDB_new 2)))"
  obtain fs' g' i' where run: "run_checkpoint_task ex_io ?task (Map.empty, Map.empty) = (fs', g', i', True)"
    by (simp add: run_checkpoint_task_def ex_io_def Let_def)
  have "(0 :: u32) < 2" by simp
  from checkpoint_catch_up [OF law this ex_legal_all [of "ex_log @ [(5, ''d/c'')]"] refl run]
  show ?thesis by blast
qed

section \<open>Sessions\<close>

text \<open>C15: a close entry with the current version of a session ends the session and removes exactly its
  ephemeral nodes.\<close>

theorem close_session_exact:
  fixes i :: u64 and reply :: "SaberMessage option"
  assumes "valid_group db g" and "group_ok (group_of db g)" and "is_close pb v sid ver"
    and "version_of (sessions_of db g) sid = Some ver"
  defines "db' \<equiv> fst (Execute pb g i v reply db)"
  shows "version_of (sessions_of db' g) = (version_of (sessions_of db g))(sid := None) \<and>
    content (tree_of db' g) = (content (tree_of db g)) |` (- owned_by sid (tree_of db g))"
proof -
  have G: "group_of db' g = group_execute pb g (i, v) (group_of db g)"
    unfolding db'_def Execute_group [OF assms(1)] by (rule put_group_simps(1) [OF assms(1)])
  show ?thesis using G assms(2,4) KillSession_content [of "tree_of db g" sid]
    by (simp add: group_execute_close [OF assms(3)] sm.remove_cur sm.remove_ok group_ok_def)
qed

theorem close_session_exact_witness:
  "version_of (sessions_of (fst (Execute ex_codec 0 5 ''x1'' None ex_db)) 0) 7 = None \<and>
   content (tree_of (fst (Execute ex_codec 0 5 ''x1'' None ex_db)) 0) ''/a/b'' = None"
proof -
  have v: "version_of (sessions_of ex_db 0) 7 = Some 1" by code_simp
  have c: "is_close ex_codec ''x1'' 7 1" by (simp add: is_close_def ex_codec_def ex_type_def)
  have own: "owned_by 7 (tree_of ex_db 0) = {''/a/b''}"
    unfolding owned_by_bucket [OF ex_db_tree_ok] by code_simp
  show ?thesis using close_session_exact [OF ex_db_valid ex_db_ok c v, of 5 None]
    unfolding own by (simp add: restrict_map_def)
qed

text \<open>C16: once a session has moved to a new connection, a close that still carries its old version, from
  the connection or the master that saw it before, changes nothing.\<close>

theorem late_close_is_fenced:
  fixes c1 c2 :: "SaberMessage option"
  assumes g: "valid_group db g" and move: "is_connect pb v1 sid old" "old \<noteq> 0"
    and cur: "version_of (sessions_of db g) sid = Some old" and i: "i \<noteq> old"
    and late: "is_close pb v2 sid old"
  defines "db1 \<equiv> fst (Execute pb g i v1 c1 db)"
  shows "version_of (sessions_of db1 g) sid = Some i \<and> fst (Execute pb g j v2 c2 db1) = db1"
proof -
  have G1: "group_of db1 g = (tree_of db g, fst (SM_CreateSession sid i old (sessions_of db g)))"
    unfolding db1_def Execute_group [OF g] put_group_simps(1) [OF g] by (rule group_execute_connect [OF move(1)])
  then have V: "version_of (sessions_of db1 g) sid = Some i"
    using cur by (simp add: sm.swap_cur sm.swap_ok)
  have g1: "valid_group db1 g" using g by (simp add: db1_def Execute_group)
  have "group_execute pb g (j, v2) (group_of db1 g) = group_of db1 g"
    using V i by (simp only: group_execute_close [OF late]) simp
  then have "fst (Execute pb g j v2 c2 db1) = db1"
    by (simp only: Execute_group [OF g1] put_group_simps)
  then show ?thesis using V by simp
qed

theorem late_close_is_fenced_witness:
  "version_of (sessions_of (fst (Execute ex_codec 0 5 ''o1'' None ex_db)) 0) 7 = Some 5 \<and>
   fst (Execute ex_codec 0 6 ''x1'' None (fst (Execute ex_codec 0 5 ''o1'' None ex_db))) =
     fst (Execute ex_codec 0 5 ''o1'' None ex_db)"
proof -
  have "version_of (sessions_of ex_db 0) 7 = Some 1" by code_simp
  moreover have "is_close ex_codec ''x1'' 7 1" "is_connect ex_codec ''o1'' 7 1"
    by (simp_all add: is_close_def is_connect_def ex_codec_def ex_type_def)
  ultimately show ?thesis by (intro late_close_is_fenced [OF ex_db_valid, where old = 1]) simp_all
qed

section \<open>Where the code falls short\<close>

text \<open>C17: a check changes the replicated state outside the log. The master checks a create below a leaf
  \<open>q\<close> and thereby leaves an empty children bucket; when the log then deletes \<open>q\<close>, the master refuses
  and keeps the node while every other replica removes it.\<close>

theorem check_makes_replicas_diverge:
  fixes c1 c2 :: "SaberMessage option" and i :: u64
  assumes g: "valid_group db g" "valid_group db' g" and A: "group_agree (group_of db g) (group_of db' g)"
    and P: "ParsePath (crq_path r) = (RC_OK, q, c)" and q: "q \<noteq> []"
    and n: "node_at (tree_of db g) q = Some n" "\<not> is_ephemeral (dn_type n)"
    and leaf: "kids (tree_of db g) q = []"
    and v: "is_delete pb v \<lparr>dlq_path = q, dlq_version = - 1\<rparr>"
  shows "node_at (tree_of (fst (Execute pb g i v c1 (fst (CheckCreate g r resp db)))) g) q \<noteq> None \<and>
    node_at (tree_of (fst (Execute pb g i v c2 db')) g) q = None"
proof -
  let ?t = "tree_of db g" and ?u = "tree_of db' g"
  let ?d = "\<lparr>dlq_path = q, dlq_version = - 1\<rparr>"
  let ?txn = "entry_txn pb g i (parse_SaberMessage pb v)"
  let ?del = "DataTree_Delete ?d ?txn DeleteResponse_default False"
  have ok: "tree_ok ?t" "tree_ok ?u" and T: "tree_agree ?t ?u"
    using A by (simp_all add: group_agree_def tree_agree_def)
  have none: "um_find (childrens ?t) q = None"
    using leaf T bk_tight_find [of "childrens ?t" q] by (simp add: tree_agree_def no_phantom_def)
  obtain t' resp' ns where E: "DataTree_Create r Transaction_default resp True ?t = (t', resp', ns)"
    by (cases "DataTree_Create r Transaction_default resp True ?t") auto
  note B = check_blocks_delete [where d = ?d, OF ok(1) P n none q _ _ E, simplified]
  have db1: "fst (CheckCreate g r resp db) = put_tree g t' db" by (simp add: CheckCreate_def E)
  have t': "tree_of (put_tree g t' db) g = t'" "valid_group (put_tree g t' db) g"
    using g(1) by (simp_all add: put_tree_def valid_group_def)
  have ok': "tree_ok t'" using tree_ok_check [OF ok(1), of r Transaction_default resp] by (simp add: E)
  have "node_at t' = node_at ?t" by (simp add: Create_check_nodes [OF E])
  moreover have "fst (?del t') = t'"
    using Delete_changes_one_path [OF ok', of ?d ?txn DeleteResponse_default]
      B(3) [of ?txn DeleteResponse_default] by (cases "?del t'") auto
  ultimately have "node_at (fst (?del t')) q \<noteq> None" using n(1) by simp
  moreover have "node_at (fst (?del ?u)) q = None"
  proof -
    have "dlr_code (fst (snd (?del ?u))) = RC_OK"
      using tree_agree_responses(2) [OF T, of ?d ?txn DeleteResponse_default]
        B(2) [of ?txn DeleteResponse_default] by simp
    then have "content (fst (?del ?u)) q = None"
      using Delete_changes_one_path [OF ok(2), of ?d ?txn DeleteResponse_default] by (cases "?del ?u") auto
    then show ?thesis by (simp add: content_def)
  qed
  ultimately show ?thesis
    unfolding db1 tree_Execute_delete [OF t'(2) v] tree_Execute_delete [OF g(2) v] t'(1) by blast
qed

theorem check_makes_replicas_diverge_witness:
  "node_at (tree_of (fst (Execute ex_codec 0 5 ''d/c'' None
       (fst (CheckCreate 0 (ex_create NT_PERSISTENT ''/c/n'') CreateResponse_default ex_db)))) 0) ''/c'' \<noteq> None \<and>
   node_at (tree_of (fst (Execute ex_codec 0 5 ''d/c'' None ex_db)) 0) ''/c'' = None"
proof -
  have P: "ParsePath (crq_path (ex_create NT_PERSISTENT ''/c/n'')) = (RC_OK, ''/c'', ''n'')"
    and n: "node_at (tree_of ex_db 0) ''/c'' = Some (the (node_at (tree_of ex_db 0) ''/c''))"
      "\<not> is_ephemeral (dn_type (the (node_at (tree_of ex_db 0) ''/c'')))"
    and leaf: "kids (tree_of ex_db 0) ''/c'' = []" by code_simp+
  have "is_delete ex_codec ''d/c'' \<lparr>dlq_path = ''/c'', dlq_version = - 1\<rparr>"
    by (simp add: is_delete_def ex_codec_def ex_type_def)
  from check_makes_replicas_diverge [OF ex_db_valid ex_db_valid ex_db_agree P _ n leaf this]
  show ?thesis by simp
qed

text \<open>C18: a create of an ephemeral node that the log orders after the close of its session succeeds: the
  entry does not look at the session. The node then belongs to a session that does not exist.\<close>

theorem late_create_orphans_ephemeral:
  fixes c :: "SaberMessage option" and i :: u64
  assumes g: "valid_group db g" and ok: "group_ok (group_of db g)"
    and closed: "version_of (sessions_of db g) sid = None"
    and v: "is_create pb v sid r" and eph: "is_ephemeral (crq_node_type r)"
    and P: "ParsePath (crq_path r) = (RC_OK, q, k)" and m: "node_at (tree_of db g) q = Some m"
    and ty: "\<not> is_ephemeral (dn_type m)" "\<not> is_sequential (dn_type m)"
    and free: "node_at (tree_of db g) (crq_path r) = None"
  defines "db' \<equiv> fst (Execute pb g i v c db)"
  shows "(\<exists>n. node_at (tree_of db' g) (crq_path r) = Some n \<and> is_ephemeral (dn_type n) \<and>
      ephemeral_id (dn_stat n) = sid) \<and> version_of (sessions_of db' g) sid = None"
proof -
  let ?t = "tree_of db g" and ?txn = "entry_txn pb g i (parse_SaberMessage pb v)"
  obtain t' resp ns where E: "DataTree_Create r ?txn CreateResponse_default False ?t = (t', resp, ns)"
    by (cases "DataTree_Create r ?txn CreateResponse_default False ?t") auto
  have tok: "tree_ok ?t" using ok by (simp add: group_ok_def)
  have "k \<notin> set (kids ?t q)" using fresh_child [OF tok [unfolded tree_ok_def] P] free by blast
  then have code: "crr_code resp = RC_OK" and path: "crr_path resp = crq_path r"
    using E P m ty by (auto simp: DataTree_Create_def Let_def case_prod_beta)
  have "content t' (crq_path r) = Some (node_core (fill_node r ?txn DataNode_default))"
    using Create_changes_one_path [OF tok E] code path by simp
  then obtain n where n: "node_at t' (crq_path r) = Some n"
    and core: "node_core n = node_core (fill_node r ?txn DataNode_default)" by (auto simp: content_def)
  have "dn_type n = crq_node_type r" "ephemeral_id (dn_stat n) = sid"
    using arg_cong [OF core, of dn_type] arg_cong [OF core, of "\<lambda>n. ephemeral_id (dn_stat n)"] eph v
    by (simp_all add: fill_node_def entry_txn_def is_create_def)
  moreover have "tree_of db' g = t'" "sessions_of db' g = sessions_of db g"
    using Execute_create [OF g v, of i c] by (simp_all add: db'_def E)
  ultimately show ?thesis using n eph closed by simp
qed

theorem late_create_orphans_ephemeral_witness:
  "(\<exists>n. node_at (tree_of (fst (Execute ex_codec 0 1 ''c/ab'' None (SaberDB_new 2))) 0) ''/ab'' = Some n \<and>
     is_ephemeral (dn_type n) \<and> ephemeral_id (dn_stat n) = 7) \<and>
   version_of (sessions_of (fst (Execute ex_codec 0 1 ''c/ab'' None (SaberDB_new 2))) 0) 7 = None"
proof -
  let ?r = "ex_create NT_EPHEMERAL ''/ab''" and ?db = "SaberDB_new 2"
  have v: "valid_group ?db 0" by (simp add: valid_group_new)
  have ok: "group_ok (group_of ?db 0)" using db_ok_new [of 2] v unfolding db_ok_def by blast
  have P: "ParsePath (crq_path ?r) = (RC_OK, [], ''ab'')" and eph: "is_ephemeral (crq_node_type ?r)"
    and m: "node_at (tree_of ?db 0) [] = Some DataNode_default"
    and ty: "\<not> is_ephemeral (dn_type DataNode_default)" "\<not> is_sequential (dn_type DataNode_default)"
    and free: "node_at (tree_of ?db 0) (crq_path ?r) = None"
    and cl: "version_of (sessions_of ?db 0) 7 = None" by code_simp+
  have c: "is_create ex_codec ''c/ab'' 7 ?r" by (simp add: is_create_def ex_codec_def ex_type_def)
  from late_create_orphans_ephemeral [OF v ok cl c eph P m ty free, of 1 None]
  show ?thesis by (simp add: ex_create_def)
qed

end
