(* ===== verification/SaberSession_Claims.thy ===== *)
theory SaberSession_Claims
  imports SaberSession_Props SaberDB_Claims Codec_Example
begin

text \<open>
  The properties of a session, and the path of a write through session, log and database.
\<close>

section \<open>The example session\<close>

definition ex_env :: node_env where
  "ex_env = \<lparr>env_is_master = (\<lambda>_. True), env_master = (\<lambda>_. None), env_propose = (\<lambda>_ _. True),
     env_now = 5, env_alive = (\<lambda>_. True), env_max_data = 1048576\<rparr>"

definition ex_pb :: pb_codec where
  "ex_pb = plain_codec\<lparr>parse_CreateRequest := \<lambda>d. ex_create NT_EPHEMERAL d,
     ser_CreateResponse := crr_path\<rparr>"

definition ex_session :: SaberSession where
  "ex_session = SaberSession_new ''/a'' 0 7 3 (Some 1)"

definition ex_msg :: "MessageType \<Rightarrow> u32 \<Rightarrow> bytes \<Rightarrow> SaberMessage" where
  "ex_msg ty i d = \<lparr>sm_type = ty, sm_id = i, sm_data = d, sm_extra_data = []\<rparr>"

lemma ex_pb_law: "codec_law ex_pb"
  using plain_codec_law by (simp add: ex_pb_def codec_law_def)

definition ex_sys1 :: session_sys where
  "ex_sys1 =
     (let (b, s, db, out) = OnMessage ex_pb ex_env (ex_msg MT_CREATE 1 ''/a/x'') ex_session ex_db
      in absorb s db out ((session_init ex_session ex_db)\<lparr>sys_received := [ex_msg MT_CREATE 1 ''/a/x'']\<rparr>))"

definition ex_sys2 :: session_sys where
  "ex_sys2 =
     (let (b, s, db, out) = OnMessage ex_pb ex_env (ex_msg MT_DELETE 2 ''/a/x'') (sys_sess ex_sys1) (sys_db ex_sys1)
      in absorb s db out (ex_sys1\<lparr>sys_received := sys_received ex_sys1 @ [ex_msg MT_DELETE 2 ''/a/x'']\<rparr>))"

definition ex_sys3 :: session_sys where
  "ex_sys3 =
     (let (s, out) = WeakCallback ex_pb ex_env True ((hd (sys_proposed ex_sys2))\<lparr>sm_data := ''/a/x''\<rparr>) (sys_sess ex_sys2)
      in absorb s (sys_db ex_sys2) out (ex_sys2\<lparr>sys_proposed := []\<rparr>))"

lemma ex_sys1_reach: "session_reach ex_pb ex_sys1"
proof -
  let ?y = "session_init ex_session ex_db"
  obtain b s db out where E: "OnMessage ex_pb ex_env (ex_msg MT_CREATE 1 ''/a/x'') ex_session ex_db = (b, s, db, out)"
    by (cases "OnMessage ex_pb ex_env (ex_msg MT_CREATE 1 ''/a/x'') ex_session ex_db") auto
  have "session_reach ex_pb ?y" unfolding ex_session_def by (rule sess_start)
  moreover have "session_step ex_pb ?y (absorb s db out (?y\<lparr>sys_received := sys_received ?y @ [ex_msg MT_CREATE 1 ''/a/x'']\<rparr>))"
    by (rule on_message [where env = ex_env and b = b]) (simp add: session_init_def E)
  ultimately show ?thesis
    unfolding ex_sys1_def E by (auto simp: session_init_def dest: sess_next)
qed

lemma ex_sys2_reach: "session_reach ex_pb ex_sys2"
proof -
  let ?m = "ex_msg MT_DELETE 2 ''/a/x''"
  obtain b s db out where E: "OnMessage ex_pb ex_env ?m (sys_sess ex_sys1) (sys_db ex_sys1) = (b, s, db, out)"
    by (cases "OnMessage ex_pb ex_env ?m (sys_sess ex_sys1) (sys_db ex_sys1)") auto
  show ?thesis unfolding ex_sys2_def E by (simp, rule sess_next [OF ex_sys1_reach on_message [OF E]])
qed

lemma ex_sys3_reach: "session_reach ex_pb ex_sys3"
proof -
  let ?m = "hd (sys_proposed ex_sys2)"
  obtain s out where E: "WeakCallback ex_pb ex_env True (?m\<lparr>sm_data := ''/a/x''\<rparr>) (sys_sess ex_sys2) = (s, out)"
    by (cases "WeakCallback ex_pb ex_env True (?m\<lparr>sm_data := ''/a/x''\<rparr>) (sys_sess ex_sys2)") auto
  have "sys_proposed ex_sys2 = [?m]" by code_simp
  then show ?thesis unfolding ex_sys3_def E by (simp, intro sess_next [OF ex_sys2_reach callback [OF _ E]])
qed

section \<open>One request at a time, in order\<close>

text \<open>C19: in every reachable state of a session at most one request is being worked on, as a queued
  message or as a proposal; the flag \<^verbatim>\<open>last_finished_\<close> says exactly whether there is none; and no message
  waits while nothing is worked on, so a waiting request is never forgotten.\<close>

theorem one_request_at_a_time:
  assumes "session_reach pb y"
  shows "length (sys_queued y) + length (sys_proposed y) \<le> 1 \<and>
    (last_finished (sys_sess y) \<longleftrightarrow> sys_queued y = [] \<and> sys_proposed y = []) \<and>
    (pending_messages (sys_sess y) \<noteq> [] \<longrightarrow> length (sys_queued y) + length (sys_proposed y) = 1)"
  using session_reach_inv [OF assms] by (auto simp: session_inv_def split: if_splits)

theorem one_request_at_a_time_witness:
  "length (sys_proposed ex_sys2) = 1 \<and> length (pending_messages (sys_sess ex_sys2)) = 1 \<and>
   length (sys_queued ex_sys2) + length (sys_proposed ex_sys2) \<le> 1"
proof -
  have "length (sys_proposed ex_sys2) = 1" "length (pending_messages (sys_sess ex_sys2)) = 1" by code_simp+
  then show ?thesis using one_request_at_a_time [OF ex_sys2_reach] by simp
qed

text \<open>The replies of a session are sent in the order in which its requests arrived, each request
  being answered at most once, whatever the interleaving of arrivals, queued messages, answers to
  proposals and reconnections.\<close>

lemma replies_in_order:
  assumes "session_reach pb y"
  shows "subseq (map sm_id (sys_sent y)) (map sm_id (sys_received y))"
proof -
  have "subseq (ids (sys_sent y) @ []) (ids (sys_sent y) @ ids (sys_queued y @ sys_proposed y) @ ids (pending_messages (sys_sess y)))"
    by (intro list_emb_append_mono) simp_all
  then show ?thesis using session_reach_inv [OF assms] subseq_order.trans by (auto simp: session_inv_def)
qed

section \<open>What is proposed and what is refused\<close>

text \<open>A server that is not the master of the group answers every request with the address of the
  master, touches neither database nor log, closes the connection and forgets what waits.\<close>

lemma not_master_redirects:
  assumes "sm_type m = MT_MASTER \<or> \<not> env_is_master env (sess_group s)"
    and "HandleMessage pb env m s db = (s', db', out)"
  shows "db' = db \<and> eff_proposed out = [] \<and> eff_queued out = [] \<and> closed s' \<and> last_finished s' \<and>
    pending_messages s' = [] \<and>
    out = SendMessage (lock_conn env s) (m\<lparr>sm_type := MT_MASTER,
        sm_data := ser_Master pb (master_message env (sess_group s))\<rparr>) #
      (case lock_conn env s of Some c \<Rightarrow> [ForceClose c] | None \<Rightarrow> [])"
  using assms by (auto simp: HandleMessage_def Done_def Let_def split: option.splits)

text \<open>A proposal of \<open>HandleMessage\<close>: what was proposed, where, and why.\<close>

lemma HandleMessage_proposal:
  assumes "HandleMessage pb env m s db = (s', db', out)" and "ProposeEntry g v r \<in> set out"
  defines "t \<equiv> tree_of db (sess_group s)"
  shows "g = sess_group s \<and> env_is_master env g \<and> v = ser_SaberMessage pb r \<and>
    r = m\<lparr>sm_extra_data := ser_Transaction pb (propose_txn env s)\<rparr> \<and>
    (sm_type m = MT_CREATE \<and> GetRoot (crq_path (parse_CreateRequest pb (sm_data m))) = kRoot s \<and>
       crr_code (fst (snd (DataTree_Create (parse_CreateRequest pb (sm_data m)) Transaction_default
         CreateResponse_default True t))) = RC_OK \<or>
     sm_type m = MT_DELETE \<and> GetRoot (dlq_path (parse_DeleteRequest pb (sm_data m))) = kRoot s \<and>
       dlr_code (fst (snd (DataTree_Delete (parse_DeleteRequest pb (sm_data m)) Transaction_default
         DeleteResponse_default True t))) = RC_OK \<or>
     sm_type m = MT_SETDATA \<and> GetRoot (sdq_path (parse_SetDataRequest pb (sm_data m))) = kRoot s \<and>
       length (sdq_data (parse_SetDataRequest pb (sm_data m))) \<le> unat (env_max_data env) \<and>
       sdr_code (fst (snd (DataTree_SetData (parse_SetDataRequest pb (sm_data m)) Transaction_default
         SetDataResponse_default True t))) = RC_OK \<or>
     sm_type m = MT_CLOSE)"
proof -
  obtain m1 db1 fin where D: "DoIt_switch pb env m s db = (m1, db1, fin)"
    by (cases "DoIt_switch pb env m s db") auto
  have no_done: "ProposeEntry g v r \<notin> set out'" if "Done env x s = (s1, out')" for x s1 out'
    using that by (auto simp: Done_def Let_def split: if_splits list.splits option.splits)
  have master: "sm_type m \<noteq> MT_MASTER \<and> env_is_master env (sess_group s)"
    using assms(1,2) no_done by (auto simp: HandleMessage_def Let_def split: if_splits prod.splits)
  then have "\<not> fin" and P: "Propose pb env m1 s = (s', out)"
    using assms(1,2) no_done by (auto simp: HandleMessage_def DoIt_def D Let_def split: if_splits prod.splits)
  then have "g = sess_group s \<and> v = ser_SaberMessage pb r \<and>
      r = m1\<lparr>sm_extra_data := ser_Transaction pb (propose_txn env s)\<rparr>"
    using assms(2) no_done by (auto simp: Propose_def Let_def split: if_splits)
  moreover have "m1 = m" using D \<open>\<not> fin\<close>
    by (cases "sm_type m") (auto simp: DoIt_switch_def Let_def case_prod_beta split: if_splits)
  ultimately show ?thesis using D \<open>\<not> fin\<close> master
    by (cases "sm_type m") (auto simp: DoIt_switch_def Let_def case_prod_beta CheckCreate_def CheckDelete_def
        CheckSetData_def t_def split: if_splits)
qed

text \<open>The two ways a session comes to work on a message: it arrives, or it was queued in the event loop.\<close>

definition session_acts :: "pb_codec \<Rightarrow> node_env \<Rightarrow> session_sys \<Rightarrow> SaberMessage \<Rightarrow> session_effect list \<Rightarrow> bool" where
  "session_acts pb env y m out \<longleftrightarrow>
     (\<exists>b s db. OnMessage pb env m (sys_sess y) (sys_db y) = (b, s, db, out)) \<or>
     (\<exists>q s db. sys_queued y = m # q \<and> HandleMessage pb env m (sys_sess y) (sys_db y) = (s, db, out))"

lemma session_acts_handles:
  assumes "session_acts pb env y m out" and "out \<noteq> []"
  obtains x b s db where "HandleMessage pb env x ((sys_sess y)\<lparr>last_finished := b\<rparr>) (sys_db y) = (s, db, out)"
    and "x = stamp_close pb (sys_sess y) m \<or> x = m \<and> m \<in> set (sys_queued y)"
proof -
  consider (arrives) b s db where "OnMessage pb env m (sys_sess y) (sys_db y) = (b, s, db, out)"
    | (queued) q s db where "sys_queued y = m # q" "HandleMessage pb env m (sys_sess y) (sys_db y) = (s, db, out)"
    using assms(1) by (auto simp: session_acts_def)
  then show thesis
  proof cases
    case arrives
    then show thesis
      by (cases rule: OnMessage_elim) (use assms(2) that [of "stamp_close pb (sys_sess y) m" False s db] in auto)
  next
    case queued
    then show thesis using that [of m "last_finished (sys_sess y)" s db] by simp
  qed
qed

text \<open>C29: what the sessions of a server propose. Only the master proposes, the entry carries the session and the time of
  the clock as its transaction, and it is one of two things. Either it is a create, a delete or a write as the client sent
  it, whose path lies under the root of the session, whose data (of a write) is not larger than the limit, and whose
  check in the current state gave no error. Or it is a close, which is not checked, but which always names
  exactly this session and a version that the session has had, whatever the client put into it.\<close>

theorem proposals_are_checked:
  assumes R: "session_reach pb y" and A: "session_acts pb env y m out" and P: "ProposeEntry g v r \<in> set out"
  defines "s \<equiv> sys_sess y" and "t \<equiv> tree_of (sys_db y) (sess_group (sys_sess y))"
  shows "g = sess_group s \<and> env_is_master env g \<and> v = ser_SaberMessage pb r \<and>
    r = m\<lparr>sm_data := sm_data r, sm_extra_data := ser_Transaction pb (propose_txn env s)\<rparr> \<and>
    (sm_type m = MT_CREATE \<and> sm_data r = sm_data m \<and> GetRoot (crq_path (parse_CreateRequest pb (sm_data m))) = kRoot s \<and>
       crr_code (fst (snd (DataTree_Create (parse_CreateRequest pb (sm_data m)) Transaction_default
         CreateResponse_default True t))) = RC_OK \<or>
     sm_type m = MT_DELETE \<and> sm_data r = sm_data m \<and> GetRoot (dlq_path (parse_DeleteRequest pb (sm_data m))) = kRoot s \<and>
       dlr_code (fst (snd (DataTree_Delete (parse_DeleteRequest pb (sm_data m)) Transaction_default
         DeleteResponse_default True t))) = RC_OK \<or>
     sm_type m = MT_SETDATA \<and> sm_data r = sm_data m \<and> GetRoot (sdq_path (parse_SetDataRequest pb (sm_data m))) = kRoot s \<and>
       length (sdq_data (parse_SetDataRequest pb (sm_data m))) \<le> unat (env_max_data env) \<and>
       sdr_code (fst (snd (DataTree_SetData (parse_SetDataRequest pb (sm_data m)) Transaction_default
         SetDataResponse_default True t))) = RC_OK \<or>
     sm_type m = MT_CLOSE \<and>
       (\<exists>ver \<in> set (sys_versions y). sm_data r = ser_CloseRequest pb \<lparr>clq_session_id = [sess_id s], clq_version = [ver]\<rparr>))"
proof -
  have "out \<noteq> []" using P by auto
  obtain x b s' db' where H: "HandleMessage pb env x ((sys_sess y)\<lparr>last_finished := b\<rparr>) (sys_db y) = (s', db', out)"
    and x: "x = stamp_close pb (sys_sess y) m \<or> x = m \<and> m \<in> set (sys_queued y)"
    by (rule session_acts_handles [OF A \<open>out \<noteq> []\<close>])
  note Q = HandleMessage_proposal [OF H P]
  have C: "closes_ok pb y" by (rule closes_ok_reach [OF R])
  have own: "own_close pb (sess_id (sys_sess y)) (sys_versions y) x"
    using x C own_close_stamp [of "sys_sess y" "sys_versions y" pb m] by (auto simp: closes_ok_def)
  have same: "sm_type x = sm_type m" "sm_type m \<noteq> MT_CLOSE \<Longrightarrow> x = m" "x\<lparr>sm_data := d\<rparr> = m\<lparr>sm_data := d\<rparr>" for d
    using x by (auto simp: stamp_close_def)
  have r: "r = x\<lparr>sm_extra_data := ser_Transaction pb (propose_txn env s)\<rparr>" using Q by (simp add: propose_txn_def s_def)
  have "r = m\<lparr>sm_data := sm_data r, sm_extra_data := ser_Transaction pb (propose_txn env s)\<rparr>"
    using same(3) [of "sm_data x"] by (simp add: r)
  then show ?thesis using Q own same(1,2) by (cases "sm_type m") (auto simp: s_def t_def r own_close_def)
qed

theorem proposals_are_checked_witness:
  "(\<exists>g v r. session_acts ex_pb ex_env (session_init ex_session ex_db) (ex_msg MT_CREATE 1 ''/a/x'') [ProposeEntry g v r] \<and>
     sm_data r = ''/a/x'' \<and> GetRoot (crq_path (parse_CreateRequest ex_pb ''/a/x'')) = ''/a'') \<and>
   (\<exists>g v r. session_acts ex_pb ex_env (session_init ex_session ex_db) (ex_msg MT_CLOSE 2 ''zzz'') [ProposeEntry g v r] \<and>
     sm_data r = ser_CloseRequest ex_pb \<lparr>clq_session_id = [7], clq_version = [0]\<rparr>)"
proof -
  let ?y = "session_init ex_session ex_db"
  have R: "session_reach ex_pb ?y" unfolding ex_session_def by (rule sess_start)
  have acts: "\<exists>g v r. session_acts ex_pb ex_env ?y m [ProposeEntry g v r]"
    if "case snd (snd (snd (OnMessage ex_pb ex_env m (sys_sess ?y) (sys_db ?y)))) of [ProposeEntry g v r] \<Rightarrow> True | _ \<Rightarrow> False" for m
    using that by (auto simp: session_acts_def split: list.splits session_effect.splits) (metis prod.collapse)+
  have "case snd (snd (snd (OnMessage ex_pb ex_env (ex_msg MT_CREATE 1 ''/a/x'') (sys_sess ?y) (sys_db ?y)))) of
      [ProposeEntry g v r] \<Rightarrow> True | _ \<Rightarrow> False"
    "case snd (snd (snd (OnMessage ex_pb ex_env (ex_msg MT_CLOSE 2 ''zzz'') (sys_sess ?y) (sys_db ?y)))) of
      [ProposeEntry g v r] \<Rightarrow> True | _ \<Rightarrow> False" by code_simp+
  then obtain g v r g' v' r' where A: "session_acts ex_pb ex_env ?y (ex_msg MT_CREATE 1 ''/a/x'') [ProposeEntry g v r]"
    and A': "session_acts ex_pb ex_env ?y (ex_msg MT_CLOSE 2 ''zzz'') [ProposeEntry g' v' r']" using acts by blast
  have y: "sys_sess ?y = ex_session" "sys_versions ?y = [0]" "sess_id ex_session = 7" "kRoot ex_session = ''/a''"
    by (simp_all add: session_init_def ex_session_def SaberSession_new_def)
  have "sm_data r = ''/a/x'' \<and> GetRoot (crq_path (parse_CreateRequest ex_pb ''/a/x'')) = ''/a''"
    using proposals_are_checked [OF R A list.set_intros(1)] by (simp add: y ex_msg_def)
  moreover have "sm_data r' = ser_CloseRequest ex_pb \<lparr>clq_session_id = [7], clq_version = [0]\<rparr>"
    using proposals_are_checked [OF R A' list.set_intros(1)] by (simp add: y ex_msg_def)
  ultimately show ?thesis using A A' by blast
qed

section \<open>A write from request to reply\<close>

text \<open>C20: the way of a create through the system. If the session of the master proposes a create, then
  whenever the log executes the entry, in whatever state the group then is, the entry is legal, the
  tree makes the create of the request with the session as owner, the instance as its version and the
  time of the proposal, and the reply that the client gets has the number of its request and the
  response of exactly that create.\<close>

theorem create_end_to_end:
  assumes law: "codec_law pb" and sid: "sess_id s \<noteq> 0" and ty: "sm_type m = MT_CREATE"
    and H: "HandleMessage pb env m s db = (s1, db1, out)" and out: "ProposeEntry g v r \<in> set out"
    and g: "valid_group db2 g"
    and C: "DataTree_Create (parse_CreateRequest pb (sm_data m))
      \<lparr>tx_group_id = g, tx_instance_id = i, tx_time = env_now env, tx_session_id = sess_id s\<rparr>
      CreateResponse_default False (tree_of db2 g) = (t', response, ns)"
  shows "legal_entry pb (i, v) \<and>
    (\<exists>r'. Execute pb g i v (Some r) db2 = (put_tree g t' db2, True, Some r', ns) \<and>
      eff_sent (snd (WeakCallback pb env' True r' s2)) =
        [m\<lparr>sm_data := ser_CreateResponse pb response, sm_extra_data := []\<rparr>])"
proof -
  have r: "r = m\<lparr>sm_extra_data := ser_Transaction pb (propose_txn env s)\<rparr>" and v: "v = ser_SaberMessage pb r"
    using HandleMessage_proposal [OF H out] by blast+
  have parse: "parse_SaberMessage pb v = r" "parse_Transaction pb (sm_extra_data r) = propose_txn env s"
    using law by (simp_all add: codec_law_def v r)
  have rt: "sm_type r = MT_CREATE" "sm_data r = sm_data m" using ty by (simp_all add: r)
  have txn: "entry_txn pb g i r =
      \<lparr>tx_group_id = g, tx_instance_id = i, tx_time = env_now env, tx_session_id = sess_id s\<rparr>"
    unfolding entry_txn_def parse(2) by (simp add: propose_txn_def Transaction_default_def)
  have legal: "legal_entry pb (i, v)" unfolding legal_entry_def
    using sid by (simp add: parse Let_def propose_txn_def)
  have X: "Execute pb g i v (Some r) db2 =
      (put_tree g t' db2, True, Some (r\<lparr>sm_data := ser_CreateResponse pb response\<rparr>), ns)"
    using C by (simp add: Execute_def Let_def parse(1) txn DB_Create_def set_reply_def rt)
  have "eff_sent (snd (WeakCallback pb env' True (r\<lparr>sm_data := ser_CreateResponse pb response\<rparr>) s2)) =
      [m\<lparr>sm_data := ser_CreateResponse pb response, sm_extra_data := []\<rparr>]"
    using ty by (auto simp: WeakCallback_def Done_def Let_def r split: list.splits option.splits)
  then show ?thesis using legal X by blast
qed

theorem create_end_to_end_witness:
  "\<exists>g v r s1 db1 r' db3 ns. HandleMessage ex_pb ex_env (ex_msg MT_CREATE 1 ''/a/x'') ex_session ex_db =
      (s1, db1, [ProposeEntry g v r]) \<and> legal_entry ex_pb (9, v) \<and>
    Execute ex_pb g 9 v (Some r) ex_db = (db3, True, Some r', ns) \<and>
    map sm_id (eff_sent (snd (WeakCallback ex_pb ex_env True r' s1))) = [1]"
proof -
  let ?m = "ex_msg MT_CREATE 1 ''/a/x''"
  obtain s1 db1 out where E: "HandleMessage ex_pb ex_env ?m ex_session ex_db = (s1, db1, out)"
    by (cases "HandleMessage ex_pb ex_env ?m ex_session ex_db") auto
  let ?H = "snd (snd (HandleMessage ex_pb ex_env ?m ex_session ex_db))"
  have l: "length ?H = 1" "case hd ?H of ProposeEntry g v r \<Rightarrow> g = 0 | _ \<Rightarrow> False" by code_simp+
  then obtain v r where out: "out = [ProposeEntry 0 v r]"
    by (cases out) (auto simp: E split: session_effect.splits)
  let ?C = "DataTree_Create (parse_CreateRequest ex_pb (sm_data ?m))
      \<lparr>tx_group_id = 0, tx_instance_id = 9, tx_time = env_now ex_env, tx_session_id = sess_id ex_session\<rparr>
      CreateResponse_default False (tree_of ex_db 0)"
  obtain t' response ns where C: "?C = (t', response, ns)" by (cases ?C) auto
  have "sess_id ex_session \<noteq> 0" by (simp add: ex_session_def SaberSession_new_def)
  moreover have "sm_type ?m = MT_CREATE" "sm_id ?m = 1" by (simp_all add: ex_msg_def)
  moreover have "ProposeEntry 0 v r \<in> set out" by (simp add: out)
  ultimately show ?thesis using create_end_to_end [OF ex_pb_law _ _ E _ ex_db_valid C, of v r ex_env s1]
    unfolding E out by auto
qed

end
