(* ===== verification/System_Claims.thy ===== *)
theory System_Claims
  imports ServerMain SaberClient_Claims SaberSession_Claims "HOL-Library.Multiset"
begin

text \<open>
  Properties of client and server together: the list of servers that a server sends is the one the client
  uses, the pings of a client against the idle buckets of the server, and a request that is answered twice.
\<close>

section \<open>The list of servers\<close>

definition server_text :: "ServerMessage \<Rightarrow> string" where
  "server_text m = smsg_host m @ '':'' @ show_nat (unat (client_port m))"

definition server_addr :: "ServerMessage \<Rightarrow> SockAddr" where
  "server_addr m = SockAddr (smsg_host m) (client_port m)"

text \<open>What \<^verbatim>\<open>std::shuffle\<close> promises.\<close>

definition shuffle_ok :: "('a list \<Rightarrow> 'a list) \<Rightarrow> bool" where
  "shuffle_ok shuffle \<longleftrightarrow> (\<forall>xs. mset (shuffle xs) = mset xs)"

lemma servers_string_members: "servers_string (map member_pair (Start_members options)) = join_with CHR '','' (map server_text (opt_all_servers options))"
  unfolding butlast_joined [symmetric] servers_string_def
  by (simp add: Start_members_def member_pair_def server_text_def comp_def)

lemma parse_server_text: "colon \<notin> set (smsg_host m) \<Longrightarrow> parse_server (server_text m) = [server_addr m]"
proof -
  assume "colon \<notin> set (smsg_host m)"
  then have "takeWhile (\<lambda>c. c \<noteq> colon) (server_text m) = smsg_host m"
    "dropWhile (\<lambda>c. c \<noteq> colon) (server_text m) = '':'' @ show_nat (unat (client_port m))"
    by (auto simp: server_text_def colon_def takeWhile_append dropWhile_append)
  then show ?thesis by (simp add: parse_server_def server_addr_def port_roundtrip server_text_def colon_def del: unsigned_of_nat)
qed

definition plain_host :: "ServerMessage \<Rightarrow> bool" where
  "plain_host m \<longleftrightarrow> colon \<notin> set (smsg_host m) \<and> CHR '','' \<notin> set (smsg_host m)"

lemma server_text_plain: "plain_host m \<Longrightarrow> piece CHR '','' (server_text m)"
  using digits_show_nat [of "unat (client_port m)"] by (auto simp: piece_def plain_host_def server_text_def)

lemma parse_all_addrs: "\<forall>m \<in> set ms. plain_host m \<Longrightarrow> concat (map parse_server (map server_text ms)) = map server_addr ms"
  by (induction ms) (auto simp: parse_server_text plain_host_def)

lemma server_list_reaches_client:
  assumes split: "split_law CHR '','' split" and shuffle: "shuffle_ok shuffle"
    and plain: "\<forall>m \<in> set (opt_all_servers options). plain_host m" and some: "opt_all_servers options \<noteq> []"
    and sm: "sm = UpdateServers split shuffle (servers_string (map member_pair (Start_members options))) sm0"
  shows "mset (next_servers (length (opt_all_servers options)) sm) = mset (map server_addr (opt_all_servers options)) \<and>
    (env_master env g = Some (member_pair (Start_members options ! i)) \<and> i < length (opt_all_servers options) \<longrightarrow>
      SockAddr (ms_host (master_message env g)) (ucast (ms_port (master_message env g))) = server_addr (opt_all_servers options ! i))"
proof -
  let ?ms = "opt_all_servers options"
  have "split (join_with CHR '','' (map server_text ?ms)) = map server_text ?ms"
  proof -
    have "list_all (piece CHR '','') (map server_text ?ms)" using plain server_text_plain by (simp add: list_all_iff)
    then show ?thesis by (rule split_lawD [OF split])
  qed
  moreover have "concat (map parse_server (map server_text ?ms)) = map server_addr ?ms"
    using plain parse_all_addrs by blast
  ultimately have sv: "servers sm = shuffle (map server_addr ?ms)" "next_index sm = 0"
    by (simp_all add: sm UpdateServers_def servers_string_members)
  have ms: "mset (servers sm) = mset (map server_addr ?ms)" using shuffle by (simp add: sv shuffle_ok_def)
  then have len: "length (servers sm) = length ?ms" using mset_eq_length by fastforce
  then have "servers sm \<noteq> []" using some by auto
  then have "next_servers (length ?ms) sm = servers sm" using round_robin [of sm] sv(2) len by simp
  moreover have "SockAddr (ms_host (master_message env g)) (ucast (ms_port (master_message env g))) = server_addr (?ms ! i)"
    if "env_master env g = Some (member_pair (Start_members options ! i))" "i < length ?ms"
    using that by (simp add: master_message_def member_pair_def Start_members_def server_addr_def port_roundtrip del: unsigned_of_nat)
  ultimately show ?thesis using ms by simp
qed

lemma printable_plain: "printable m \<Longrightarrow> plain_host m"
  by (simp add: printable_def plain_host_def piece_def colon_def)

text \<open>C38: from the command line of the servers to the clients. If every server is started with its own description and
  the list of all of them, as text, then its options hold exactly these servers; the list that it sends to its
  clients after a change of the membership gives a client exactly these hosts with their client ports,
  whatever the shuffle: taken in turn, the client tries each of them once before it tries one again; and the
  master that a redirect names is the host and client port of that member.\<close>

theorem command_line_reaches_client:
  assumes split: "split_law CHR '':'' (split '':'')" "split_law CHR '','' (split '','')" and shuffle: "shuffle_ok shuffle"
    and ms: "printable my" "list_all printable ms" "ms \<noteq> []"
  shows "\<exists>options. server_main split (Some path) prog [message_text my, join_with CHR '','' (map message_text ms)] = MainRun options \<and>
    opt_my_server options = my \<and> opt_all_servers options = ms \<and>
    mset (next_servers (length ms) (UpdateServers (split '','') shuffle (servers_string (map member_pair (Start_members options))) sm)) =
      mset (map server_addr ms) \<and>
    (env_master env g = Some (member_pair (Start_members options ! i)) \<and> i < length ms \<longrightarrow>
      SockAddr (ms_host (master_message env g)) (ucast (ms_port (master_message env g))) = server_addr (ms ! i))"
proof -
  note main = server_main_roundtrip [OF split ms(1,2), of path prog]
  let ?o = "ServerOptions_new\<lparr>opt_log_storage_path := path @ ''/log'', opt_keep_log_count := 100, opt_my_server := my, opt_all_servers := ms\<rparr>"
  have "\<forall>m \<in> set (opt_all_servers ?o). plain_host m" using ms(2) printable_plain by (auto simp: list_all_iff)
  from server_list_reaches_client [OF split(2) shuffle this _ refl, of sm env g i] ms(3)
  show ?thesis using main by (intro exI [of _ ?o]) simp
qed

definition ex_servers :: "ServerMessage list" where
  "ex_servers = [ServerMessage_new, ServerMessage_new\<lparr>smsg_id := 2, smsg_host := ''b'', client_port := 7777\<rparr>]"

theorem command_line_reaches_client_witness:
  "\<exists>options. server_main (\<lambda>ds. split_on (hd ds)) (Some ''/srv'') ''saber'' [message_text ServerMessage_new, join_with CHR '','' (map message_text ex_servers)] =
      MainRun options \<and>
    mset (next_servers 2 (UpdateServers (split_on CHR '','') rev (servers_string (map member_pair (Start_members options))) ServerManagerImpl_new)) =
     {#SockAddr ''127.0.0.1'' 6666, SockAddr ''b'' 7777#}"
proof -
  let ?split = "\<lambda>ds. split_on (hd ds)"
  have law: "split_law CHR '':'' (?split '':'')" "split_law CHR '','' (?split '','')" by (simp_all add: split_on_law)
  have "shuffle_ok (rev :: SockAddr list \<Rightarrow> SockAddr list)" by (simp add: shuffle_ok_def)
  moreover have p: "printable ServerMessage_new" "list_all printable ex_servers"
    by (simp_all add: printable_def piece_def ServerMessage_new_def ex_servers_def)
  moreover have "ex_servers \<noteq> []" "length ex_servers = 2" "map server_addr ex_servers = [SockAddr ''127.0.0.1'' 6666, SockAddr ''b'' 7777]"
    by (simp_all add: ex_servers_def server_addr_def ServerMessage_new_def)
  ultimately show ?thesis
    using command_line_reaches_client [OF law, of rev ServerMessage_new ex_servers "''/srv''" "''saber''" ServerManagerImpl_new ex_env 0 0] by auto
qed

section \<open>Pings and idle connections\<close>

text \<open>The number of ticks of the server up to a time, for a timer of period \<open>T\<close> whose first tick is at \<open>ph\<close>, and the
  ticks after one time and up to another.\<close>

definition ticks_until :: "nat \<Rightarrow> nat \<Rightarrow> nat \<Rightarrow> nat" where
  "ticks_until ph T t = (if t < ph then 0 else (t - ph) div T + 1)"

definition ticks_between :: "nat \<Rightarrow> nat \<Rightarrow> nat \<Rightarrow> nat \<Rightarrow> nat" where
  "ticks_between ph T a b = ticks_until ph T b - ticks_until ph T a"

lemma ticks_between_le:
  assumes "0 < T" and "P \<le> k * T"
  shows "ticks_between ph T a (a + P) \<le> k"
proof -
  have "(a + P - ph) div T \<le> (a - ph) div T + k" if "ph \<le> a"
  proof -
    have "a + P - ph \<le> (a - ph) + k * T" using assms that by linarith
    then have "(a + P - ph) div T \<le> ((a - ph) + k * T) div T" by (rule div_le_mono)
    then show ?thesis using assms(1) by simp
  qed
  moreover have "(a + P - ph) div T + 1 \<le> k" if "a < ph" "ph \<le> a + P"
  proof -
    have "a + P - ph < k * T" using assms that by linarith
    then show ?thesis using assms(1) by (simp add: div_less_iff_less_mult Suc_le_eq)
  qed
  ultimately show ?thesis by (auto simp: ticks_between_def ticks_until_def)
qed

lemma ticks_between_all:
  assumes "0 < T" and "k * T < P"
  shows "k < ticks_between (Suc a) T a (a + P)"
proof -
  have "k * T \<le> P - 1" using assms(2) by linarith
  then have "k * T div T \<le> (P - 1) div T" by (rule div_le_mono)
  then show ?thesis using assms by (simp add: ticks_between_def ticks_until_def)
qed

lemma idle_kept_iff:
  assumes T: "0 < T" and n: "0 < n"
  shows "(\<forall>ph a. um_find (snd (fst (run_ops (idle_step (int n))
        (before @ [Touch e] @ replicate (ticks_between ph T a (a + P)) Tick) (bucket_queue_new (int n), [])))) e \<noteq> None) \<longleftrightarrow>
    P \<le> (n - 1) * T"
proof -
  have "um_find (snd (fst (run_ops (idle_step (int n)) (before @ [Touch e] @ replicate k Tick) (bucket_queue_new (int n), [])))) e = None \<longleftrightarrow>
      n \<le> k" for k
    using idle_closed_after [of "int n" e "replicate k Tick" before] n by (simp add: ticks_def)
  then have "?thesis \<longleftrightarrow> ((\<forall>ph a. ticks_between ph T a (a + P) < n) \<longleftrightarrow> P \<le> (n - 1) * T)" by (simp add: not_le)
  moreover have "(\<forall>ph a. ticks_between ph T a (a + P) < n) \<longleftrightarrow> P \<le> (n - 1) * T"
  proof
    assume all: "\<forall>ph a. ticks_between ph T a (a + P) < n"
    show "P \<le> (n - 1) * T"
    proof (rule ccontr)
      assume "\<not> P \<le> (n - 1) * T"
      then have "n - 1 < ticks_between (Suc 0) T 0 (0 + P)" by (intro ticks_between_all [OF T]) simp
      then show False using all [rule_format, of "Suc 0" 0] n by simp
    qed
  next
    assume "P \<le> (n - 1) * T"
    then have "ticks_between ph T a (a + P) \<le> n - 1" for ph a by (rule ticks_between_le [OF T])
    then have "ticks_between ph T a (a + P) < n" for ph a using n by (meson diff_less le_less_trans zero_less_one)
    then show "\<forall>ph a. ticks_between ph T a (a + P) < n" by blast
  qed
  ultimately show ?thesis by blast
qed

lemma unat_ping_interval:
  fixes t :: u32
  shows "unat (ping_interval (ucast t)) = (if unat t < 12000 then unat t * 4 div 5 else unat t - 3000)"
proof -
  have b: "unat t < 4294967296" using unsigned_less [of t, where ?'a = nat] by simp
  have u: "unat (ucast t :: u64) = unat t" using b by (simp add: unsigned_ucast_eq take_bit_nat_eq_self)
  have l: "(ucast t :: u64) < 12000 \<longleftrightarrow> unat t < 12000" by (simp add: word_less_nat_alt u)
  have "unat ((ucast t :: u64) * 4) = unat t * 4" using b by (simp add: unat_word_ariths u)
  then have "unat ((ucast t :: u64) * 4 div 5) = unat t * 4 div 5" by (simp add: unat_div)
  moreover have "unat ((ucast t :: u64) - 3000) = unat t - 3000" if "\<not> unat t < 12000"
    using that by (subst unat_sub) (simp_all add: word_le_nat_alt u)
  ultimately show ?thesis by (simp add: ping_interval_def l)
qed

text \<open>When a ping keeps a connection alive. The server announces its timeout of \<open>n\<close> ticks in the reply to the connect request,
  and a client that has nothing to send pings in the interval it takes from it; the ping arrives \<open>d\<close>
  milliseconds after it was sent. Whatever the phase of the timer, the server keeps the connection until then, exactly if
  tick and delay together do not exceed a fifth of the timeout (rounded up) when that is below twelve seconds, and three
  seconds otherwise.\<close>

lemma ping_keeps_connection_iff:
  fixes timeout tick :: u32
  assumes n: "unat timeout = n * unat tick" "0 < n" "0 < unat tick"
    and P: "PingEvery P \<in> set (snd (client_OnConnect pb p m c))" and r: "cnr_timeout (parse_ConnectResponse pb (sm_data m)) = ucast timeout"
  shows "(\<forall>ph a. um_find (snd (fst (run_ops (idle_step (int n))
        (before @ [Touch e] @ replicate (ticks_between ph (unat tick) a (a + (unat P + d))) Tick) (bucket_queue_new (int n), [])))) e \<noteq> None) \<longleftrightarrow>
    unat tick + d \<le> (if unat timeout < 12000 then (unat timeout + 4) div 5 else 3000)"
proof -
  have no_ping: "PingEvery x \<notin> set (snd (TriggerState c'))" "PingEvery x \<notin> set (snd (client_OnConnection pb p c'))" for x c'
    by (auto simp: client_OnConnection_def set_state_def TriggerState_def Let_def case_prod_beta)
  have "P = ping_interval (ucast timeout)"
    using P no_ping unfolding client_OnConnect_def r [symmetric]
    by (auto simp: Let_def case_prod_beta split: if_splits)
  then have U: "unat P = (if unat timeout < 12000 then unat timeout * 4 div 5 else unat timeout - 3000)"
    by (simp add: unat_ping_interval)
  have "(n - 1) * unat tick = unat timeout - unat tick" "unat tick \<le> unat timeout" using n by (simp_all add: diff_mult_distrib)
  then have "unat P + d \<le> (n - 1) * unat tick \<longleftrightarrow> unat P + d + unat tick \<le> unat timeout" by linarith
  also have "\<dots> \<longleftrightarrow> unat tick + d \<le> (if unat timeout < 12000 then (unat timeout + 4) div 5 else 3000)"
    unfolding U by (cases "unat timeout < 12000") (simp_all, linarith+)
  finally show ?thesis using idle_kept_iff [OF n(3,2)] by simp
qed

text \<open>The default of twelve seconds and three-second ticks leaves no time for the ping to travel, and four
  ticks of two or five seconds are already too short.\<close>

lemma default_ping_has_no_margin:
  "unat (ping_interval (ucast (opt_session_timeout ServerOptions_new))) = (4 - 1) * unat (opt_tick_time ServerOptions_new)"
  "\<not> unat (ping_interval 8000) \<le> (4 - 1) * 2000" "\<not> unat (ping_interval 20000) \<le> (4 - 1) * 5000"
  by code_simp+

section \<open>A request that is answered twice\<close>

text \<open>A client that reconnects sends its unanswered requests again. If the server still has the session, and the
  proposal of the first attempt is still under way, the session answers both: the reply of the first goes to the
  new connection, and then the second attempt is proposed and answered again, with the same number. The write is
  executed twice, and the second reply is one that takes requests from the queue of the client without calling them back.\<close>

definition ex_answered_twice :: "u32 list" where
  "ex_answered_twice =
     (let m = ex_msg MT_CREATE 1 ''/a/x'';
          (b, s, db, out) = OnMessage ex_pb ex_env m ex_session ex_db;
          first = hd (eff_proposed out);
          s = OnConnect (Some 2) s;
          (b, s, db, out) = OnMessage ex_pb ex_env m s db;
          (s, out1) = WeakCallback ex_pb ex_env True first s;
          (s, db, out) = HandleMessage ex_pb ex_env (hd (eff_queued out1)) s db;
          (s, out2) = WeakCallback ex_pb ex_env True (hd (eff_proposed out)) s
      in map sm_id (eff_sent out1 @ eff_sent out2))"

lemma reconnect_answers_twice: "ex_answered_twice = [1, 1]"
  by code_simp

end
