(* ===== verification/Link.thy ===== *)
theory Link
  imports SaberClient_Props SaberSession_Props
begin

text \<open>
  A client and the session that serves it, over one connection that stays up, at a server that stays the master. The
  connection is a queue of messages in each direction. The application makes requests, the client pings, messages
  arrive, the session works on them and on the answers to its proposals, watches fire, and the log of the group
  changes the database, in any order.
\<close>

record link =
  lk_client :: SaberClient
  lk_sys :: session_sys
  lk_up :: "SaberMessage list"
  lk_down :: "SaberMessage list"
  lk_issued :: "u32 list"
  lk_calls :: "(SaberRequest \<times> ResponseCode) list"

definition steady :: "node_env \<Rightarrow> SaberSession \<Rightarrow> bool" where
  "steady env s \<longleftrightarrow> env_is_master env (sess_group s) \<and> lock_conn env s \<noteq> None"

text \<open>What the session sends goes down to the client.\<close>

definition lk_absorb :: "SaberSession \<Rightarrow> SaberDB \<Rightarrow> session_effect list \<Rightarrow> session_sys \<Rightarrow> link \<Rightarrow> link" where
  "lk_absorb s db out y z = z\<lparr>lk_sys := absorb s db out y, lk_down := lk_down z @ eff_sent out\<rparr>"

text \<open>A request gets the next number; the numbers do not wrap in the life of a client.\<close>

inductive link_step :: "pb_codec \<Rightarrow> (string \<Rightarrow> string list) \<Rightarrow> (SockAddr list \<Rightarrow> SockAddr list) \<Rightarrow> link \<Rightarrow> link \<Rightarrow> bool"
  for pb split shuffle where
  request: "op_request pb op \<noteq> None \<Longrightarrow> unat (message_id (lk_client z)) + 1 < 2 ^ 32 \<Longrightarrow>
     do_client_op pb p op (lk_client z) = (c, out) \<Longrightarrow>
     link_step pb split shuffle z (z\<lparr>lk_client := c, lk_up := lk_up z @ sent out, lk_issued := lk_issued z @ ids (sent out)\<rparr>)"
| ping: "link_step pb split shuffle z (z\<lparr>lk_up := lk_up z @ sent (client_OnTimer p)\<rparr>)"
| arrive: "lk_up z = m # up \<Longrightarrow> y = lk_sys z \<Longrightarrow> steady env (sys_sess y) \<Longrightarrow>
     OnMessage pb env m (sys_sess y) (sys_db y) = (b, s, db, out) \<Longrightarrow>
     link_step pb split shuffle z (lk_absorb s db out (y\<lparr>sys_received := sys_received y @ [m]\<rparr>) (z\<lparr>lk_up := up\<rparr>))"
| work: "y = lk_sys z \<Longrightarrow> sys_queued y = m # q \<Longrightarrow> steady env (sys_sess y) \<Longrightarrow>
     HandleMessage pb env m (sys_sess y) (sys_db y) = (s, db, out) \<Longrightarrow>
     link_step pb split shuffle z (lk_absorb s db out (y\<lparr>sys_queued := q\<rparr>) z)"
| answer: "y = lk_sys z \<Longrightarrow> sys_proposed y = m # q \<Longrightarrow> steady env (sys_sess y) \<Longrightarrow>
     WeakCallback pb env ok (m\<lparr>sm_data := d\<rparr>) (sys_sess y) = (s, out) \<Longrightarrow>
     link_step pb split shuffle z (lk_absorb s (sys_db y) out (y\<lparr>sys_proposed := q\<rparr>) z)"
| log_moves: "link_step pb split shuffle z (z\<lparr>lk_sys := (lk_sys z)\<lparr>sys_db := db\<rparr>\<rparr>)"
| watch_fires: "link_step pb split shuffle z (z\<lparr>lk_down := lk_down z @ eff_sent (Process pb env event (sys_sess (lk_sys z)))\<rparr>)"
| deliver: "lk_down z = m # down \<Longrightarrow> client_OnMessage pb split shuffle p m (lk_client z) = ((c, out), b) \<Longrightarrow>
     link_step pb split shuffle z (z\<lparr>lk_client := c, lk_down := down, lk_calls := lk_calls z @ callbacks out\<rparr>)"

text \<open>The link starts when the client has been accepted and has nothing to send again.\<close>

definition fresh_client :: "SaberClient \<Rightarrow> bool" where
  "fresh_client c \<longleftrightarrow> can_send c \<and> outgoing_queue c = [] \<and> (\<forall>ty. queue_of ty c = [])"

inductive link_reach :: "pb_codec \<Rightarrow> (string \<Rightarrow> string list) \<Rightarrow> (SockAddr list \<Rightarrow> SockAddr list) \<Rightarrow> link \<Rightarrow> bool"
  for pb split shuffle where
  link_start: "fresh_client c \<Longrightarrow> link_reach pb split shuffle
     \<lparr>lk_client = c, lk_sys = session_init (SaberSession_new root g sid self (Some p)) db, lk_up = [], lk_down = [], lk_issued = [], lk_calls = []\<rparr>"
| link_next: "link_reach pb split shuffle z \<Longrightarrow> link_step pb split shuffle z z' \<Longrightarrow> link_reach pb split shuffle z'"

section \<open>Tags: the kinds and numbers of requests\<close>

definition tags :: "SaberMessage list \<Rightarrow> (MessageType \<times> u32) list" where
  "tags ms = map (\<lambda>m. (sm_type m, sm_id m)) (filter (\<lambda>m. is_request (sm_type m)) ms)"

lemma tags_simps [simp]:
  "tags [] = []" "tags (m # ms) = (if is_request (sm_type m) then (sm_type m, sm_id m) # tags ms else tags ms)"
  "tags (ms @ ms') = tags ms @ tags ms'"
  by (simp_all add: tags_def)

definition from_client :: "SaberMessage \<Rightarrow> bool" where
  "from_client m \<longleftrightarrow> is_request (sm_type m) \<or> sm_type m = MT_PING"

lemma is_request_simps [simp]:
  "is_request MT_CREATE" "is_request MT_DELETE" "is_request MT_EXISTS" "is_request MT_GETDATA" "is_request MT_SETDATA"
  "is_request MT_GETCHILDREN" "\<not> is_request MT_PING" "\<not> is_request MT_MASTER" "\<not> is_request MT_CLOSE" "\<not> is_request MT_NOTIFICATION"
  by (simp_all add: is_request_def)

lemma from_clientD: "from_client m \<Longrightarrow> sm_type m \<noteq> MT_MASTER \<and> sm_type m \<noteq> MT_CLOSE"
  by (auto simp: from_client_def is_request_def)

section \<open>The session passes every request on\<close>

text \<open>The contract of a function that works on \<open>m\<close> while the connection is up: what it sends, queues, proposes and keeps are the
  requests it had, in their order.\<close>

definition passes :: "SaberMessage \<Rightarrow> SaberSession \<Rightarrow> SaberSession \<Rightarrow> session_effect list \<Rightarrow> bool" where
  "passes m s s' out \<longleftrightarrow>
     (from_client m \<and> list_all from_client (pending_messages s) \<and> \<not> closed s \<longrightarrow>
      tags (eff_sent out) @ tags (eff_queued out @ eff_proposed out) @ tags (pending_messages s') =
        tags [m] @ tags (pending_messages s) \<and>
      list_all from_client (eff_queued out @ eff_proposed out @ pending_messages s') \<and> \<not> closed s' \<and>
      conn_wp s' = conn_wp s \<and> sess_group s' = sess_group s)"

lemma passes_cong: "sm_id m' = sm_id m \<Longrightarrow> sm_type m' = sm_type m \<Longrightarrow> passes m' s s' out \<Longrightarrow> passes m s s' out"
  by (simp add: passes_def from_client_def)

lemma SetFailedState_type [simp]: "sm_type (SetFailedState pb m) = sm_type m"
  by (simp add: SetFailedState_def split: MessageType.splits)

lemma passes_Done: "lock_conn env s \<noteq> None \<Longrightarrow> Done env m s = (s', out) \<Longrightarrow> passes m s s' out"
  using from_clientD [of m] by (auto simp: Done_def Let_def passes_def from_client_def split: if_splits list.splits option.splits)

lemma passes_Propose:
  assumes "lock_conn env s \<noteq> None" and "Propose pb env m s = (s', out)"
  shows "passes m s s' out"
proof (cases "\<exists>r v. (s', out) = (s, [ProposeEntry (sess_group s) v r]) \<and> sm_id r = sm_id m \<and> sm_type r = sm_type m")
  case True
  then show ?thesis by (auto simp: passes_def from_client_def)
next
  case False
  then obtain r where "Done env r s = (s', out)" "sm_id r = sm_id m" "sm_type r = sm_type m"
    using assms(2) by (auto simp: Propose_def Let_def split: if_splits)
  then show ?thesis using passes_Done [OF assms(1)] passes_cong by blast
qed

lemma passes_WeakCallback:
  assumes "lock_conn env s \<noteq> None" and "WeakCallback pb env ok (m\<lparr>sm_data := d\<rparr>) s = (s', out)"
  shows "passes m s s' out"
proof -
  let ?r = "(if ok then m\<lparr>sm_data := d\<rparr> else SetFailedState pb (m\<lparr>sm_data := d\<rparr>))\<lparr>sm_extra_data := []\<rparr>"
  have "passes ?r s s' out" using assms by (intro passes_Done) (simp_all add: WeakCallback_def)
  then show ?thesis by (rule passes_cong [rotated -1]) simp_all
qed

lemma DoIt_switch_type: "sm_type (fst (DoIt_switch pb env m s db)) = sm_type m"
  by (cases "sm_type m") (simp_all add: DoIt_switch_def Let_def case_prod_beta)

lemma passes_HandleMessage:
  assumes st: "steady env s" and H: "HandleMessage pb env m s db = (s', db', out)"
  shows "passes m s s' out"
proof (cases "sm_type m = MT_MASTER")
  case True
  then show ?thesis by (simp add: passes_def from_client_def)
next
  case False
  obtain m1 db1 fin where D: "DoIt_switch pb env m s db = (m1, db1, fin)" by (cases "DoIt_switch pb env m s db") auto
  have m1: "sm_id m1 = sm_id m" "sm_type m1 = sm_type m"
    using DoIt_switch_id [of pb env m s db] DoIt_switch_type [of pb env m s db] by (simp_all add: D)
  have "passes m1 s s' out"
    using st H False passes_Done [of env s m1] passes_Propose [of env s pb m1]
    by (auto simp: HandleMessage_def DoIt_def D Let_def steady_def split: if_splits prod.splits)
  then show ?thesis using m1 by (rule passes_cong [rotated -1])
qed

section \<open>The invariant of the session\<close>

definition at_work :: "session_sys \<Rightarrow> (MessageType \<times> u32) list" where
  "at_work y = tags (sys_queued y @ sys_proposed y) @ tags (pending_messages (sys_sess y))"

definition open_sys :: "session_sys \<Rightarrow> bool" where
  "open_sys y \<longleftrightarrow> session_inv y \<and> \<not> closed (sys_sess y) \<and> conn_wp (sys_sess y) \<noteq> None \<and>
     list_all from_client (sys_queued y @ sys_proposed y @ pending_messages (sys_sess y))"

lemma open_sys_init: "open_sys (session_init (SaberSession_new root g sid self (Some p)) db)"
  using session_inv_init by (simp add: open_sys_def) (simp add: session_init_def SaberSession_new_def)

lemma open_absorb:
  assumes P: "passes m s s' out" and m: "from_client m" "list_all from_client (pending_messages s)" "\<not> closed s" "conn_wp s \<noteq> None"
    and idle: "sys_queued y = []" "sys_proposed y = []" and inv: "session_inv (absorb s' db out y)"
  shows "open_sys (absorb s' db out y)" and "tags (eff_sent out) @ at_work (absorb s' db out y) = tags [m] @ tags (pending_messages s)"
  using P m idle inv unfolding passes_def open_sys_def at_work_def absorb_def by auto

text \<open>Every step of the session in the link takes the tags of its message and gives them to the connection or keeps them.\<close>

lemma open_arrive:
  assumes ok: "open_sys y" and m: "from_client m" and st: "steady env (sys_sess y)"
    and E: "OnMessage pb env m (sys_sess y) (sys_db y) = (b, s, db, out)"
  defines "y' \<equiv> absorb s db out (y\<lparr>sys_received := sys_received y @ [m]\<rparr>)"
  shows "open_sys y'" and "tags (eff_sent out) @ at_work y' = at_work y @ tags [m]"
proof -
  let ?s = "sys_sess y"
  have inv: "session_inv y'" using step_on_message [OF _ E] ok by (simp add: open_sys_def y'_def)
  have o: "\<not> closed ?s" "list_all from_client (pending_messages ?s)" "conn_wp ?s \<noteq> None" using ok by (simp_all add: open_sys_def)
  have nc: "stamp_close pb ?s m = m" using from_clientD [OF m] by (simp add: stamp_close_def)
  consider (skip) "sm_type m = MT_PING" "pending_messages ?s \<noteq> []"
    | (run) "last_finished ?s" "\<not> (sm_type m = MT_PING \<and> pending_messages ?s \<noteq> [])"
    | (wait) "\<not> last_finished ?s" "\<not> (sm_type m = MT_PING \<and> pending_messages ?s \<noteq> [])" by blast
  then have "open_sys y' \<and> tags (eff_sent out) @ at_work y' = at_work y @ tags [m]"
  proof cases
    case skip
    then have "s = ?s" "db = sys_db y" "out = []" using E o by (auto simp: OnMessage_def)
    then show ?thesis using ok inv skip by (simp add: y'_def open_sys_def at_work_def absorb_def)
  next
    case run
    have idle: "sys_queued y = []" "sys_proposed y = []" "pending_messages ?s = []"
      using ok run(1) by (auto simp: open_sys_def session_inv_def)
    have "HandleMessage pb env m (?s\<lparr>last_finished := False\<rparr>) (sys_db y) = (s, db, out)"
      using E o run by (auto simp: OnMessage_def nc)
    moreover have "steady env (?s\<lparr>last_finished := False\<rparr>)" using st by (simp add: steady_def lock_conn_def)
    ultimately have P: "passes m (?s\<lparr>last_finished := False\<rparr>) s out" by (intro passes_HandleMessage)
    show ?thesis using open_absorb [OF P m _ _ _ _ _ inv [unfolded y'_def]] o idle by (simp add: y'_def at_work_def)
  next
    case wait
    then have "s = ?s\<lparr>pending_messages := pending_messages ?s @ [m]\<rparr>" "db = sys_db y" "out = []"
      using E o from_clientD [OF m] by (auto simp: OnMessage_def nc Let_def)
    then show ?thesis using ok inv m by (simp add: y'_def open_sys_def at_work_def absorb_def)
  qed
  then show "open_sys y'" "tags (eff_sent out) @ at_work y' = at_work y @ tags [m]" by blast+
qed

lemma open_busy:
  assumes "open_sys y" and "sys_queued y @ sys_proposed y \<noteq> []"
  shows "\<not> last_finished (sys_sess y)" and "length (sys_queued y @ sys_proposed y) = 1"
  using assms by (auto simp: open_sys_def session_inv_def split: if_splits)

lemma open_work:
  assumes ok: "open_sys y" and q: "sys_queued y = m # q" and st: "steady env (sys_sess y)"
    and H: "HandleMessage pb env m (sys_sess y) (sys_db y) = (s, db, out)"
  defines "y' \<equiv> absorb s db out (y\<lparr>sys_queued := q\<rparr>)"
  shows "open_sys y'" and "tags (eff_sent out) @ at_work y' = at_work y"
proof -
  have "q = []" "sys_proposed y = []" using open_busy [OF ok] q by auto
  moreover have "session_inv y'"
    using session_step_inv [OF run_queued [OF q H]] ok by (simp add: open_sys_def y'_def)
  moreover have "from_client m" "list_all from_client (pending_messages (sys_sess y))" "\<not> closed (sys_sess y)"
    "conn_wp (sys_sess y) \<noteq> None" using ok q by (auto simp: open_sys_def)
  ultimately show "open_sys y'" "tags (eff_sent out) @ at_work y' = at_work y"
    using open_absorb [OF passes_HandleMessage [OF st H], of "y\<lparr>sys_queued := q\<rparr>" db] q by (simp_all add: y'_def at_work_def)
qed

lemma open_answer:
  assumes ok: "open_sys y" and q: "sys_proposed y = m # q" and st: "steady env (sys_sess y)"
    and W: "WeakCallback pb env acc (m\<lparr>sm_data := d\<rparr>) (sys_sess y) = (s, out)"
  defines "y' \<equiv> absorb s (sys_db y) out (y\<lparr>sys_proposed := q\<rparr>)"
  shows "open_sys y'" and "tags (eff_sent out) @ at_work y' = at_work y"
proof -
  have "q = []" "sys_queued y = []" using open_busy [OF ok] q by auto
  moreover have "session_inv y'"
    using session_step_inv [OF callback [OF q W]] ok by (simp add: open_sys_def y'_def)
  moreover have "from_client m" "list_all from_client (pending_messages (sys_sess y))" "\<not> closed (sys_sess y)"
    "conn_wp (sys_sess y) \<noteq> None" using ok q by (auto simp: open_sys_def)
  moreover have "lock_conn env (sys_sess y) \<noteq> None" using st by (simp add: steady_def)
  ultimately show "open_sys y'" "tags (eff_sent out) @ at_work y' = at_work y"
    using open_absorb [OF passes_WeakCallback [OF _ W], of "y\<lparr>sys_proposed := q\<rparr>" "sys_db y"] q by (simp_all add: y'_def at_work_def)
qed

end
