(* ===== verification/Link_Props.thy ===== *)
theory Link_Props
  imports Link
begin

text \<open>
  The client's half of the link and the invariant of both: the requests that were not called back are, in their
  order, those on the way down, those the session has, and those on the way up.
\<close>

section \<open>The invariant of the client\<close>

definition client_ok :: "SaberClient \<Rightarrow> bool" where
  "client_ok c \<longleftrightarrow> can_send c \<and> list_all (\<lambda>m. is_request (sm_type m)) (outgoing_queue c) \<and>
     sorted_wrt (<) (ids (outgoing_queue c)) \<and> list_all (\<lambda>m. sm_id m \<le> message_id c) (outgoing_queue c) \<and>
     (\<forall>ty. is_request ty \<longrightarrow> map rq_id (queue_of ty c) = ids (filter (\<lambda>m. sm_type m = ty) (outgoing_queue c)))"

lemma client_ok_fresh: "fresh_client c \<Longrightarrow> client_ok c"
  by (simp add: client_ok_def fresh_client_def)

text \<open>A request: the operation either refuses the path or adds the same number to both queues and sends it.\<close>

lemma next_id:
  assumes "unat (message_id c) + 1 < 2 ^ 32" and "x \<le> message_id c"
  shows "x < message_id c + 1"
proof -
  have "message_id c < message_id c + 1" using assms(1) by (simp add: word_less_nat_alt unat_word_ariths)
  then show ?thesis using assms(2) by (rule le_less_trans [rotated])
qed

lemma client_ok_extend:
  assumes "client_ok c" and w: "unat (message_id c) + 1 < 2 ^ 32" and ty: "is_request (sm_type m)" "sm_id m = message_id c + 1"
    and c': "can_send c'" "outgoing_queue c' = outgoing_queue c @ [m]" "message_id c' = message_id c + 1"
      "\<And>t. queue_of t c' = (if t = sm_type m then queue_of t c @ [r] else queue_of t c)" "rq_id r = message_id c + 1"
  shows "client_ok c'"
  using assms next_id [OF w] by (auto simp: client_ok_def sorted_wrt_append list_all_iff less_imp_le)

lemma client_ok_request:
  assumes ok: "client_ok c" and w: "unat (message_id c) + 1 < 2 ^ 32" and op: "op_request pb op \<noteq> None"
    and E: "do_client_op pb p op c = (c', out)"
  shows "client_ok c'" and "outgoing_queue c' = outgoing_queue c @ sent out"
    and "list_all (\<lambda>m. is_request (sm_type m)) (sent out)"
    and "sent out = [] \<and> message_id c' = message_id c \<or>
      (\<exists>m. sent out = [m] \<and> sm_id m = message_id c + 1 \<and> message_id c' = message_id c + 1)"
proof -
  have cs: "can_send c" using ok by (simp add: client_ok_def)
  consider (refused) "c' = c" "out = []"
    | (taken) m r where "is_request (sm_type m)" "sm_id m = message_id c + 1" "sent out = [m]" "can_send c'"
      "outgoing_queue c' = outgoing_queue c @ [m]" "message_id c' = message_id c + 1" "rq_id r = message_id c + 1"
      "\<And>t. queue_of t c' = (if t = sm_type m then queue_of t c @ [r] else queue_of t c)"
  proof (cases "op_message pb op c")
    case Nil
    then show ?thesis using op E that(1)
      by (cases op) (auto simp: op_message_def request_defs split: if_splits)
  next
    case (Cons m ms)
    let ?r = "hd (filter (\<lambda>r. rq_id r = message_id c + 1) (rev (queue_of (sm_type m) c')))"
    show ?thesis
    proof (rule that(2) [of m ?r])
      show "queue_of t c' = (if t = sm_type m then queue_of t c @ [?r] else queue_of t c)" for t
        using op E Cons by (cases op; cases t) (auto simp: op_message_def request_defs TrySendInLoop_def new_request_def Let_def split: if_splits)
      show "rq_id ?r = message_id c + 1"
        using op E Cons by (cases op) (auto simp: op_message_def request_defs TrySendInLoop_def new_request_def Let_def split: if_splits)
    qed (use op E Cons cs in \<open>(cases op; auto simp: op_message_def request_defs TrySendInLoop_def new_message_def Let_def split: if_splits)+\<close>)
  qed
  then have "client_ok c' \<and> outgoing_queue c' = outgoing_queue c @ sent out \<and> list_all (\<lambda>m. is_request (sm_type m)) (sent out) \<and>
      (sent out = [] \<and> message_id c' = message_id c \<or>
       (\<exists>m. sent out = [m] \<and> sm_id m = message_id c + 1 \<and> message_id c' = message_id c + 1))"
  proof cases
    case refused
    then show ?thesis using ok by simp
  next
    case (taken m r)
    then show ?thesis using client_ok_extend [OF ok w taken(1,2,4-6,8,7)] by simp
  qed
  then show "client_ok c'" "outgoing_queue c' = outgoing_queue c @ sent out" "list_all (\<lambda>m. is_request (sm_type m)) (sent out)"
    "sent out = [] \<and> message_id c' = message_id c \<or>
      (\<exists>m. sent out = [m] \<and> sm_id m = message_id c + 1 \<and> message_id c' = message_id c + 1)" by blast+
qed

text \<open>The reply to the oldest request calls it back and takes it from both queues.\<close>

lemma client_ok_reply:
  assumes ok: "client_ok c" and q: "outgoing_queue c = h # rest" and m: "sm_type m = sm_type h" "sm_id m = sm_id h"
    and E: "client_OnMessage pb split shuffle p m c = ((c', out), b)"
  shows "client_ok c'" and "outgoing_queue c' = rest" and "message_id c' = message_id c"
    and "\<exists>r. callbacks out = [(r, reply_code pb (sm_type m) (sm_data m))] \<and> rq_id r = sm_id m"
proof -
  have ty: "is_request (sm_type m)" using ok q m by (simp add: client_ok_def)
  have ids: "map rq_id (queue_of (sm_type m) c) = sm_id m # ids (filter (\<lambda>x. sm_type x = sm_type m) rest)"
    using ok q m ty by (simp add: client_ok_def)
  then obtain r later where Q: "queue_of (sm_type m) c = r # later" and r: "rq_id r = sm_id m"
    and later: "map rq_id later = ids (filter (\<lambda>x. sm_type x = sm_type m) rest)"
    by (cases "queue_of (sm_type m) c") auto
  have M: "match_request (sm_id m) (queue_of (sm_type m) c) = ([], Some r, later)" using r by (simp add: Q)
  note cr = client_reply [OF ty M E]
  have gt: "\<forall>x \<in> set rest. sm_id m < sm_id x" using ok q m by (auto simp: client_ok_def)
  then have "dropWhile (\<lambda>x. sm_id x \<le> sm_id m) rest = rest" by (cases rest) (auto simp: not_le [symmetric])
  then show o: "outgoing_queue c' = rest" using cr(3) q m by (simp add: pop_outgoing_def)
  have frame: "can_send c' = can_send c \<and> message_id c' = message_id c"
    using ty E by (auto simp: client_OnMessage_def is_request_def reply_defs answered_def add_watch_def Let_def case_prod_beta
        split: option.splits if_splits)
  then show "message_id c' = message_id c" by blast
  have "map rq_id (queue_of t c') = ids (filter (\<lambda>m. sm_type m = t) rest)" if "is_request t" for t
    using cr(2) [of t] later ok q m that by (auto simp: client_ok_def)
  then show "client_ok c'" using ok frame o q by (auto simp: client_ok_def)
  show "\<exists>r. callbacks out = [(r, reply_code pb (sm_type m) (sm_data m))] \<and> rq_id r = sm_id m" using cr(1) r by simp
qed

lemma client_ok_notification:
  assumes ok: "client_ok c" and m: "sm_type m = MT_NOTIFICATION" and E: "client_OnMessage pb split shuffle p m c = ((c', out), b)"
  shows "client_ok c'" and "outgoing_queue c' = outgoing_queue c" and "message_id c' = message_id c" and "callbacks out = []"
proof -
  have f: "outgoing_queue c' = outgoing_queue c" "message_id c' = message_id c" "can_send c' = can_send c" "callbacks out = []"
    using E by (auto simp: client_OnMessage_def m OnNotification_def Let_def case_prod_beta)
  have "queue_of t c' = queue_of t c" for t
    using E by (intro queue_of_cong) (auto simp: client_OnMessage_def m OnNotification_def Let_def case_prod_beta)
  then show "client_ok c'" using ok f by (simp add: client_ok_def)
  show "outgoing_queue c' = outgoing_queue c" "message_id c' = message_id c" "callbacks out = []" by (rule f)+
qed

section \<open>The invariant of the link\<close>

definition reply_view :: "pb_codec \<Rightarrow> SaberMessage list \<Rightarrow> (u32 \<times> ResponseCode) list" where
  "reply_view pb ms = map (\<lambda>m. (sm_id m, reply_code pb (sm_type m) (sm_data m))) (filter (\<lambda>m. is_request (sm_type m)) ms)"

abbreviation call_view :: "(SaberRequest \<times> ResponseCode) list \<Rightarrow> (u32 \<times> ResponseCode) list" where
  "call_view \<equiv> map (\<lambda>(r, code). (rq_id r, code))"

definition link_ok :: "pb_codec \<Rightarrow> link \<Rightarrow> bool" where
  "link_ok pb z \<longleftrightarrow> client_ok (lk_client z) \<and> open_sys (lk_sys z) \<and> list_all from_client (lk_up z) \<and>
     list_all (\<lambda>m. is_request (sm_type m) \<or> sm_type m = MT_NOTIFICATION) (lk_down z) \<and>
     tags (lk_down z) @ at_work (lk_sys z) @ tags (lk_up z) = tags (outgoing_queue (lk_client z)) \<and>
     map (rq_id \<circ> fst) (lk_calls z) @ ids (outgoing_queue (lk_client z)) = lk_issued z \<and>
     sorted_wrt (<) (lk_issued z) \<and> list_all (\<lambda>i. i \<le> message_id (lk_client z)) (lk_issued z) \<and>
     call_view (lk_calls z) @ reply_view pb (lk_down z) = reply_view pb (sys_sent (lk_sys z))"

lemma reply_view_simps [simp]:
  "reply_view pb [] = []" "reply_view pb (ms @ ms') = reply_view pb ms @ reply_view pb ms'"
  "reply_view pb (m # ms) =
     (if is_request (sm_type m) then (sm_id m, reply_code pb (sm_type m) (sm_data m)) # reply_view pb ms else reply_view pb ms)"
  by (simp_all add: reply_view_def)

lemma sent_kinds:
  "Done env m s = (s', out) \<Longrightarrow> from_client m \<Longrightarrow> list_all (\<lambda>m. is_request (sm_type m)) (eff_sent out)"
  by (auto simp: Done_def Let_def from_client_def split: if_splits list.splits option.splits)

lemma sent_kinds_Propose:
  assumes "Propose pb env m s = (s', out)" and "from_client m"
  shows "list_all (\<lambda>m. is_request (sm_type m)) (eff_sent out)"
proof -
  let ?r = "m\<lparr>sm_extra_data := ser_Transaction pb (propose_txn env s)\<rparr>"
  have "from_client ((SetFailedState pb ?r)\<lparr>sm_extra_data := []\<rparr>)" using assms(2) by (simp add: from_client_def)
  then show ?thesis using assms(1) sent_kinds [of env _ s s' out] by (auto simp: Propose_def Let_def split: if_splits)
qed

text \<open>A step of the session in the link.\<close>

lemma link_ok_absorb:
  assumes ok: "link_ok pb z" and up: "list_all from_client up"
    and y': "open_sys (absorb s db out y)" "sys_sent y = sys_sent (lk_sys z)"
    and t: "tags (eff_sent out) @ at_work (absorb s db out y) @ tags up = at_work (lk_sys z) @ tags (lk_up z)"
    and k: "list_all (\<lambda>m. is_request (sm_type m)) (eff_sent out)"
  shows "link_ok pb (lk_absorb s db out y (z\<lparr>lk_up := up\<rparr>))"
proof -
  have "sys_sent (absorb s db out y) = sys_sent (lk_sys z) @ eff_sent out" using y'(2) by (simp add: absorb_def)
  moreover have "call_view (lk_calls z) @ reply_view pb (lk_down z @ eff_sent out) = reply_view pb (sys_sent (lk_sys z) @ eff_sent out)"
    using ok by (simp add: link_ok_def)
  ultimately show ?thesis using ok up y'(1) t k by (auto simp: link_ok_def lk_absorb_def list_all_iff)
qed

lemma Done_or_proposed:
  assumes "HandleMessage pb env m s db = (s', db', out)" and "from_client m" and "steady env s"
  shows "list_all (\<lambda>m. is_request (sm_type m)) (eff_sent out)"
proof -
  obtain m1 db1 fin where D: "DoIt_switch pb env m s db = (m1, db1, fin)" by (cases "DoIt_switch pb env m s db") auto
  have m1: "from_client m1" using DoIt_switch_type [of pb env m s db] assms(2) by (simp add: D from_client_def)
  have "Done env m1 s = (s', out) \<or> Propose pb env m1 s = (s', out)"
    using assms from_clientD [OF assms(2)]
    by (auto simp: HandleMessage_def DoIt_def D Let_def steady_def split: if_splits prod.splits)
  then show ?thesis using sent_kinds [OF _ m1] sent_kinds_Propose [OF _ m1] by blast
qed

lemma link_ok_step:
  assumes "link_step pb split shuffle z z'" and ok: "link_ok pb z"
  shows "link_ok pb z'"
  using assms(1)
proof cases
  case (request op p c out)
  have "client_ok (lk_client z)" using ok by (simp add: link_ok_def)
  note R = client_ok_request [OF this request(3,2,4)]
  have "list_all from_client (sent out)" using R(3) by (simp add: list_all_iff from_client_def)
  moreover have "sorted_wrt (<) (lk_issued z @ ids (sent out)) \<and> list_all (\<lambda>i. i \<le> message_id c) (lk_issued z @ ids (sent out))"
    using ok R(4) next_id [OF request(3)] by (auto simp: link_ok_def sorted_wrt_append list_all_iff less_imp_le)
  ultimately show ?thesis using ok R(1-3) by (simp add: request(1) link_ok_def)
next
  case (ping p)
  then show ?thesis using ok by (simp add: link_ok_def client_OnTimer_def from_client_def)
next
  case (arrive m up y env b s db out)
  have o: "open_sys y" "from_client m" "list_all from_client up" using ok arrive(2,3) by (auto simp: link_ok_def)
  note A = open_arrive [OF o(1,2) arrive(4,5)]
  have k: "list_all (\<lambda>m. is_request (sm_type m)) (eff_sent out)"
  proof (cases "out = []")
    case False
    then obtain s0 where "HandleMessage pb env m s0 (sys_db y) = (s, db, out)" "steady env s0"
      using arrive(4,5) from_clientD [OF o(2)]
      by (fastforce simp: OnMessage_def stamp_close_def Let_def steady_def lock_conn_def split: if_splits)
    then show ?thesis using Done_or_proposed o(2) by blast
  qed simp
  show ?thesis unfolding arrive(1)
    by (rule link_ok_absorb [OF ok o(3) A(1) _ _ k]) (use A(2) arrive(2,3) in \<open>simp_all split: if_splits\<close>)
next
  case (work y m q env s db out)
  have o: "open_sys y" "from_client m" using ok work(2,3) by (auto simp: link_ok_def open_sys_def)
  note W = open_work [OF o(1) work(3,4,5)]
  have "link_ok pb (lk_absorb s db out (y\<lparr>sys_queued := q\<rparr>) (z\<lparr>lk_up := lk_up z\<rparr>))"
    by (rule link_ok_absorb [OF ok _ W(1) _ _ Done_or_proposed [OF work(5) o(2) work(4)]])
      (use W(2) ok work(2) in \<open>simp_all add: link_ok_def\<close>)
  then show ?thesis by (simp add: work(1))
next
  case (answer y m q env acc d s out)
  have o: "open_sys y" "from_client m" using ok answer(2,3) by (auto simp: link_ok_def open_sys_def)
  note W = open_answer [OF o(1) answer(3,4,5)]
  have k: "list_all (\<lambda>m. is_request (sm_type m)) (eff_sent out)"
    using answer(5) o(2) unfolding WeakCallback_def by (elim sent_kinds) (simp add: from_client_def)
  have "link_ok pb (lk_absorb s (sys_db y) out (y\<lparr>sys_proposed := q\<rparr>) (z\<lparr>lk_up := lk_up z\<rparr>))"
    by (rule link_ok_absorb [OF ok _ W(1) _ _ k]) (use W(2) ok answer(2) in \<open>simp_all add: link_ok_def\<close>)
  then show ?thesis by (simp add: answer(1))
next
  case (log_moves db)
  then show ?thesis using ok by (simp add: link_ok_def open_sys_def at_work_def session_inv_def)
next
  case (watch_fires env event)
  then show ?thesis using ok by (simp add: link_ok_def Process_def)
next
  case (deliver m down p c out b)
  have c: "client_ok (lk_client z)" using ok by (simp add: link_ok_def)
  show ?thesis
  proof (cases "is_request (sm_type m)")
    case True
    then obtain h rest where Q: "outgoing_queue (lk_client z) = h # rest" and h: "sm_type m = sm_type h" "sm_id m = sm_id h"
      and t: "tags down @ at_work (lk_sys z) @ tags (lk_up z) = tags rest"
      using ok deliver(2) by (cases "outgoing_queue (lk_client z)") (auto simp: link_ok_def client_ok_def)
    note R = client_ok_reply [OF c Q h deliver(3)]
    obtain r where "callbacks out = [(r, reply_code pb (sm_type m) (sm_data m))]" "rq_id r = sm_id m" using R(4) by blast
    then show ?thesis using ok R(1-3) t h Q True deliver(2) by (simp add: deliver(1) link_ok_def)
  next
    case False
    then have "sm_type m = MT_NOTIFICATION" using ok deliver(2) by (simp add: link_ok_def)
    note R = client_ok_notification [OF c this deliver(3)]
    then show ?thesis using ok False deliver(2) by (simp add: deliver(1) link_ok_def)
  qed
qed

lemma link_ok_reach: "link_reach pb split shuffle z \<Longrightarrow> link_ok pb z"
proof (induction rule: link_reach.induct)
  case (link_start c root g sid self p db)
  then show ?case using client_ok_fresh [of c] open_sys_init [of root g sid self p db]
    by (simp add: link_ok_def at_work_def session_init_def SaberSession_new_def fresh_client_def)
qed (rule link_ok_step)

end
