(* ===== verification/Link_Claims.thy ===== *)
theory Link_Claims
  imports Link_Props SaberClient_Claims SaberSession_Claims
begin

text \<open>
  The requests of an application from call to callback, over a connection that stays up: exactly once, in order, and
  never stuck.
\<close>

section \<open>Progress\<close>

text \<open>The work that is left: every message gets lighter on its way up, through the session, and down.\<close>

definition sys_weight :: "session_sys \<Rightarrow> nat" where
  "sys_weight y = 4 * length (pending_messages (sys_sess y)) + 3 * length (sys_queued y) + 2 * length (sys_proposed y)"

definition link_weight :: "link \<Rightarrow> nat" where
  "link_weight z = 5 * length (lk_up z) + sys_weight (lk_sys z) + length (lk_down z)"

definition lighter :: "nat \<Rightarrow> SaberSession \<Rightarrow> SaberSession \<Rightarrow> session_effect list \<Rightarrow> bool" where
  "lighter n s s' out \<longleftrightarrow> 4 * length (pending_messages s') + 3 * length (eff_queued out) + 2 * length (eff_proposed out) +
     length (eff_sent out) < n + 4 * length (pending_messages s)"

lemma lighter_Done: "Done env m s = (s', out) \<Longrightarrow> lighter 2 s s' out"
  by (auto simp: Done_def Let_def lighter_def split: if_splits list.splits option.splits)

lemma lighter_mono: "lighter n s s' out \<Longrightarrow> n \<le> k \<Longrightarrow> lighter k s s' out"
  by (simp add: lighter_def)

lemma lighter_entry: "lighter 3 s s [ProposeEntry g v m]"
  by (simp add: lighter_def)

lemma lighter_Propose: "Propose pb env m s = (s', out) \<Longrightarrow> lighter 3 s s' out"
  by (auto simp: Propose_def Let_def lighter_entry split: if_splits dest!: lighter_Done intro: lighter_mono)

lemma lighter_HandleMessage:
  assumes "HandleMessage pb env m s db = (s', db', out)"
  shows "lighter 3 s s' out"
proof -
  have "\<exists>x. Done env x s = (s', out) \<or> Propose pb env x s = (s', out)"
    using assms by (auto simp: HandleMessage_def DoIt_def Let_def split: if_splits prod.splits)
  then show ?thesis using lighter_Propose lighter_mono [OF lighter_Done, of env _ s s' out 3] by fastforce
qed

lemma lighter_OnMessage:
  assumes "OnMessage pb env m s db = (b, s', db', out)"
  shows "lighter 5 s s' out"
  using assms
proof (cases rule: OnMessage_elim)
  case run
  then show ?thesis using lighter_HandleMessage [OF run(3)] by (simp add: lighter_def)
qed (auto simp: lighter_def)

lemma lighter_WeakCallback: "WeakCallback pb env acc m s = (s', out) \<Longrightarrow> lighter 2 s s' out"
  unfolding WeakCallback_def by (rule lighter_Done)

lemma weight_absorb:
  assumes "lighter n (sys_sess y) s' out"
  shows "link_weight (lk_absorb s' db out y z) < n + sys_weight y + length (lk_down z) + 5 * length (lk_up z)"
  using assms by (simp add: lighter_def link_weight_def sys_weight_def lk_absorb_def absorb_def)

text \<open>As long as a request is not called back, some message can move.\<close>

lemma link_moves:
  assumes ok: "link_ok pb z" and waiting: "outgoing_queue (lk_client z) \<noteq> []"
  shows "\<exists>z'. link_step pb split shuffle z z' \<and> link_weight z' < link_weight z \<and> lk_issued z' = lk_issued z"
proof -
  let ?y = "lk_sys z" and ?s = "sys_sess (lk_sys z)"
  let ?env = "\<lparr>env_is_master = (\<lambda>_. True), env_master = (\<lambda>_. None), env_propose = (\<lambda>_ _. True), env_now = 0,
    env_alive = (\<lambda>_. True), env_max_data = 0\<rparr>"
  have st: "steady ?env ?s" using ok by (auto simp: link_ok_def open_sys_def steady_def lock_conn_def)
  have "lk_down z \<noteq> [] \<or> sys_queued ?y \<noteq> [] \<or> sys_proposed ?y \<noteq> [] \<or> lk_up z \<noteq> []"
  proof (rule ccontr)
    assume none: "\<not> ?thesis"
    then have "pending_messages ?s = []" using ok by (auto simp: link_ok_def open_sys_def session_inv_def split: if_splits)
    then have "tags (outgoing_queue (lk_client z)) = []" using ok none by (simp add: link_ok_def at_work_def)
    then show False using ok waiting by (cases "outgoing_queue (lk_client z)") (auto simp: link_ok_def client_ok_def)
  qed
  then consider (down) m d where "lk_down z = m # d" | (queued) m q where "sys_queued ?y = m # q"
    | (proposed) m q where "sys_proposed ?y = m # q" | (up) m u where "lk_up z = m # u" by (meson list.exhaust)
  then show ?thesis
  proof cases
    case down
    obtain c out b where E: "client_OnMessage pb split shuffle None m (lk_client z) = ((c, out), b)" by (metis prod.collapse)
    show ?thesis by (rule exI, rule conjI [OF deliver [OF down E]]) (simp add: down link_weight_def)
  next
    case queued
    obtain s db out where E: "HandleMessage pb ?env m ?s (sys_db ?y) = (s, db, out)" by (metis prod.collapse)
    show ?thesis
      by (rule exI, rule conjI [OF work [OF refl queued st E]])
        (use weight_absorb [of 3 "?y\<lparr>sys_queued := q\<rparr>" s out db z] lighter_HandleMessage [OF E] queued
          in \<open>simp add: link_weight_def sys_weight_def lk_absorb_def\<close>)
  next
    case proposed
    obtain s out where E: "WeakCallback pb ?env True (m\<lparr>sm_data := []\<rparr>) ?s = (s, out)" by (metis prod.collapse)
    show ?thesis
      by (rule exI, rule conjI [OF answer [OF refl proposed st E]])
        (use weight_absorb [of 2 "?y\<lparr>sys_proposed := q\<rparr>" s out "sys_db ?y" z] lighter_WeakCallback [OF E] proposed
          in \<open>simp add: link_weight_def sys_weight_def lk_absorb_def\<close>)
  next
    case up
    obtain b s db out where E: "OnMessage pb ?env m ?s (sys_db ?y) = (b, s, db, out)" by (metis prod.collapse)
    show ?thesis
      by (rule exI, rule conjI [OF arrive [OF up refl st E]])
        (use weight_absorb [of 5 "?y\<lparr>sys_received := sys_received ?y @ [m]\<rparr>" s out db "z\<lparr>lk_up := u\<rparr>"] lighter_OnMessage [OF E] up
          in \<open>simp add: link_weight_def sys_weight_def lk_absorb_def\<close>)
  qed
qed

lemma link_drains:
  assumes "link_ok pb z"
  shows "\<exists>z'. (link_step pb split shuffle)\<^sup>*\<^sup>* z z' \<and> outgoing_queue (lk_client z') = [] \<and> lk_issued z' = lk_issued z"
  using assms
proof (induction z rule: measure_induct_rule [of link_weight])
  case (less z)
  show ?case
  proof (cases "outgoing_queue (lk_client z) = []")
    case False
    then obtain z1 where z1: "link_step pb split shuffle z z1" "link_weight z1 < link_weight z" "lk_issued z1 = lk_issued z"
      using link_moves [OF less.prems] by blast
    have "link_ok pb z1" by (rule link_ok_step [OF z1(1) less.prems])
    then show ?thesis using less.IH [OF z1(2)] z1(1,3) by (metis converse_rtranclp_into_rtranclp)
  qed auto
qed

section \<open>The example link\<close>

definition ex_lpb :: pb_codec where
  "ex_lpb = ex_pb\<lparr>ser_CreateRequest := crq_path\<rparr>"

definition ex_link0 :: link where
  "ex_link0 = \<lparr>lk_client = ex_client0\<lparr>can_send := True\<rparr>, lk_sys = session_init ex_session (SaberDB_new 1), lk_up = [], lk_down = [],
     lk_issued = [], lk_calls = []\<rparr>"

definition ex_link1 :: link where
  "ex_link1 =
     (let (c, out) = do_client_op ex_lpb (Some 1) (OpCreate \<lparr>crq_node_type = NT_EPHEMERAL, crq_path = ''/a'', crq_data = []\<rparr> 0 7) (lk_client ex_link0)
      in ex_link0\<lparr>lk_client := c, lk_up := lk_up ex_link0 @ sent out, lk_issued := lk_issued ex_link0 @ ids (sent out)\<rparr>)"

definition ex_link2 :: link where
  "ex_link2 =
     (let m = hd (lk_up ex_link1); y = lk_sys ex_link1; (b, s, db, out) = OnMessage ex_lpb ex_env m (sys_sess y) (sys_db y)
      in lk_absorb s db out (y\<lparr>sys_received := sys_received y @ [m]\<rparr>) (ex_link1\<lparr>lk_up := tl (lk_up ex_link1)\<rparr>))"

definition ex_link3 :: link where
  "ex_link3 =
     (let y = lk_sys ex_link2; m = hd (sys_proposed y);
          (s, out) = WeakCallback ex_lpb ex_env True (m\<lparr>sm_data := ''/a''\<rparr>) (sys_sess y)
      in lk_absorb s (sys_db y) out (y\<lparr>sys_proposed := tl (sys_proposed y)\<rparr>) ex_link2)"

definition ex_link4 :: link where
  "ex_link4 =
     (let ((c, out), b) = client_OnMessage ex_lpb (\<lambda>s. [s]) id (Some 1) (hd (lk_down ex_link3)) (lk_client ex_link3)
      in ex_link3\<lparr>lk_client := c, lk_down := tl (lk_down ex_link3), lk_calls := lk_calls ex_link3 @ callbacks out\<rparr>)"

abbreviation ex_link_reach :: "link \<Rightarrow> bool" where
  "ex_link_reach \<equiv> link_reach ex_lpb (\<lambda>s. [s]) id"

lemma ex_link0_reach: "ex_link_reach ex_link0"
proof -
  have "queue_of ty (ex_client0\<lparr>can_send := True\<rparr>) = []" for ty by (cases ty) (simp_all add: ex_client0_def SaberClient_new_def)
  then show ?thesis unfolding ex_link0_def ex_session_def
    by (intro link_start) (simp add: fresh_client_def ex_client0_def SaberClient_new_def)
qed

lemma ex_link1_reach: "ex_link_reach ex_link1"
proof -
  let ?op = "OpCreate \<lparr>crq_node_type = NT_EPHEMERAL, crq_path = ''/a'', crq_data = []\<rparr> 0 7"
  obtain c out where E: "do_client_op ex_lpb (Some 1) ?op (lk_client ex_link0) = (c, out)"
    by (cases "do_client_op ex_lpb (Some 1) ?op (lk_client ex_link0)") auto
  have "message_id (lk_client ex_link0) = 0" by code_simp
  then show ?thesis unfolding ex_link1_def E by (simp, intro link_next [OF ex_link0_reach request [OF _ _ E]]) simp_all
qed

lemma ex_link2_reach: "ex_link_reach ex_link2"
proof -
  let ?y = "lk_sys ex_link1" and ?m = "hd (lk_up ex_link1)"
  obtain b s db out where E: "OnMessage ex_lpb ex_env ?m (sys_sess ?y) (sys_db ?y) = (b, s, db, out)" by (metis prod.collapse)
  have "lk_up ex_link1 = ?m # tl (lk_up ex_link1)" "steady ex_env (sys_sess ?y)" by code_simp+
  then show ?thesis unfolding ex_link2_def Let_def E prod.case by (intro link_next [OF ex_link1_reach arrive [OF _ refl _ E]])
qed

lemma ex_link3_reach: "ex_link_reach ex_link3"
proof -
  let ?y = "lk_sys ex_link2" and ?m = "hd (sys_proposed (lk_sys ex_link2))"
  obtain s out where E: "WeakCallback ex_lpb ex_env True (?m\<lparr>sm_data := ''/a''\<rparr>) (sys_sess ?y) = (s, out)" by (metis prod.collapse)
  have "sys_proposed ?y = ?m # tl (sys_proposed ?y)" "steady ex_env (sys_sess ?y)" by code_simp+
  then show ?thesis unfolding ex_link3_def Let_def E prod.case by (intro link_next [OF ex_link2_reach answer [OF refl _ _ E]])
qed

lemma ex_link4_reach: "ex_link_reach ex_link4"
proof -
  let ?m = "hd (lk_down ex_link3)"
  obtain c out b where E: "client_OnMessage ex_lpb (\<lambda>s. [s]) id (Some 1) ?m (lk_client ex_link3) = ((c, out), b)" by (metis prod.collapse)
  have "lk_down ex_link3 = ?m # tl (lk_down ex_link3)" by code_simp
  then show ?thesis unfolding ex_link4_def Let_def E prod.case by (intro link_next [OF ex_link3_reach deliver [OF _ E]])
qed

section \<open>The properties\<close>

text \<open>C22: requests over a connection that stays up are completed exactly once and in order. In every reachable state of client,
  connection and session the numbers that the application's callbacks got, followed by those of the requests
  that wait, are the numbers that were issued, and these are distinct and increasing; the codes that the
  callbacks got are those of the replies that the session sent, in its order.\<close>

theorem requests_complete_in_order:
  assumes "link_reach pb split shuffle z"
  shows "map (rq_id \<circ> fst) (lk_calls z) @ map sm_id (outgoing_queue (lk_client z)) = lk_issued z \<and>
    sorted_wrt (<) (lk_issued z) \<and>
    prefix (map (\<lambda>(r, code). (rq_id r, code)) (lk_calls z)) (reply_view pb (sys_sent (lk_sys z)))"
proof -
  have ok: "link_ok pb z" by (rule link_ok_reach [OF assms])
  then have "call_view (lk_calls z) @ reply_view pb (lk_down z) = reply_view pb (sys_sent (lk_sys z))" by (simp add: link_ok_def)
  then have "prefix (call_view (lk_calls z)) (reply_view pb (sys_sent (lk_sys z)))" by (metis prefixI)
  then show ?thesis using ok by (simp add: link_ok_def)
qed

theorem requests_complete_in_order_witness:
  "lk_issued ex_link4 = [1] \<and> map (rq_id \<circ> fst) (lk_calls ex_link4) = [1] \<and>
   prefix (map (\<lambda>(r, code). (rq_id r, code)) (lk_calls ex_link4)) (reply_view ex_lpb (sys_sent (lk_sys ex_link4)))"
proof -
  have "lk_issued ex_link4 = [1]" "map sm_id (outgoing_queue (lk_client ex_link4)) = []" by code_simp+
  then show ?thesis using requests_complete_in_order [OF ex_link4_reach] by simp
qed

text \<open>C23: no request is ever stuck: from every reachable state, whatever client, connection and session have been doing, the
  messages that are under way can be moved until every request that was issued has been called back, without a
  further request or a new connection.\<close>

theorem requests_can_complete:
  assumes "link_reach pb split shuffle z"
  shows "\<exists>z'. (link_step pb split shuffle)\<^sup>*\<^sup>* z z' \<and> lk_issued z' = lk_issued z \<and> map (rq_id \<circ> fst) (lk_calls z') = lk_issued z"
proof -
  have ok: "link_ok pb z" by (rule link_ok_reach [OF assms])
  from link_drains [OF this] obtain z' where z': "(link_step pb split shuffle)\<^sup>*\<^sup>* z z'"
    "outgoing_queue (lk_client z') = []" "lk_issued z' = lk_issued z" by blast
  from z'(1) have "link_ok pb z'" using ok by (induction rule: rtranclp_induct) (auto intro: link_ok_step)
  then show ?thesis using z' by (intro exI [of _ z']) (simp add: link_ok_def)
qed

theorem requests_can_complete_witness:
  "length (sys_proposed (lk_sys ex_link2)) = 1 \<and>
   (\<exists>z'. (link_step ex_lpb (\<lambda>s. [s]) id)\<^sup>*\<^sup>* ex_link2 z' \<and> map (rq_id \<circ> fst) (lk_calls z') = [1])"
proof -
  have "lk_issued ex_link2 = [1]" "length (sys_proposed (lk_sys ex_link2)) = 1" by code_simp+
  then show ?thesis using requests_can_complete [OF ex_link2_reach] by auto
qed

text \<open>C24: everything on the connection has the kind its receiver expects. In every reachable state the client sends only
  requests and pings, and gets only replies and notifications. The requests whose replies are on the way down, those in
  the session and those on the way up are, by kind and number and in this order, the requests that wait in
  the client; so the next reply is always of the kind and the number of the oldest request. Each waits in the
  queue of its own kind.\<close>

theorem link_well_typed:
  assumes "link_reach pb split shuffle z"
  shows "list_all (\<lambda>m. is_request (sm_type m) \<or> sm_type m = MT_PING) (lk_up z) \<and>
    list_all (\<lambda>m. is_request (sm_type m) \<or> sm_type m = MT_NOTIFICATION) (lk_down z) \<and>
    tags (lk_down z) @ tags (sys_queued (lk_sys z) @ sys_proposed (lk_sys z)) @ tags (pending_messages (sys_sess (lk_sys z))) @ tags (lk_up z) =
      map (\<lambda>m. (sm_type m, sm_id m)) (outgoing_queue (lk_client z)) \<and>
    (\<forall>ty. is_request ty \<longrightarrow> map rq_id (queue_of ty (lk_client z)) =
      map sm_id (filter (\<lambda>m. sm_type m = ty) (outgoing_queue (lk_client z))))"
proof -
  have ok: "link_ok pb z" by (rule link_ok_reach [OF assms])
  then have "list_all (\<lambda>m. is_request (sm_type m)) (outgoing_queue (lk_client z))" by (simp add: link_ok_def client_ok_def)
  then have "tags (outgoing_queue (lk_client z)) = map (\<lambda>m. (sm_type m, sm_id m)) (outgoing_queue (lk_client z))"
    unfolding tags_def by (subst filter_True) (simp_all add: list_all_iff)
  then show ?thesis using ok by (simp add: link_ok_def client_ok_def at_work_def from_client_def [abs_def])
qed

theorem link_well_typed_witness:
  "tags (lk_down ex_link3) = [(MT_CREATE, 1)] \<and> map rq_id (queue_of MT_CREATE (lk_client ex_link3)) = [1]"
proof -
  have "map (\<lambda>m. (sm_type m, sm_id m)) (outgoing_queue (lk_client ex_link3)) = [(MT_CREATE, 1)]"
    "sys_queued (lk_sys ex_link3) @ sys_proposed (lk_sys ex_link3) @ pending_messages (sys_sess (lk_sys ex_link3)) @ lk_up ex_link3 = []"
    by code_simp+
  then show ?thesis using link_well_typed [OF ex_link3_reach] by (auto dest: spec [of _ MT_CREATE])
qed

end
