(* ===== verification/MySaber.thy ===== *)
theory MySaber
  imports SaberClient_Props
begin

text \<open>
  The interactive client (\<^verbatim>\<open>saber/main/mysaber.{h,cc}\<close>, \<^verbatim>\<open>default_watcher.h\<close>): a menu, one prompt per kind of request, the
  replies printed, then the menu again. Standard input is the list of its lines; at the end of input \<^verbatim>\<open>std::getline\<close>
  leaves the string empty. \<open>split\<close> is \<^verbatim>\<open>voyager::SplitStringUsing\<close> at the bar, and \<open>text\<close> are the generated
  \<^verbatim>\<open>ShortDebugString\<close> functions. A prompt that is answered wrongly is asked again: the functions that ask are
  partial, and \<open>None\<close> means that they never return.
\<close>

datatype my_effect = Print string | ClientEffect client_effect

record MySaber =
  my_saber :: Saber
  my_watcher :: watcher
  my_in :: "string list"
  my_out :: "my_effect list"
  my_tasks :: nat
  my_exited :: bool

record pb_text =
  txt_Create :: "CreateResponse \<Rightarrow> string"
  txt_Delete :: "DeleteResponse \<Rightarrow> string"
  txt_Exists :: "ExistsResponse \<Rightarrow> string"
  txt_GetData :: "GetDataResponse \<Rightarrow> string"
  txt_SetData :: "SetDataResponse \<Rightarrow> string"
  txt_GetChildren :: "GetChildrenResponse \<Rightarrow> string"
  txt_Event :: "WatchedEvent \<Rightarrow> string"

definition newline :: string where
  "newline = [CHR 10]"

definition say :: "string list \<Rightarrow> MySaber \<Rightarrow> MySaber" where
  "say ls z = z\<lparr>my_out := my_out z @ map Print ls\<rparr>"

definition read_line :: "MySaber \<Rightarrow> string \<times> MySaber" where
  "read_line z = (case my_in z of [] \<Rightarrow> ([], z) | s # ls \<Rightarrow> (s, z\<lparr>my_in := ls\<rparr>))"

definition forward :: "(SaberClient \<Rightarrow> client_result \<times> bool) \<Rightarrow> MySaber \<Rightarrow> MySaber \<times> bool" where
  "forward f z =
     (let ((s, out), b) = Saber_forward f (my_saber z)
      in (z\<lparr>my_saber := s, my_out := my_out z @ map ClientEffect out\<rparr>, b))"

section \<open>The prompts\<close>

text \<open>What the six functions have in common: prompt, read a line, ask again if it has not the right parts, call the
  client, and ask again if the client refuses the path.\<close>

partial_function (option) ask ::
    "string \<Rightarrow> (string \<Rightarrow> 'r option) \<Rightarrow> ('r \<Rightarrow> SaberClient \<Rightarrow> client_result \<times> bool) \<Rightarrow> MySaber \<Rightarrow> MySaber option" where
  "ask prompt parse call z =
     (let (s, z) = read_line (say [prompt, newline, ''> ''] z)
      in case parse s of
           None \<Rightarrow> ask prompt parse call z
         | Some r \<Rightarrow>
             (let (z, b) = forward (call r) z
              in if b then Some z else ask prompt parse call (say [''Invalid root path!'', newline] z)))"

declare ask.simps [code]

definition node_type_of :: "i32 \<Rightarrow> NodeType" where
  "node_type_of k =
     (if k = 0 then NT_PERSISTENT else if k = 1 then NT_PERSISTENT_SEQUENTIAL else if k = 2 then NT_EPHEMERAL
      else if k = 3 then NT_EPHEMERAL_SEQUENTIAL else NT_OTHER (sint k))"

definition parse_create :: "string list \<Rightarrow> CreateRequest option" where
  "parse_create v =
     (case v of
        [path, data, ty] \<Rightarrow> Some \<lparr>crq_node_type = node_type_of (atoi ty), crq_path = path, crq_data = data\<rparr>
      | _ \<Rightarrow> None)"

definition parse_delete :: "string list \<Rightarrow> DeleteRequest option" where
  "parse_delete v = (case v of [path, n] \<Rightarrow> Some \<lparr>dlq_path = path, dlq_version = atoi n\<rparr> | _ \<Rightarrow> None)"

definition parse_set_data :: "string list \<Rightarrow> SetDataRequest option" where
  "parse_set_data v =
     (case v of [path, data, n] \<Rightarrow> Some \<lparr>sdq_path = path, sdq_data = data, sdq_version = atoi n\<rparr> | _ \<Rightarrow> None)"

definition parse_watch :: "string list \<Rightarrow> (string \<times> bool) option" where
  "parse_watch v =
     (case v of
        [path, w] \<Rightarrow> (if w = ''0'' then Some (path, False) else if w = ''1'' then Some (path, True) else None)
      | _ \<Rightarrow> None)"

definition chosen_watcher :: "watcher \<Rightarrow> bool \<Rightarrow> watcher option" where
  "chosen_watcher w b = (if b then Some w else None)"

definition My_Create :: "pb_codec \<Rightarrow> (string \<Rightarrow> string list) \<Rightarrow> conn_ptr \<Rightarrow> MySaber \<Rightarrow> MySaber option" where
  "My_Create pb split p z =
     ask ''please enter: path|data|type'' (\<lambda>s. parse_create (split s)) (\<lambda>r. client_Create pb p r 0 0) z"

definition My_Delete :: "pb_codec \<Rightarrow> (string \<Rightarrow> string list) \<Rightarrow> conn_ptr \<Rightarrow> MySaber \<Rightarrow> MySaber option" where
  "My_Delete pb split p z =
     ask ''please enter: path|version'' (\<lambda>s. parse_delete (split s)) (\<lambda>r. client_Delete pb p r 0 0) z"

definition My_Exists :: "pb_codec \<Rightarrow> (string \<Rightarrow> string list) \<Rightarrow> conn_ptr \<Rightarrow> MySaber \<Rightarrow> MySaber option" where
  "My_Exists pb split p z =
     ask ''please enter: path|watch(0|1)'' (\<lambda>s. parse_watch (split s))
       (\<lambda>(path, b). client_Exists pb p \<lparr>exq_path = path, exq_watch = b\<rparr> (chosen_watcher (my_watcher z) b) 0 0) z"

definition My_GetData :: "pb_codec \<Rightarrow> (string \<Rightarrow> string list) \<Rightarrow> conn_ptr \<Rightarrow> MySaber \<Rightarrow> MySaber option" where
  "My_GetData pb split p z =
     ask ''please enter: path|watch(0|1)'' (\<lambda>s. parse_watch (split s))
       (\<lambda>(path, b). client_GetData pb p \<lparr>gdq_path = path, gdq_watch = b\<rparr> (chosen_watcher (my_watcher z) b) 0 0) z"

definition My_SetData :: "pb_codec \<Rightarrow> (string \<Rightarrow> string list) \<Rightarrow> conn_ptr \<Rightarrow> MySaber \<Rightarrow> MySaber option" where
  "My_SetData pb split p z =
     ask ''please enter: path|data|version'' (\<lambda>s. parse_set_data (split s)) (\<lambda>r. client_SetData pb p r 0 0) z"

definition My_GetChildren :: "pb_codec \<Rightarrow> (string \<Rightarrow> string list) \<Rightarrow> conn_ptr \<Rightarrow> MySaber \<Rightarrow> MySaber option" where
  "My_GetChildren pb split p z =
     ask ''please enter: path|watch(0|1)'' (\<lambda>s. parse_watch (split s))
       (\<lambda>(path, b). client_GetChildren pb p \<lparr>gcq_path = path, gcq_watch = b\<rparr> (chosen_watcher (my_watcher z) b) 0 0) z"

section \<open>The menu\<close>

definition NewRequest ::
    "pb_codec \<Rightarrow> (string \<Rightarrow> string list) \<Rightarrow> conn_ptr \<Rightarrow> string \<Rightarrow> MySaber \<Rightarrow> (MySaber \<times> bool) option" where
  "NewRequest pb split p s z =
     (let type = atoi s; issued = map_option (\<lambda>z. (z, True))
      in if type = 0 then issued (My_Create pb split p z)
         else if type = 1 then issued (My_Delete pb split p z)
         else if type = 2 then issued (My_Exists pb split p z)
         else if type = 3 then issued (My_GetData pb split p z)
         else if type = 4 then issued (My_SetData pb split p z)
         else if type = 5 then issued (My_GetChildren pb split p z)
         else Some (say [''Invalid request type.'', newline] z, False))"

definition my_menu :: "string list" where
  "my_menu = [newline, ''please select:'', newline, ''0. Create'', newline, ''1. Delete'', newline, ''2. Exists'', newline,
     ''3. GetData'', newline, ''4. SetData'', newline, ''5. GetChildren'', newline, ''> '']"

definition my_quit :: "conn_ptr \<Rightarrow> MySaber \<Rightarrow> MySaber" where
  "my_quit p z =
     (let (s, out) = Saber_Close p (my_saber z)
      in say [''bye!'', newline] (z\<lparr>my_saber := s, my_out := my_out z @ map ClientEffect out, my_exited := True\<rparr>))"

partial_function (option) GetLine :: "pb_codec \<Rightarrow> (string \<Rightarrow> string list) \<Rightarrow> conn_ptr \<Rightarrow> MySaber \<Rightarrow> MySaber option" where
  "GetLine pb split p z =
     (let (s, z) = read_line (say my_menu z)
      in if s = ''quit'' then Some (my_quit p z)
         else (case NewRequest pb split p s z of
                 None \<Rightarrow> None
               | Some (z, res) \<Rightarrow> if res then Some z else GetLine pb split p z))"

declare GetLine.simps [code]

definition My_Start :: "pb_codec \<Rightarrow> (string \<Rightarrow> string list) \<Rightarrow> conn_ptr \<Rightarrow> MySaber \<Rightarrow> MySaber option" where
  "My_Start pb split p z =
     (let (s, out) = Saber_Connect (my_saber z)
      in GetLine pb split p (z\<lparr>my_saber := s, my_out := my_out z @ map ClientEffect out\<rparr>))"

definition MySaber_new :: "Saber \<Rightarrow> watcher \<Rightarrow> string list \<Rightarrow> MySaber" where
  "MySaber_new s w ls = \<lparr>my_saber = s, my_watcher = w, my_in = ls, my_out = [], my_tasks = 0, my_exited = False\<rparr>"

section \<open>Replies\<close>

text \<open>A reply is printed and the menu is queued in the main loop; the callbacks run in the loop of the client.\<close>

definition on_reply :: "string \<Rightarrow> MySaber \<Rightarrow> MySaber" where
  "on_reply t z = (say [t, newline] z)\<lparr>my_tasks := my_tasks z + 1\<rparr>"

definition OnCreateReply :: "pb_text \<Rightarrow> CreateResponse \<Rightarrow> MySaber \<Rightarrow> MySaber" where
  "OnCreateReply dbg response z = on_reply (txt_Create dbg response) z"

definition OnDeleteReply :: "pb_text \<Rightarrow> DeleteResponse \<Rightarrow> MySaber \<Rightarrow> MySaber" where
  "OnDeleteReply dbg response z = on_reply (txt_Delete dbg response) z"

definition OnExistsReply :: "pb_text \<Rightarrow> ExistsResponse \<Rightarrow> MySaber \<Rightarrow> MySaber" where
  "OnExistsReply dbg response z = on_reply (txt_Exists dbg response) z"

definition OnGetDataReply :: "pb_text \<Rightarrow> GetDataResponse \<Rightarrow> MySaber \<Rightarrow> MySaber" where
  "OnGetDataReply dbg response z = on_reply (txt_GetData dbg response) z"

definition OnSetDataReply :: "pb_text \<Rightarrow> SetDataResponse \<Rightarrow> MySaber \<Rightarrow> MySaber" where
  "OnSetDataReply dbg response z = on_reply (txt_SetData dbg response) z"

definition OnGetChildrenReply :: "pb_text \<Rightarrow> GetChildrenResponse \<Rightarrow> MySaber \<Rightarrow> MySaber" where
  "OnGetChildrenReply dbg response z = on_reply (txt_GetChildren dbg response) z"

lemmas reply_callback_defs = OnCreateReply_def OnDeleteReply_def OnExistsReply_def OnGetDataReply_def OnSetDataReply_def
  OnGetChildrenReply_def

definition rule_line :: string where
  "rule_line = replicate 60 CHR ''-''"

definition DefaultWatcher_Process :: "pb_text \<Rightarrow> WatchedEvent \<Rightarrow> MySaber \<Rightarrow> MySaber" where
  "DefaultWatcher_Process dbg event z = say [newline, rule_line, newline, txt_Event dbg event, newline, rule_line, newline] z"

text \<open>The callbacks that the client is given; its other effects are recorded.\<close>

fun my_callback :: "pb_text \<Rightarrow> client_effect \<Rightarrow> MySaber \<Rightarrow> MySaber" where
  "my_callback dbg (CreateCb r x) z = OnCreateReply dbg x z"
| "my_callback dbg (DeleteCb r x) z = OnDeleteReply dbg x z"
| "my_callback dbg (ExistsCb r x) z = OnExistsReply dbg x z"
| "my_callback dbg (GetDataCb r x) z = OnGetDataReply dbg x z"
| "my_callback dbg (SetDataCb r x) z = OnSetDataReply dbg x z"
| "my_callback dbg (GetChildrenCb r x) z = OnGetChildrenReply dbg x z"
| "my_callback dbg (Notify w e) z = DefaultWatcher_Process dbg e z"
| "my_callback dbg e z = z\<lparr>my_out := my_out z @ [ClientEffect e]\<rparr>"

section \<open>The program\<close>

text \<open>\<^verbatim>\<open>saber/main/saber_client_main.cc\<close>: one argument, the list of servers; the root is fixed. \<open>Inl\<close> is the exit code and the
  text printed. The two \<^verbatim>\<open>DefaultWatcher\<close> objects have the addresses \<open>w0\<close> (of the options) and \<open>w\<close> (of \<^verbatim>\<open>MySaber\<close>).\<close>

definition client_main ::
    "(string \<Rightarrow> string list) \<Rightarrow> (SockAddr list \<Rightarrow> SockAddr list) \<Rightarrow> watcher \<Rightarrow> watcher \<Rightarrow> string \<Rightarrow> string list \<Rightarrow> string list \<Rightarrow>
     int \<times> string + MySaber" where
  "client_main split shuffle w0 w prog args lines =
     (case args of
        [addrs] \<Rightarrow>
          (let options = ClientOptions_new\<lparr>co_root := ''/ls'', co_servers := addrs, co_watcher := Some w0\<rparr>
           in Inr (MySaber_new \<lparr>connect_flag = False, saber_client = SaberClient_ctor split shuffle options\<rparr> w lines))
      | _ \<Rightarrow> Inl (- 1, ''Usage: '' @ prog @ '' server_ip:server_port,...'' @ newline))"

end
