(* ===== verification/MySaber_Props.thy ===== *)
theory MySaber_Props
  imports MySaber
begin

text \<open>
  What the interactive client reads, against a grammar of its input, and how its prompts and the replies of the
  client alternate.
\<close>

section \<open>The grammar of the input\<close>

datatype command = QuitCommand | RequestCommand client_op

datatype request_kind = kCreate | kDelete | kExists | kGetData | kSetData | kGetChildren

definition kind_of :: "string \<Rightarrow> request_kind option" where
  "kind_of s = map_of (zip [0, 1, 2, 3, 4, 5] [kCreate, kDelete, kExists, kGetData, kSetData, kGetChildren]) (atoi s)"

text \<open>The request that a line describes, and the line a prompt accepts: one that describes a request below the
  root.\<close>

fun request_of :: "(string \<Rightarrow> string list) \<Rightarrow> watcher \<Rightarrow> request_kind \<Rightarrow> string \<Rightarrow> (string \<times> client_op) option" where
  "request_of split w kCreate s = map_option (\<lambda>r. (crq_path r, OpCreate r 0 0)) (parse_create (split s))"
| "request_of split w kDelete s = map_option (\<lambda>r. (dlq_path r, OpDelete r 0 0)) (parse_delete (split s))"
| "request_of split w kExists s =
     map_option (\<lambda>x. (fst x, OpExists \<lparr>exq_path = fst x, exq_watch = snd x\<rparr> (chosen_watcher w (snd x)) 0 0)) (parse_watch (split s))"
| "request_of split w kGetData s =
     map_option (\<lambda>x. (fst x, OpGetData \<lparr>gdq_path = fst x, gdq_watch = snd x\<rparr> (chosen_watcher w (snd x)) 0 0)) (parse_watch (split s))"
| "request_of split w kSetData s = map_option (\<lambda>r. (sdq_path r, OpSetData r 0 0)) (parse_set_data (split s))"
| "request_of split w kGetChildren s =
     map_option (\<lambda>x. (fst x, OpGetChildren \<lparr>gcq_path = fst x, gcq_watch = snd x\<rparr> (chosen_watcher w (snd x)) 0 0)) (parse_watch (split s))"

definition accepted :: "string \<Rightarrow> (string \<times> 'a) option \<Rightarrow> 'a option" where
  "accepted root x = (case x of Some (path, y) \<Rightarrow> if client_GetRoot path = root then Some y else None | None \<Rightarrow> None)"

fun first_accepted :: "(string \<Rightarrow> 'a option) \<Rightarrow> string list \<Rightarrow> ('a \<times> string list) option" where
  "first_accepted f [] = None"
| "first_accepted f (s # ls) = (case f s of None \<Rightarrow> first_accepted f ls | Some x \<Rightarrow> Some (x, ls))"

fun next_command :: "string \<Rightarrow> (string \<Rightarrow> string list) \<Rightarrow> watcher \<Rightarrow> string list \<Rightarrow> (command \<times> string list) option" where
  "next_command root split w [] = None"
| "next_command root split w (s # ls) =
     (if s = ''quit'' then Some (QuitCommand, ls)
      else (case kind_of s of
              None \<Rightarrow> next_command root split w ls
            | Some k \<Rightarrow> map_option (\<lambda>(op, ls). (RequestCommand op, ls))
                (first_accepted (\<lambda>s. accepted root (request_of split w k s)) ls)))"

section \<open>The prompts read the first line that is accepted\<close>

abbreviation my_client :: "MySaber \<Rightarrow> SaberClient" where
  "my_client z \<equiv> saber_client (my_saber z)"

fun client_effects :: "my_effect list \<Rightarrow> client_effect list" where
  "client_effects [] = []"
| "client_effects (ClientEffect e # out) = e # client_effects out"
| "client_effects (Print s # out) = client_effects out"

lemma client_effects_append [simp]: "client_effects (out @ out') = client_effects out @ client_effects out'"
  by (induction out rule: client_effects.induct) simp_all

lemma client_effects_map [simp]: "client_effects (map Print ls) = []" "client_effects (map ClientEffect es) = es"
  by (induction ls, simp_all) (induction es, simp_all)

text \<open>A prompt has returned: it has read up to \<open>ls\<close>, and the client has taken one operation.\<close>

definition issued :: "client_result \<Rightarrow> string list \<Rightarrow> MySaber \<Rightarrow> MySaber \<Rightarrow> bool" where
  "issued res ls z z' \<longleftrightarrow> my_in z' = ls \<and> my_client z' = fst res \<and>
     client_effects (my_out z') = client_effects (my_out z) @ snd res \<and>
     connect_flag (my_saber z') = connect_flag (my_saber z) \<and> my_watcher z' = my_watcher z \<and>
     my_tasks z' = my_tasks z \<and> my_exited z' = my_exited z"

lemma issued_trans: "issued (c, []) ls z z2 \<Longrightarrow> issued res ls' z2 z' \<Longrightarrow> issued res ls' z z'"
  by (simp add: issued_def)

lemma say_simps [simp]:
  "my_in (say ls z) = my_in z" "my_saber (say ls z) = my_saber z" "my_watcher (say ls z) = my_watcher z"
  "my_tasks (say ls z) = my_tasks z" "my_exited (say ls z) = my_exited z"
  "client_effects (my_out (say ls z)) = client_effects (my_out z)"
  by (simp_all add: say_def)

text \<open>At the end of input a prompt that refuses the empty line never returns.\<close>

lemma ask_returns: "ask prompt parse call z = Some z' \<Longrightarrow> my_in z \<noteq> [] \<or> parse [] \<noteq> None"
  by (rule ask.raw_induct [where P = "\<lambda>prompt parse call z z'. my_in z \<noteq> [] \<or> parse [] \<noteq> None", rotated], assumption)
    (fastforce simp: read_line_def split: if_splits option.splits)

lemma ask_end: "my_in z = [] \<Longrightarrow> parse [] = None \<Longrightarrow> ask prompt parse call z = None"
  using ask_returns [of prompt parse call z] by fastforce

text \<open>What a prompt needs to know of the operation it calls: it looks at the path only, and refuses it without an
  effect.\<close>

definition refuses :: "('r \<Rightarrow> string) \<Rightarrow> ('r \<Rightarrow> SaberClient \<Rightarrow> client_result \<times> bool) \<Rightarrow> bool" where
  "refuses path_of call \<longleftrightarrow> (\<forall>r c. (snd (call r c) \<longleftrightarrow> client_GetRoot (path_of r) = cl_root c) \<and>
     (\<not> snd (call r c) \<longrightarrow> fst (call r c) = (c, [])))"

lemma ask_reads:
  assumes R: "refuses path_of call" and N: "parse [] = None"
  shows "case first_accepted (\<lambda>s. accepted (cl_root (my_client z)) (map_option (\<lambda>r. (path_of r, r)) (parse s))) (my_in z) of
      None \<Rightarrow> ask prompt parse call z = None
    | Some (r, ls) \<Rightarrow> (\<exists>z'. ask prompt parse call z = Some z' \<and> issued (fst (call r (my_client z))) ls z z')"
proof (induction "my_in z" arbitrary: z)
  case Nil
  then have "ask prompt parse call z = None" using N by (simp add: ask_end)
  then show ?case unfolding Nil.hyps [symmetric] by simp
next
  case (Cons s ls)
  let ?z1 = "(say [prompt, newline, ''> ''] z)\<lparr>my_in := ls\<rparr>" and ?c = "my_client z"
  let ?f = "\<lambda>s. accepted (cl_root ?c) (map_option (\<lambda>r. (path_of r, r)) (parse s))"
  have rd: "read_line (say [prompt, newline, ''> ''] z) = (s, ?z1)" using Cons.hyps(2) [symmetric] by (simp add: read_line_def)
  have again: "?case" if step: "ask prompt parse call z = ask prompt parse call z2" and f: "?f s = None"
    and z2: "issued (?c, []) ls z z2" for z2
  proof -
    have "my_in z2 = ls" "my_client z2 = ?c" using z2 by (simp_all add: issued_def)
    then show ?thesis using Cons.hyps(1) [of z2] step f unfolding Cons.hyps(2) [symmetric]
      by (auto split: option.splits intro: issued_trans [OF z2])
  qed
  show ?case
  proof (cases "parse s")
    case None
    then show ?thesis by (intro again [of ?z1]) (simp_all add: ask.simps [of prompt parse call z] rd accepted_def issued_def)
  next
    case (Some r)
    obtain c' out b where C: "call r ?c = ((c', out), b)" by (metis prod.collapse)
    have b: "b \<longleftrightarrow> client_GetRoot (path_of r) = cl_root ?c" "\<not> b \<Longrightarrow> (c', out) = (?c, [])"
      using R unfolding refuses_def by (metis C fst_conv snd_conv)+
    have fw: "forward (call r) ?z1 = (?z1\<lparr>my_saber := (my_saber z)\<lparr>saber_client := c'\<rparr>, my_out := my_out ?z1 @ map ClientEffect out\<rparr>, b)"
      (is "_ = (?z2, b)") by (simp add: forward_def Saber_forward_def C)
    show ?thesis
    proof (cases b)
      case True
      have "issued (c', out) ls z ?z2" by (simp add: issued_def say_def)
      moreover have "ask prompt parse call z = Some ?z2" using True by (simp add: ask.simps [of prompt parse call z] rd Some fw)
      moreover have "first_accepted ?f (my_in z) = Some (r, ls)"
        unfolding Cons.hyps(2) [symmetric] using True b(1) by (simp add: Some accepted_def)
      ultimately show ?thesis by (simp add: C)
    next
      case False
      then show ?thesis using b
        by (intro again [of "say [''Invalid root path!'', newline] ?z2"])
          (simp_all add: ask.simps [of prompt parse call z] rd Some fw accepted_def issued_def)
    qed
  qed
qed

lemma accepted_map: "accepted root (map_option (\<lambda>r. (path_of r, g r)) x) = map_option g (accepted root (map_option (\<lambda>r. (path_of r, r)) x))"
  by (cases x) (simp_all add: accepted_def)

lemma first_accepted_map: "first_accepted (\<lambda>s. map_option g (f s)) ls = map_option (\<lambda>(r, ls). (g r, ls)) (first_accepted f ls)"
  by (induction ls) (simp_all split: option.split)

text \<open>The prompt of a kind of request, and the operation it issues.\<close>

fun prompt_of :: "pb_codec \<Rightarrow> (string \<Rightarrow> string list) \<Rightarrow> conn_ptr \<Rightarrow> request_kind \<Rightarrow> MySaber \<Rightarrow> MySaber option" where
  "prompt_of pb split p kCreate z = My_Create pb split p z"
| "prompt_of pb split p kDelete z = My_Delete pb split p z"
| "prompt_of pb split p kExists z = My_Exists pb split p z"
| "prompt_of pb split p kGetData z = My_GetData pb split p z"
| "prompt_of pb split p kSetData z = My_SetData pb split p z"
| "prompt_of pb split p kGetChildren z = My_GetChildren pb split p z"

definition prompted :: "(client_op \<times> string list) option \<Rightarrow> pb_codec \<Rightarrow> conn_ptr \<Rightarrow> MySaber \<Rightarrow> MySaber option \<Rightarrow> bool" where
  "prompted x pb p z res \<longleftrightarrow>
     (case x of
        None \<Rightarrow> res = None
      | Some (op, ls) \<Rightarrow> (\<exists>z'. res = Some z' \<and> issued (do_client_op pb p op (my_client z)) ls z z'))"

lemma ask_prompted:
  assumes "refuses path_of call" and "parse [] = None" and "\<And>r c. fst (call r c) = do_client_op pb p (g r) c"
  shows "prompted (first_accepted (\<lambda>s. accepted (cl_root (my_client z)) (map_option (\<lambda>r. (path_of r, g r)) (parse s))) (my_in z))
    pb p z (ask prompt parse call z)"
  using ask_reads [where path_of = path_of and call = call and parse = parse and z = z and prompt = prompt, OF assms(1,2)] unfolding accepted_map [where g = g] first_accepted_map
  by (auto simp: prompted_def assms(3) split: option.splits)

lemma parse_Nil: "parse_create [] = None" "parse_delete [] = None" "parse_watch [] = None" "parse_set_data [] = None"
  by (simp_all add: parse_create_def parse_delete_def parse_watch_def parse_set_data_def)

lemma prompt_reads:
  assumes N: "split [] = []"
  shows "prompted (first_accepted (\<lambda>s. accepted (cl_root (my_client z)) (request_of split (my_watcher z) k s)) (my_in z))
    pb p z (prompt_of pb split p k z)"
proof (cases k)
  case kCreate
  have "refuses crq_path (\<lambda>r. client_Create pb p r 0 0)" by (simp add: refuses_def request_defs Let_def)
  from ask_prompted [OF this, of "\<lambda>s. parse_create (split s)" pb p "\<lambda>r. OpCreate r 0 0" z] show ?thesis
    by (simp add: kCreate My_Create_def N parse_Nil)
next
  case kDelete
  have "refuses dlq_path (\<lambda>r. client_Delete pb p r 0 0)" by (simp add: refuses_def request_defs Let_def)
  from ask_prompted [OF this, of "\<lambda>s. parse_delete (split s)" pb p "\<lambda>r. OpDelete r 0 0" z] show ?thesis
    by (simp add: kDelete My_Delete_def N parse_Nil)
next
  case kExists
  let ?g = "\<lambda>x. OpExists \<lparr>exq_path = fst x, exq_watch = snd x\<rparr> (chosen_watcher (my_watcher z) (snd x)) 0 0"
  have "refuses fst (\<lambda>(path, b). client_Exists pb p \<lparr>exq_path = path, exq_watch = b\<rparr> (chosen_watcher (my_watcher z) b) 0 0)"
    by (simp add: refuses_def request_defs Let_def)
  from ask_prompted [OF this, of "\<lambda>s. parse_watch (split s)" pb p ?g z] show ?thesis
    by (simp add: kExists My_Exists_def N parse_Nil case_prod_beta)
next
  case kGetData
  let ?g = "\<lambda>x. OpGetData \<lparr>gdq_path = fst x, gdq_watch = snd x\<rparr> (chosen_watcher (my_watcher z) (snd x)) 0 0"
  have "refuses fst (\<lambda>(path, b). client_GetData pb p \<lparr>gdq_path = path, gdq_watch = b\<rparr> (chosen_watcher (my_watcher z) b) 0 0)"
    by (simp add: refuses_def request_defs Let_def)
  from ask_prompted [OF this, of "\<lambda>s. parse_watch (split s)" pb p ?g z] show ?thesis
    by (simp add: kGetData My_GetData_def N parse_Nil case_prod_beta)
next
  case kSetData
  have "refuses sdq_path (\<lambda>r. client_SetData pb p r 0 0)" by (simp add: refuses_def request_defs Let_def)
  from ask_prompted [OF this, of "\<lambda>s. parse_set_data (split s)" pb p "\<lambda>r. OpSetData r 0 0" z] show ?thesis
    by (simp add: kSetData My_SetData_def N parse_Nil)
next
  case kGetChildren
  let ?g = "\<lambda>x. OpGetChildren \<lparr>gcq_path = fst x, gcq_watch = snd x\<rparr> (chosen_watcher (my_watcher z) (snd x)) 0 0"
  have "refuses fst (\<lambda>(path, b). client_GetChildren pb p \<lparr>gcq_path = path, gcq_watch = b\<rparr> (chosen_watcher (my_watcher z) b) 0 0)"
    by (simp add: refuses_def request_defs Let_def)
  from ask_prompted [OF this, of "\<lambda>s. parse_watch (split s)" pb p ?g z] show ?thesis
    by (simp add: kGetChildren My_GetChildren_def N parse_Nil case_prod_beta)
qed

section \<open>The menu reads the next command\<close>

lemma NewRequest_kind:
  "NewRequest pb split p s z =
     (case kind_of s of
        Some k \<Rightarrow> map_option (\<lambda>z. (z, True)) (prompt_of pb split p k z)
      | None \<Rightarrow> Some (say [''Invalid request type.'', newline] z, False))"
  by (simp add: NewRequest_def kind_of_def Let_def)

lemma GetLine_eq:
  "GetLine pb split p z =
     (let (s, z) = read_line (say my_menu z)
      in if s = ''quit'' then Some (my_quit p z)
         else (case kind_of s of
                 Some k \<Rightarrow> prompt_of pb split p k z
               | None \<Rightarrow> GetLine pb split p (say [''Invalid request type.'', newline] z)))"
  by (subst GetLine.simps) (simp add: NewRequest_kind Let_def case_prod_beta split: option.split)

definition command_done :: "(command \<times> string list) option \<Rightarrow> pb_codec \<Rightarrow> conn_ptr \<Rightarrow> MySaber \<Rightarrow> MySaber option \<Rightarrow> bool" where
  "command_done x pb p z res \<longleftrightarrow>
     (case x of
        None \<Rightarrow> res = None
      | Some (QuitCommand, ls) \<Rightarrow> (\<exists>z'. res = Some z' \<and> my_exited z' \<and> my_in z' = ls \<and> my_tasks z' = my_tasks z \<and>
          my_saber z' = fst (Saber_Close p (my_saber z)) \<and>
          client_effects (my_out z') = client_effects (my_out z) @ snd (Saber_Close p (my_saber z)))
      | Some (RequestCommand op, ls) \<Rightarrow> (\<exists>z'. res = Some z' \<and> issued (do_client_op pb p op (my_client z)) ls z z'))"

lemma GetLine_reads:
  assumes N: "split [] = []"
  shows "command_done (next_command (cl_root (my_client z)) split (my_watcher z) (my_in z)) pb p z (GetLine pb split p z)"
proof (induction "my_in z" arbitrary: z)
  case Nil
  have "kind_of [] = Some kCreate" by (simp add: kind_of_def)
  moreover have "read_line (say my_menu z) = ([], say my_menu z)" using Nil [symmetric] by (simp add: read_line_def)
  moreover have "My_Create pb split p (say my_menu z) = None"
    unfolding My_Create_def using Nil [symmetric] by (intro ask_end) (simp_all add: N parse_Nil)
  ultimately have "GetLine pb split p z = None" by (subst GetLine_eq) simp
  then show ?case unfolding Nil [symmetric] by (simp add: command_done_def)
next
  case (Cons s ls)
  let ?z1 = "(say my_menu z)\<lparr>my_in := ls\<rparr>"
  have rd: "read_line (say my_menu z) = (s, ?z1)" using Cons.hyps(2) [symmetric] by (simp add: read_line_def)
  have i: "issued (my_client z, []) ls z ?z1" by (simp add: issued_def)
  show ?case
  proof (cases "s = ''quit''")
    case True
    then have "GetLine pb split p z = Some (my_quit p ?z1)" by (subst GetLine_eq) (simp add: rd)
    then show ?thesis using True unfolding Cons.hyps(2) [symmetric]
      by (simp add: command_done_def my_quit_def say_def Let_def case_prod_beta)
  next
    case q: False
    show ?thesis
    proof (cases "kind_of s")
      case None
      let ?z2 = "say [''Invalid request type.'', newline] ?z1"
      have "GetLine pb split p z = GetLine pb split p ?z2" using q by (subst GetLine_eq) (simp add: rd None)
      then show ?thesis using Cons.hyps(1) [of ?z2] unfolding Cons.hyps(2) [symmetric]
        by (auto simp: q None command_done_def say_def issued_def split: option.splits command.splits)
    next
      case (Some k)
      have "GetLine pb split p z = prompt_of pb split p k ?z1" using q by (subst GetLine_eq) (simp add: rd Some)
      then show ?thesis using prompt_reads [where split = split and z = ?z1 and k = k and pb = pb and p = p, OF N] unfolding Cons.hyps(2) [symmetric]
        by (auto simp: q Some command_done_def prompted_def split: option.splits intro: issued_trans [OF i])
    qed
  qed
qed

end
