(* ===== verification/MySaber_Claims.thy ===== *)
theory MySaber_Claims
  imports MySaber_Props
begin

text \<open>
  The properties of the interactive client: what it reads, when it never returns, and that prompts and replies
  alternate.
\<close>

section \<open>Prompts and replies alternate\<close>

definition request_types :: "MessageType list" where
  "request_types = [MT_CREATE, MT_DELETE, MT_EXISTS, MT_GETDATA, MT_SETDATA, MT_GETCHILDREN]"

definition outstanding :: "SaberClient \<Rightarrow> nat" where
  "outstanding c = sum_list (map (\<lambda>ty. length (queue_of ty c)) request_types)"

definition put_client :: "SaberClient \<Rightarrow> MySaber \<Rightarrow> MySaber" where
  "put_client c z = z\<lparr>my_saber := (my_saber z)\<lparr>saber_client := c\<rparr>\<rparr>"

definition react :: "pb_text \<Rightarrow> client_result \<Rightarrow> MySaber \<Rightarrow> MySaber" where
  "react dbg res z = fold (my_callback dbg) (snd res) (put_client (fst res) z)"

text \<open>The main loop runs a queued menu; the loop of the client handles the events of the connection and the messages
  of the server.\<close>

inductive console_step ::
    "pb_codec \<Rightarrow> pb_text \<Rightarrow> (string \<Rightarrow> string list) \<Rightarrow> MySaber \<Rightarrow> MySaber \<Rightarrow> bool" for pb dbg split where
  menu: "my_tasks z = Suc n \<Longrightarrow> \<not> my_exited z \<Longrightarrow> GetLine pb split p (z\<lparr>my_tasks := n\<rparr>) = Some z' \<Longrightarrow>
     console_step pb dbg split z z'"
| connection: "op \<in> {OpConnection, OpFailure, OpClosed, OpRetry, OpPing} \<Longrightarrow>
     console_step pb dbg split z (react dbg (do_client_op pb p op (my_client z)) z)"
| message: "console_step pb dbg split z (react dbg (fst (client_OnMessage pb csplit shuffle p m (my_client z))) z)"

inductive console_reach ::
    "pb_codec \<Rightarrow> pb_text \<Rightarrow> (string \<Rightarrow> string list) \<Rightarrow> MySaber \<Rightarrow> bool" for pb dbg split where
  console_start: "client_main csplit shuffle w0 w prog args lines = Inr z \<Longrightarrow> My_Start pb split p z = Some z' \<Longrightarrow>
     console_reach pb dbg split z'"
| console_next: "console_reach pb dbg split z \<Longrightarrow> console_step pb dbg split z z' \<Longrightarrow> console_reach pb dbg split z'"

lemma outstanding_cong: "(\<And>ty. queue_of ty c' = queue_of ty c) \<Longrightarrow> outstanding c' = outstanding c"
  by (simp add: outstanding_def)

lemma callback_frame [simp]:
  "my_saber (my_callback dbg e z) = my_saber z" "my_exited (my_callback dbg e z) = my_exited z"
  by (cases e; simp add: on_reply_def reply_callback_defs DefaultWatcher_Process_def)+

lemma callback_tasks: "my_tasks (my_callback dbg e z) = my_tasks z + length (callbacks [e])"
  by (cases e) (simp_all add: on_reply_def reply_callback_defs DefaultWatcher_Process_def)

lemma fold_callback:
  "my_saber (fold (my_callback dbg) out z) = my_saber z \<and> my_exited (fold (my_callback dbg) out z) = my_exited z \<and>
   my_tasks (fold (my_callback dbg) out z) = my_tasks z + length (callbacks out)"
proof (induction out arbitrary: z)
  case (Cons e out)
  have "callbacks (e # out) = callbacks [e] @ callbacks out" using callbacks_append [of "[e]" out] by simp
  then have "length (callbacks (e # out)) = length (callbacks [e]) + length (callbacks out)" by (simp only: length_append)
  then show ?case using Cons.IH [of "my_callback dbg e z"] by (simp add: callback_tasks del: callbacks.simps)
qed simp

lemma react_simps:
  "my_client (react dbg res z) = fst res" "my_tasks (react dbg res z) = my_tasks z + length (callbacks (snd res))"
  "my_exited (react dbg res z) = my_exited z"
  by (simp_all add: react_def put_client_def fold_callback)

lemma match_request_length:
  "match_request i q = (skipped, found, rest) \<Longrightarrow>
     length skipped + (case found of None \<Rightarrow> 0 | Some r \<Rightarrow> 1) + length rest \<le> length q"
proof (induction q arbitrary: skipped)
  case (Cons r q)
  then show ?case by (cases "rq_id r < i") (auto split: prod.splits)
qed simp

lemma outstanding_update:
  assumes "is_request ty" and "\<And>t. queue_of t c' = (if t = ty then rest else queue_of t c)"
  shows "outstanding c' + length (queue_of ty c) = outstanding c + length rest"
  using assms by (auto simp: outstanding_def request_types_def is_request_def)

text \<open>Messages never add a request, and every callback takes one away.\<close>

lemma message_outstanding:
  assumes "client_OnMessage pb csplit shuffle p m c = ((c', out), b)"
  shows "outstanding c' + length (callbacks out) \<le> outstanding c"
proof (cases "is_request (sm_type m)")
  case True
  obtain skipped found rest where M: "match_request (sm_id m) (queue_of (sm_type m) c) = (skipped, found, rest)"
    by (metis prod.collapse)
  note cr = client_reply [OF True M assms]
  have "outstanding c' + length (queue_of (sm_type m) c) = outstanding c + length rest"
    by (rule outstanding_update [OF True cr(2)])
  moreover have "length (callbacks out) = length skipped + (case found of None \<Rightarrow> 0 | Some r \<Rightarrow> 1)"
    unfolding cr(1) by (simp split: option.split)
  ultimately show ?thesis using match_request_length [OF M] by simp
next
  case False
  have cb: "callbacks (map (ClientSend p) qs) = []" for qs by (induction qs) simp_all
  have "queue_of ty c' = queue_of ty c" for ty
    using assms False by (cases "sm_type m")
      (auto simp: client_OnMessage_def is_request_def OnNotification_def client_OnConnect_def client_OnConnection_def Let_def
        case_prod_beta queue_frames intro!: queue_of_cong split: if_splits)
  moreover have "callbacks out = []"
    using assms False by (cases "sm_type m")
      (auto simp: client_OnMessage_def is_request_def OnNotification_def client_OnConnect_def client_OnConnection_def Let_def
        case_prod_beta cb split: if_splits)
  ultimately show ?thesis using outstanding_cong [of c' c] by simp
qed

text \<open>An operation adds at most one request; the events of the connection add none and call nobody back.\<close>

lemma op_outstanding: "outstanding (fst (do_client_op pb p op c)) \<le> outstanding c + (if op_request pb op = None then 0 else 1)"
  by (cases op) (simp_all add: outstanding_def request_types_def request_defs connection_defs TrySendInLoop_def Let_def
      case_prod_beta queue_frames split: option.split)

lemma connection_quiet:
  assumes "op \<in> {OpConnection, OpFailure, OpClosed, OpRetry, OpPing}"
  shows "op_request pb op = None" and "callbacks (snd (do_client_op pb p op c)) = []"
  using assms by (auto simp: connection_defs client_OnTimer_def client_Connect_addr_def Let_def case_prod_beta split: option.split)

lemma GetLine_balance:
  assumes N: "split [] = []" and G: "GetLine pb split p z = Some z'"
  shows "outstanding (my_client z') + my_tasks z' \<le> Suc (outstanding (my_client z) + my_tasks z)"
proof -
  have D: "command_done (next_command (cl_root (my_client z)) split (my_watcher z) (my_in z)) pb p z (Some z')"
    using GetLine_reads [where split = split and z = z and pb = pb and p = p, OF N] by (simp only: G)
  have close: "outstanding (saber_client (fst (Saber_Close p s))) = outstanding (saber_client s)" for s
    by (simp add: Saber_Close_def client_Close_def outstanding_def request_types_def Let_def case_prod_beta)
  show ?thesis
  proof (cases "next_command (cl_root (my_client z)) split (my_watcher z) (my_in z)")
    case None
    then show ?thesis using D by (simp add: command_done_def)
  next
    case (Some x)
    then obtain k ls where x: "x = (k, ls)" by (cases x)
    show ?thesis
    proof (cases k)
      case QuitCommand
      then show ?thesis using D close [of "my_saber z"] by (simp add: Some x command_done_def)
    next
      case (RequestCommand op)
      have "outstanding (fst (do_client_op pb p op (my_client z))) \<le> Suc (outstanding (my_client z))"
        using op_outstanding [of pb p op "my_client z"] by (simp split: if_splits)
      then show ?thesis using D by (simp add: Some x RequestCommand command_done_def issued_def)
    qed
  qed
qed

lemma console_balance:
  assumes N: "split [] = []" and "console_reach pb dbg split z"
  shows "outstanding (my_client z) + my_tasks z \<le> 1"
  using assms(2)
proof (induction rule: console_reach.induct)
  case (console_start csplit shuffle w0 w prog args lines z p z')
  have z: "my_tasks z = 0" "connect_flag (my_saber z) = False" "outstanding (fst (client_Connect (my_client z))) = 0"
    using console_start(1) by (auto simp: client_main_def MySaber_new_def SaberClient_ctor_def SaberClient_new_def client_Connect_def
        connect_next_def ClearMessage_def outstanding_def request_types_def Let_def split: list.splits option.splits prod.splits)
  then show ?case using console_start(2) GetLine_balance [where split = split, OF N]
    by (fastforce simp: My_Start_def Saber_Connect_def Let_def case_prod_beta)
next
  case (console_next z z')
  from console_next(2) show ?case
  proof cases
    case (menu n p)
    then show ?thesis using GetLine_balance [where split = split, OF N menu(3)] console_next.IH by simp
  next
    case (connection op p)
    then show ?thesis using connection_quiet [OF connection(2), of pb] op_outstanding [of pb p op "my_client z"] console_next.IH
      by (simp add: react_simps)
  next
    case (message csplit shuffle p m)
    then show ?thesis using message_outstanding [of pb csplit shuffle p m "my_client z"] console_next.IH
      by (cases "client_OnMessage pb csplit shuffle p m (my_client z)") (auto simp: react_simps)
  qed
qed

section \<open>The properties\<close>

text \<open>C36: what the interactive client reads, on every input. A menu reads the input up to the next command: numbers that are not
  in the menu, and lines that do not describe a request below the root, are skipped and asked for again. If there is a
  command, the menu returns, the rest of the input is not touched, and the client has taken exactly that request,
  or was closed on quit. If the input ends before, the menu never returns.\<close>

theorem console_reads_next_command:
  assumes "split_law CHR ''|'' split"
  shows "(GetLine pb split p z = None \<longleftrightarrow> next_command (cl_root (my_client z)) split (my_watcher z) (my_in z) = None) \<and>
    (\<forall>op ls. next_command (cl_root (my_client z)) split (my_watcher z) (my_in z) = Some (RequestCommand op, ls) \<longrightarrow>
      (\<exists>z'. GetLine pb split p z = Some z' \<and> my_in z' = ls \<and> my_exited z' = my_exited z \<and>
        my_client z' = fst (do_client_op pb p op (my_client z)) \<and>
        client_effects (my_out z') = client_effects (my_out z) @ snd (do_client_op pb p op (my_client z)))) \<and>
    (\<forall>ls. next_command (cl_root (my_client z)) split (my_watcher z) (my_in z) = Some (QuitCommand, ls) \<longrightarrow>
      (\<exists>z'. GetLine pb split p z = Some z' \<and> my_in z' = ls \<and> my_exited z' \<and>
        client_effects (my_out z') = client_effects (my_out z) @ snd (Saber_Close p (my_saber z))))"
proof -
  have "split [] = []" by (rule split_law_Nil [OF assms])
  note D = GetLine_reads [where split = split and z = z and pb = pb and p = p, OF this]
  show ?thesis
  proof (cases "next_command (cl_root (my_client z)) split (my_watcher z) (my_in z)")
    case (Some x)
    then obtain k ls where "x = (k, ls)" by (cases x)
    then show ?thesis using D Some by (cases k) (auto simp: command_done_def issued_def)
  qed (use D in \<open>simp add: command_done_def\<close>)
qed

definition ex_console :: MySaber where
  "ex_console = MySaber_new \<lparr>connect_flag = True, saber_client = SaberClient_new ''/ls'' ServerManagerImpl_new None\<rparr> 3
     [''9'', ''0'', ''/ls/a|x'', ''/b/a|x|2'', ''/ls/a|x|2'', ''quit'']"

theorem console_reads_next_command_witness:
  "\<exists>z'. GetLine blank_codec (split_on CHR ''|'') None ex_console = Some z' \<and> my_in z' = [''quit'']"
proof -
  have "next_command (cl_root (my_client ex_console)) (split_on CHR ''|'') (my_watcher ex_console) (my_in ex_console) =
      Some (RequestCommand (OpCreate \<lparr>crq_node_type = NT_EPHEMERAL, crq_path = ''/ls/a'', crq_data = ''x''\<rparr> 0 0), [''quit''])"
    by code_simp
  then show ?thesis using console_reads_next_command [OF split_on_law, of blank_codec None ex_console] by auto
qed

text \<open>C37: the interactive client has at most one request outstanding, and never asks for a command while one is: in every
  reachable state the requests that wait for a reply and the menus that are queued are together at most one. The
  reply to the request that waits queues the menu again.\<close>

theorem console_one_at_a_time:
  assumes split: "split_law CHR ''|'' split" and reach: "console_reach pb dbg split z"
  shows "outstanding (my_client z) + my_tasks z \<le> 1 \<and>
    (is_request (sm_type m) \<and> queue_of (sm_type m) (my_client z) = [r] \<and> rq_id r = sm_id m \<longrightarrow>
      my_tasks (react dbg (fst (client_OnMessage pb csplit shuffle p m (my_client z))) z) = 1)"
proof -
  have b: "outstanding (my_client z) + my_tasks z \<le> 1" by (rule console_balance [OF split_law_Nil [OF split] reach])
  moreover have "my_tasks (react dbg (fst (client_OnMessage pb csplit shuffle p m (my_client z))) z) = 1"
    if ty: "is_request (sm_type m)" and q: "queue_of (sm_type m) (my_client z) = [r]" and r: "rq_id r = sm_id m"
  proof -
    obtain c out x where E: "client_OnMessage pb csplit shuffle p m (my_client z) = ((c, out), x)" by (metis prod.collapse)
    have M: "match_request (sm_id m) (queue_of (sm_type m) (my_client z)) = ([], Some r, [])" using r by (simp add: q)
    have "length (callbacks out) = 1" using client_reply(1) [OF ty M E] by simp
    moreover have "outstanding c + length (callbacks out) \<le> outstanding (my_client z)" by (rule message_outstanding [OF E])
    ultimately show ?thesis using b by (simp add: react_simps E)
  qed
  ultimately show ?thesis by blast
qed

definition ex_started :: "MySaber option" where
  "ex_started =
     (case client_main (split_on CHR '','') id 1 3 ''mysaber'' [''h:1''] [''3'', ''/ls/a|1'', ''quit''] of
        Inl x \<Rightarrow> None
      | Inr z \<Rightarrow> My_Start blank_codec (split_on CHR ''|'') None z)"

theorem console_one_at_a_time_witness:
  "\<exists>z. ex_started = Some z \<and> outstanding (my_client z) = 1 \<and> my_tasks z = 0"
proof -
  have o: "map_option (\<lambda>z. outstanding (my_client z)) ex_started = Some 1" by code_simp
  then obtain z where z: "ex_started = Some z" and one: "outstanding (my_client z) = 1" by auto
  obtain z0 where z0: "client_main (split_on CHR '','') id 1 3 ''mysaber'' [''h:1''] [''3'', ''/ls/a|1'', ''quit''] = Inr z0"
    by (simp add: client_main_def)
  have "My_Start blank_codec (split_on CHR ''|'') None z0 = Some z" using z unfolding ex_started_def z0 by (simp only: sum.case)
  then have "console_reach blank_codec dbg (split_on CHR ''|'') z" for dbg by (rule console_start [OF z0])
  then have "outstanding (my_client z) + my_tasks z \<le> 1" using console_one_at_a_time [OF split_on_law] by blast
  then show ?thesis using z one by (intro exI [of _ z]) simp
qed

text \<open>Two consequences for the user: letters select the first entry of the menu, and at the end of input the program
  recurses for ever.\<close>

lemma letters_select_create: "kind_of ''help'' = Some kCreate"
  by code_simp

lemma end_of_input_hangs: "split [] = [] \<Longrightarrow> my_in z = [] \<Longrightarrow> GetLine pb split p z = None"
  using GetLine_reads [where split = split and z = z and pb = pb and p = p] by (simp add: command_done_def)

end
