(* ===== verification/RunLoopThread.thy ===== *)
theory RunLoopThread
  imports Refinement
begin

text \<open>
  \<^verbatim>\<open>RunLoopThread\<close> (\<^verbatim>\<open>saber/util/runloop_thread.{h,cc}\<close>), which starts the \<^verbatim>\<open>RunLoop\<close> of the server in a thread of its own and
  stops it in the destructor, with \<^verbatim>\<open>RunLoop::Exit\<close> (\<^verbatim>\<open>saber/util/runloop.cc\<close>). A step is one access to a variable that the two
  threads share (\<^verbatim>\<open>loop_\<close>, \<^verbatim>\<open>exit_\<close>, the members of the loop, the mutex and the condition variable of the start).
  \<open>MainThread\<close> is the owner: it calls \<^verbatim>\<open>Loop()\<close>, later the destructor. \<open>LoopThread\<close> runs \<^verbatim>\<open>ThreadFunc\<close>; a round of
  \<^verbatim>\<open>RunLoop::Loop\<close> is one step, since it always ends: \<^verbatim>\<open>wait_for\<close> has a limit. \<open>CallbackExit\<close> is a function in the loop that
  calls \<^verbatim>\<open>Exit()\<close>; nobody can queue one before \<^verbatim>\<open>Loop()\<close> has returned. \<open>Spurious\<close> wakes a thread that waits for the
  condition. A step that is not enabled leaves the state as it is. The accesses are taken to be
  atomic and in order; the code makes no variable atomic.
\<close>

text \<open>How the destructor can go wrong: \<^verbatim>\<open>loop_\<close> is null when it is read for the call of \<^verbatim>\<open>Exit()\<close>; the loop is gone when
  \<^verbatim>\<open>Exit()\<close> writes \<^verbatim>\<open>exit_\<close>; the loop is gone when \<^verbatim>\<open>Exit()\<close> then reads \<^verbatim>\<open>tid_\<close> or notifies \<^verbatim>\<open>cond_\<close>.\<close>

datatype loop_fault = Null_Call | Dead_Write | Dead_Read

datatype main_pc =
    M_Start        \<comment> \<open>before the thread is made\<close>
  | M_Lock         \<comment> \<open>before \<open>mu_\<close> is taken\<close>
  | M_Test         \<comment> \<open>holds \<open>mu_\<close>, before the test of \<open>loop_\<close>\<close>
  | M_Wait         \<comment> \<open>in \<open>cond_.wait\<close>, without \<open>mu_\<close>\<close>
  | M_Wake         \<comment> \<open>woken, before \<open>mu_\<close> is taken again\<close>
  | M_Ready        \<comment> \<open>\<open>Loop()\<close> has returned\<close>
  | M_Destroy      \<comment> \<open>in the destructor, before the test of \<open>loop_\<close>\<close>
  | M_Load         \<comment> \<open>before \<open>loop_\<close> is read for the call of \<open>Exit()\<close>\<close>
  | M_SetExit      \<comment> \<open>before \<open>exit_ = true\<close>\<close>
  | M_ReadTid      \<comment> \<open>before \<open>tid_\<close> is read\<close>
  | M_Notify       \<comment> \<open>before \<open>cond_.notify_one()\<close> of the loop\<close>
  | M_Join         \<comment> \<open>in \<open>thread_->join()\<close>\<close>
  | M_Done
  | M_Fault loop_fault

datatype thread_pc =
    T_None         \<comment> \<open>there is no thread\<close>
  | T_Lock         \<comment> \<open>the loop is made; before \<open>mu_\<close> is taken\<close>
  | T_Publish      \<comment> \<open>holds \<open>mu_\<close>, before \<open>loop_ = &loop\<close>\<close>
  | T_Signal       \<comment> \<open>holds \<open>mu_\<close>, before \<open>cond_.notify_one()\<close>\<close>
  | T_Unlock       \<comment> \<open>holds \<open>mu_\<close>\<close>
  | T_Enter        \<comment> \<open>before \<open>exit_ = false\<close> in \<open>RunLoop::Loop\<close>\<close>
  | T_Top          \<comment> \<open>before the test of \<open>exit_\<close>\<close>
  | T_Body         \<comment> \<open>in a round\<close>
  | T_Left         \<comment> \<open>before \<open>loop_ = nullptr\<close>\<close>
  | T_Cleared      \<comment> \<open>before the end of the life of \<open>loop\<close>\<close>
  | T_Done

record loop_thread =
  main_at :: main_pc
  thread_at :: thread_pc
  loop_set :: bool
  exit_set :: bool

datatype actor = MainThread | LoopThread | CallbackExit | Spurious

definition RunLoopThread_new :: loop_thread where
  "RunLoopThread_new = \<lparr>main_at = M_Start, thread_at = T_None, loop_set = False, exit_set = False\<rparr>"

text \<open>The mutex is held by the thread whose program counter says so.\<close>

definition mu_free :: "loop_thread \<Rightarrow> bool" where
  "mu_free s \<longleftrightarrow> main_at s \<noteq> M_Test \<and> thread_at s \<notin> {T_Publish, T_Signal, T_Unlock}"

definition touch_loop :: "loop_fault \<Rightarrow> main_pc \<Rightarrow> loop_thread \<Rightarrow> loop_thread" where
  "touch_loop f pc s = s\<lparr>main_at := (if thread_at s = T_Done then M_Fault f else pc)\<rparr>"

definition Exit_write :: "loop_thread \<Rightarrow> loop_thread" where
  "Exit_write s = (if thread_at s = T_Done then s\<lparr>main_at := M_Fault Dead_Write\<rparr> else s\<lparr>main_at := M_ReadTid, exit_set := True\<rparr>)"

definition main_step :: "loop_thread \<Rightarrow> loop_thread" where
  "main_step s =
     (case main_at s of
        M_Start \<Rightarrow> s\<lparr>main_at := M_Lock, thread_at := T_Lock\<rparr>
      | M_Lock \<Rightarrow> (if mu_free s then s\<lparr>main_at := M_Test\<rparr> else s)
      | M_Test \<Rightarrow> s\<lparr>main_at := (if loop_set s then M_Ready else M_Wait)\<rparr>
      | M_Wake \<Rightarrow> (if mu_free s then s\<lparr>main_at := M_Test\<rparr> else s)
      | M_Ready \<Rightarrow> s\<lparr>main_at := M_Destroy\<rparr>
      | M_Destroy \<Rightarrow> s\<lparr>main_at := (if loop_set s then M_Load else M_Join)\<rparr>
      | M_Load \<Rightarrow> s\<lparr>main_at := (if loop_set s then M_SetExit else M_Fault Null_Call)\<rparr>
      | M_SetExit \<Rightarrow> Exit_write s
      | M_ReadTid \<Rightarrow> touch_loop Dead_Read M_Notify s
      | M_Notify \<Rightarrow> touch_loop Dead_Read M_Join s
      | M_Join \<Rightarrow> (if thread_at s = T_Done then s\<lparr>main_at := M_Done\<rparr> else s)
      | _ \<Rightarrow> s)"

definition thread_step :: "loop_thread \<Rightarrow> loop_thread" where
  "thread_step s =
     (case thread_at s of
        T_Lock \<Rightarrow> (if mu_free s then s\<lparr>thread_at := T_Publish\<rparr> else s)
      | T_Publish \<Rightarrow> s\<lparr>thread_at := T_Signal, loop_set := True\<rparr>
      | T_Signal \<Rightarrow> s\<lparr>thread_at := T_Unlock, main_at := (if main_at s = M_Wait then M_Wake else main_at s)\<rparr>
      | T_Unlock \<Rightarrow> s\<lparr>thread_at := T_Enter\<rparr>
      | T_Enter \<Rightarrow> s\<lparr>thread_at := T_Top, exit_set := False\<rparr>
      | T_Top \<Rightarrow> s\<lparr>thread_at := (if exit_set s then T_Left else T_Body)\<rparr>
      | T_Body \<Rightarrow> s\<lparr>thread_at := T_Top\<rparr>
      | T_Left \<Rightarrow> s\<lparr>thread_at := T_Cleared, loop_set := False\<rparr>
      | T_Cleared \<Rightarrow> s\<lparr>thread_at := T_Done\<rparr>
      | _ \<Rightarrow> s)"

definition starting :: "loop_thread \<Rightarrow> bool" where
  "starting s \<longleftrightarrow> main_at s \<in> {M_Start, M_Lock, M_Test, M_Wait, M_Wake}"

definition callback_step :: "loop_thread \<Rightarrow> loop_thread" where
  "callback_step s = (if thread_at s = T_Body \<and> \<not> starting s then s\<lparr>exit_set := True\<rparr> else s)"

definition spurious_step :: "loop_thread \<Rightarrow> loop_thread" where
  "spurious_step s = (if main_at s = M_Wait then s\<lparr>main_at := M_Wake\<rparr> else s)"

fun actor_step :: "actor \<Rightarrow> loop_thread \<Rightarrow> loop_thread \<times> unit" where
  "actor_step MainThread s = (main_step s, ())"
| "actor_step LoopThread s = (thread_step s, ())"
| "actor_step CallbackExit s = (callback_step s, ())"
| "actor_step Spurious s = (spurious_step s, ())"

abbreviation schedule :: "actor list \<Rightarrow> loop_thread \<Rightarrow> loop_thread" where
  "schedule xs s \<equiv> fst (run_ops actor_step xs s)"

lemmas step_defs = main_step_def thread_step_def callback_step_def spurious_step_def starting_def mu_free_def
  touch_loop_def Exit_write_def

section \<open>The invariant\<close>

definition entered :: "loop_thread \<Rightarrow> bool" where
  "entered s \<longleftrightarrow> thread_at s \<in> {T_Enter, T_Top, T_Body, T_Left, T_Cleared, T_Done}"

definition lt_ok :: "loop_thread \<Rightarrow> bool" where
  "lt_ok s \<longleftrightarrow>
     (main_at s = M_Start \<longleftrightarrow> thread_at s = T_None) \<and>
     (loop_set s \<longleftrightarrow> thread_at s \<in> {T_Signal, T_Unlock, T_Enter, T_Top, T_Body, T_Left}) \<and>
     (main_at s = M_Test \<longrightarrow> thread_at s \<notin> {T_Publish, T_Signal, T_Unlock}) \<and>
     (main_at s = M_Wait \<longrightarrow> thread_at s \<in> {T_Lock, T_Publish, T_Signal}) \<and>
     (if starting s then \<not> exit_set s \<and> thread_at s \<notin> {T_Left, T_Cleared, T_Done} else entered s)"

lemma lt_ok_new: "lt_ok RunLoopThread_new"
  by (simp add: lt_ok_def RunLoopThread_new_def starting_def)

interpretation lthread: invariant_system lt_ok "\<lambda>_. True" actor_step
proof
  fix s x
  assume "lt_ok s"
  then show "lt_ok (fst (actor_step x s))"
    by (cases x; cases "main_at s"; cases "thread_at s") (simp_all add: lt_ok_def entered_def step_defs)
qed

lemma lt_ok_run: "lt_ok (schedule xs RunLoopThread_new)"
  by (rule lthread.run_inv [OF lt_ok_new]) (simp add: list_all_iff)

section \<open>Starting the thread\<close>

definition main_pcs :: "main_pc list" where
  "main_pcs = [M_Lock, M_Test, M_Wait, M_Wake, M_ReadTid, M_Notify, M_Join]"

definition thread_pcs :: "thread_pc list" where
  "thread_pcs = [T_None, T_Lock, T_Publish, T_Signal, T_Unlock, T_Enter, T_Top, T_Body, T_Left, T_Cleared, T_Done]"

text \<open>The states inside \<^verbatim>\<open>Loop()\<close> and after the call of \<^verbatim>\<open>Exit()\<close>.\<close>

definition states :: "loop_thread list" where
  "states = map (\<lambda>(m, t, l, e). \<lparr>main_at = m, thread_at = t, loop_set = l, exit_set = e\<rparr>)
     (List.product main_pcs (List.product thread_pcs (List.product [True, False] [True, False])))"

lemma in_states: "main_at s \<in> set main_pcs \<Longrightarrow> s \<in> set states"
proof (cases s)
  case (fields m t l e)
  have "t \<in> set thread_pcs" by (cases t) (simp_all add: thread_pcs_def)
  moreover have "l \<in> set [True, False]" "e \<in> set [True, False]" by auto
  moreover assume "main_at s \<in> set main_pcs"
  ultimately show ?thesis using fields unfolding states_def by (force simp: image_iff)
qed

definition returns_soon :: "loop_thread \<Rightarrow> bool" where
  "returns_soon s \<longleftrightarrow> (if lt_ok s \<and> starting s
     then \<not> starting (schedule ([MainThread, MainThread] @ replicate 5 LoopThread @ [MainThread, MainThread]) s) else True)"

lemma returns_soon_all: "list_all returns_soon states"
  by code_simp

lemma loop_returns:
  assumes "lt_ok s" and "main_at s \<in> {M_Lock, M_Test, M_Wait, M_Wake}"
  shows "\<not> starting (schedule ([MainThread, MainThread] @ replicate 5 LoopThread @ [MainThread, MainThread]) s)"
proof -
  have "s \<in> set states" by (rule in_states) (use assms(2) in \<open>auto simp: main_pcs_def\<close>)
  moreover have "starting s" using assms(2) by (auto simp: starting_def)
  ultimately show ?thesis using returns_soon_all assms(1) unfolding list_all_iff returns_soon_def by meson
qed

section \<open>Stopping the thread\<close>

text \<open>The thread is past recall when the owner has called \<^verbatim>\<open>Exit()\<close> and nothing will end the loop: it is about to
  reset \<^verbatim>\<open>exit_\<close>, or has done so.\<close>

definition called :: "loop_thread \<Rightarrow> bool" where
  "called s \<longleftrightarrow> main_at s \<in> {M_ReadTid, M_Notify, M_Join}"

definition lost :: "loop_thread \<Rightarrow> bool" where
  "lost s \<longleftrightarrow> called s \<and> (thread_at s = T_Enter \<or> thread_at s \<in> {T_Top, T_Body} \<and> \<not> exit_set s)"

interpretation lost: invariant_system lost "\<lambda>x. x \<noteq> CallbackExit" actor_step
proof
  fix s x
  assume "lost s" and "x \<noteq> CallbackExit"
  then show "lost (fst (actor_step x s))"
    by (cases x; cases "main_at s"; cases "thread_at s") (simp_all add: lost_def called_def step_defs)
qed

text \<open>Before the owner calls \<^verbatim>\<open>Exit()\<close>, only a function in the loop can end it.\<close>

definition tame :: "loop_thread \<Rightarrow> bool" where
  "tame s \<longleftrightarrow> lt_ok s \<and> main_at s \<notin> {M_Fault Null_Call, M_Fault Dead_Write} \<and>
     (main_at s \<in> {M_Ready, M_Destroy, M_Load, M_SetExit} \<longrightarrow> thread_at s \<in> {T_Enter, T_Top, T_Body} \<and> \<not> exit_set s)"

interpretation tame: invariant_system tame "\<lambda>x. x \<noteq> CallbackExit" actor_step
proof
  fix s x
  assume t: "tame s" and x: "x \<noteq> CallbackExit"
  have "lt_ok (fst (actor_step x s))" using t lthread.step_inv [of s x] by (simp add: tame_def)
  then show "tame (fst (actor_step x s))" using t x
    by (cases x; cases "main_at s"; cases "thread_at s")
      (simp_all add: tame_def lt_ok_def entered_def step_defs split: if_splits)
qed

definition ends_soon :: "loop_thread \<Rightarrow> bool" where
  "ends_soon s \<longleftrightarrow> (if lt_ok s \<and> called s \<and> \<not> lost s
     then main_at (schedule (replicate 4 LoopThread) s) = main_at s \<and> thread_at (schedule (replicate 4 LoopThread) s) = T_Done else True)"

lemma ends_soon_all: "list_all ends_soon states"
  by code_simp

lemma thread_ends:
  assumes "lt_ok s" and "called s" and "\<not> lost s"
  shows "main_at (schedule (replicate 4 LoopThread) s) = main_at s \<and> thread_at (schedule (replicate 4 LoopThread) s) = T_Done"
proof -
  have "s \<in> set states" by (rule in_states) (use assms(2) in \<open>auto simp: main_pcs_def called_def\<close>)
  then have "ends_soon s" using ends_soon_all by (simp add: list_all_iff)
  then show ?thesis using assms unfolding ends_soon_def by meson
qed

lemma schedule_snoc: "schedule (xs @ [x]) s = fst (actor_step x (schedule xs s))"
  by (simp add: run_ops_append case_prod_beta Let_def)

lemma reaches_iff_not_lost:
  assumes ok: "lt_ok s" and c: "called s" and pc: "pc \<notin> {M_ReadTid, M_Notify, M_Join}"
    and last: "\<And>u. main_at u = main_at s \<Longrightarrow> thread_at u = T_Done \<Longrightarrow> main_at (main_step u) = pc"
  shows "(\<exists>ys. CallbackExit \<notin> set ys \<and> main_at (schedule ys s) = pc) \<longleftrightarrow> \<not> lost s"
proof
  assume "\<exists>ys. CallbackExit \<notin> set ys \<and> main_at (schedule ys s) = pc"
  then obtain ys where ys: "CallbackExit \<notin> set ys" "main_at (schedule ys s) = pc" by blast
  have "list_all (\<lambda>x. x \<noteq> CallbackExit) ys" using ys(1) by (auto simp: list_all_iff)
  then have "lost (schedule ys s)" if "lost s" using lost.run_inv [OF that] by blast
  then show "\<not> lost s" using ys(2) pc by (auto simp: lost_def called_def)
next
  assume "\<not> lost s"
  then have "main_at (schedule (replicate 4 LoopThread @ [MainThread]) s) = pc"
    unfolding schedule_snoc using thread_ends [OF ok c] last by simp
  then show "\<exists>ys. CallbackExit \<notin> set ys \<and> main_at (schedule ys s) = pc"
    by (intro exI [of _ "replicate 4 LoopThread @ [MainThread]"]) simp
qed

text \<open>C35: the thread of the run loop, in every interleaving of its accesses with those of its owner. (1) \<^verbatim>\<open>Loop()\<close> cannot
  miss its wakeup: an owner asleep implies that the thread has not yet notified, and from every state inside
  \<^verbatim>\<open>Loop()\<close> it can return. (2) If no function in the loop calls \<^verbatim>\<open>Exit()\<close>, the destructor neither calls through a null
  \<^verbatim>\<open>loop_\<close> nor writes \<^verbatim>\<open>exit_\<close> of a loop that is gone. (3) After that write there are two cases. If the thread had entered
  its loop, or has left it, then \<^verbatim>\<open>join\<close> can return; but until \<^verbatim>\<open>join\<close> is reached \<^verbatim>\<open>Exit()\<close> can also read \<^verbatim>\<open>tid_\<close> or notify \<^verbatim>\<open>cond_\<close> of
  a loop that is gone by then. If the thread had not entered its loop, it resets \<^verbatim>\<open>exit_\<close>, and then neither can
  happen: the thread runs for ever.\<close>

theorem loop_thread_lifecycle:
  assumes s: "s = schedule xs RunLoopThread_new"
  shows "(main_at s = M_Wait \<longrightarrow> thread_at s \<in> {T_Lock, T_Publish, T_Signal}) \<and>
    (main_at s \<in> {M_Lock, M_Test, M_Wait, M_Wake} \<longrightarrow>
      \<not> starting (schedule ([MainThread, MainThread] @ replicate 5 LoopThread @ [MainThread, MainThread]) s)) \<and>
    (main_at s \<in> {M_Fault Null_Call, M_Fault Dead_Write} \<longrightarrow> CallbackExit \<in> set xs) \<and>
    (main_at s = M_Join \<longrightarrow>
      ((\<exists>ys. CallbackExit \<notin> set ys \<and> main_at (schedule ys s) = M_Done) \<longleftrightarrow>
       thread_at s \<in> {T_Left, T_Cleared, T_Done} \<or> thread_at s \<in> {T_Top, T_Body} \<and> exit_set s)) \<and>
    (main_at s \<in> {M_ReadTid, M_Notify} \<longrightarrow>
      ((\<exists>ys. CallbackExit \<notin> set ys \<and> main_at (schedule ys s) = M_Fault Dead_Read) \<longleftrightarrow>
       thread_at s \<in> {T_Left, T_Cleared, T_Done} \<or> thread_at s \<in> {T_Top, T_Body} \<and> exit_set s))"
proof -
  have ok: "lt_ok s" unfolding s by (rule lt_ok_run)
  have "main_at s = M_Wait \<longrightarrow> thread_at s \<in> {T_Lock, T_Publish, T_Signal}" using ok unfolding lt_ok_def by blast
  moreover have "\<not> starting (schedule ([MainThread, MainThread] @ replicate 5 LoopThread @ [MainThread, MainThread]) s)"
    if "main_at s \<in> {M_Lock, M_Test, M_Wait, M_Wake}"
    by (rule loop_returns [OF ok that])
  moreover have "main_at s \<notin> {M_Fault Null_Call, M_Fault Dead_Write}" if "CallbackExit \<notin> set xs"
  proof -
    have "tame s" unfolding s
      by (rule tame.run_inv) (use that lt_ok_new in \<open>auto simp: tame_def RunLoopThread_new_def list_all_iff\<close>)
    then show ?thesis by (simp add: tame_def)
  qed
  moreover have L: "\<not> lost s \<longleftrightarrow> thread_at s \<in> {T_Left, T_Cleared, T_Done} \<or> thread_at s \<in> {T_Top, T_Body} \<and> exit_set s" if "called s"
    using ok that by (cases "thread_at s") (auto simp: lost_def called_def lt_ok_def entered_def starting_def)
  moreover have "(\<exists>ys. CallbackExit \<notin> set ys \<and> main_at (schedule ys s) = M_Done) \<longleftrightarrow> \<not> lost s" if "main_at s = M_Join"
    by (rule reaches_iff_not_lost [OF ok]) (use that in \<open>auto simp: called_def main_step_def\<close>)
  moreover have "(\<exists>ys. CallbackExit \<notin> set ys \<and> main_at (schedule ys s) = M_Fault Dead_Read) \<longleftrightarrow> \<not> lost s"
    if "main_at s \<in> {M_ReadTid, M_Notify}"
    by (rule reaches_iff_not_lost [OF ok]) (use that in \<open>auto simp: called_def main_step_def touch_loop_def\<close>)
  moreover have "called s" if "main_at s \<in> {M_ReadTid, M_Notify} \<or> main_at s = M_Join" using that by (auto simp: called_def)
  ultimately show ?thesis by blast
qed

text \<open>A server that is started and destroyed at once: with the thread about to enter its loop it never ends; with the
  thread in its loop, the loop can be gone before the destructor has finished with it.\<close>

definition started :: "actor list" where
  "started = [MainThread] @ replicate 4 LoopThread @ [MainThread, MainThread]"

definition to_join :: "actor list" where
  "to_join = replicate 6 MainThread"

definition to_notify :: "actor list" where
  "to_notify = replicate 2 LoopThread @ replicate 5 MainThread"

theorem loop_thread_lifecycle_witness:
  "main_at (schedule (started @ to_join) RunLoopThread_new) = M_Join \<and>
   \<not> (\<exists>ys. CallbackExit \<notin> set ys \<and> main_at (schedule ys (schedule (started @ to_join) RunLoopThread_new)) = M_Done) \<and>
   main_at (schedule (started @ to_notify) RunLoopThread_new) = M_Notify \<and>
   (\<exists>ys. CallbackExit \<notin> set ys \<and> main_at (schedule ys (schedule (started @ to_notify) RunLoopThread_new)) = M_Fault Dead_Read)"
proof -
  have "main_at (schedule (started @ to_join) RunLoopThread_new) = M_Join" "thread_at (schedule (started @ to_join) RunLoopThread_new) = T_Enter"
    "main_at (schedule (started @ to_notify) RunLoopThread_new) = M_Notify" "thread_at (schedule (started @ to_notify) RunLoopThread_new) = T_Body"
    "exit_set (schedule (started @ to_notify) RunLoopThread_new)" by code_simp+
  then show ?thesis
    using loop_thread_lifecycle [OF refl, of "started @ to_join"] loop_thread_lifecycle [OF refl, of "started @ to_notify"] by simp
qed

end
