(* ===== verification/CountDownLatch.thy ===== *)
theory CountDownLatch
  imports Refinement
begin

text \<open>
  \<^verbatim>\<open>CountDownLatch\<close> (\<^verbatim>\<open>saber/util/countdownlatch.h\<close>): threads that wait until a count is zero. The state has the count and,
  for each thread, where it is in \<^verbatim>\<open>Wait\<close>; an operation is one critical section. \<^verbatim>\<open>notify_one\<close> wakes one of the
  threads that sleep, which one is an argument of the operation; \<open>Spurious\<close> is a wakeup without a notification.
\<close>

datatype wait_pc = Outside | Sleeping | Woken | Returned

record CountDownLatch =
  count :: int
  waiters :: "wait_pc list"

datatype latch_op = Wait nat | Resume nat | CountDown nat | Spurious nat

definition CountDownLatch_new :: "int \<Rightarrow> nat \<Rightarrow> CountDownLatch" where
  "CountDownLatch_new n threads = \<lparr>count = n, waiters = replicate threads Outside\<rparr>"

definition GetCount :: "CountDownLatch \<Rightarrow> int" where
  "GetCount l = count l"

text \<open>The test in the loop of \<^verbatim>\<open>Wait\<close>, made when the thread comes in and each time it was woken.\<close>

definition wait_test :: "nat \<Rightarrow> CountDownLatch \<Rightarrow> CountDownLatch" where
  "wait_test i l = l\<lparr>waiters := (waiters l)[i := (if count l > 0 then Sleeping else Returned)]\<rparr>"

definition at_pc :: "wait_pc \<Rightarrow> nat \<Rightarrow> CountDownLatch \<Rightarrow> bool" where
  "at_pc pc i l \<longleftrightarrow> i < length (waiters l) \<and> waiters l ! i = pc"

definition notify_one :: "nat \<Rightarrow> CountDownLatch \<Rightarrow> CountDownLatch" where
  "notify_one pick l =
     (case filter (\<lambda>i. at_pc Sleeping i l) (pick # [0..<length (waiters l)]) of
        [] \<Rightarrow> l
      | i # _ \<Rightarrow> l\<lparr>waiters := (waiters l)[i := Woken]\<rparr>)"

definition count_down :: "nat \<Rightarrow> CountDownLatch \<Rightarrow> CountDownLatch" where
  "count_down pick l = (let l = l\<lparr>count := count l - 1\<rparr> in if count l = 0 then notify_one pick l else l)"

fun latch_step :: "latch_op \<Rightarrow> CountDownLatch \<Rightarrow> CountDownLatch \<times> unit" where
  "latch_step (Wait i) l = (if at_pc Outside i l then wait_test i l else l, ())"
| "latch_step (Resume i) l = (if at_pc Woken i l then wait_test i l else l, ())"
| "latch_step (CountDown pick) l = (count_down pick l, ())"
| "latch_step (Spurious i) l = (if at_pc Sleeping i l then l\<lparr>waiters := (waiters l)[i := Woken]\<rparr> else l, ())"

abbreviation latch_run :: "latch_op list \<Rightarrow> CountDownLatch \<Rightarrow> CountDownLatch" where
  "latch_run xs l \<equiv> fst (run_ops latch_step xs l)"

definition sleepers :: "CountDownLatch \<Rightarrow> nat" where
  "sleepers l = length (filter (\<lambda>pc. pc = Sleeping) (waiters l))"

definition count_downs :: "latch_op list \<Rightarrow> nat" where
  "count_downs xs = length (filter (\<lambda>x. case x of CountDown _ \<Rightarrow> True | _ \<Rightarrow> False) xs)"

section \<open>Waking one thread\<close>

lemma sleepers_update:
  assumes "i < length xs"
  shows "length (filter P (xs[i := x])) + (if P (xs ! i) then 1 else 0) = length (filter P xs) + (if P x then 1 else 0)"
  using assms
proof (induction xs arbitrary: i)
  case (Cons y xs)
  then show ?case by (cases i) auto
qed simp

lemma notify_one_cases:
  obtains (none) "notify_one pick l = l" "sleepers l = 0"
  | (one) i where "at_pc Sleeping i l" "notify_one pick l = l\<lparr>waiters := (waiters l)[i := Woken]\<rparr>"
proof (cases "filter (\<lambda>i. at_pc Sleeping i l) (pick # [0..<length (waiters l)])")
  case Nil
  have "\<not> at_pc Sleeping i l" if "i < length (waiters l)" for i
    using that Nil by (auto simp: filter_empty_conv split: if_splits)
  then have "sleepers l = 0" by (auto simp: sleepers_def at_pc_def filter_empty_conv in_set_conv_nth)
  then show ?thesis using Nil none by (simp add: notify_one_def)
next
  case (Cons i rest)
  then have "i \<in> set (filter (\<lambda>i. at_pc Sleeping i l) (pick # [0..<length (waiters l)]))" by simp
  then have "at_pc Sleeping i l" by (auto split: if_splits)
  then show ?thesis using Cons one by (simp add: notify_one_def)
qed

section \<open>The invariant\<close>

definition latch_ok :: "nat \<Rightarrow> CountDownLatch \<Rightarrow> bool" where
  "latch_ok threads l \<longleftrightarrow> length (waiters l) = threads \<and>
     (Returned \<in> set (waiters l) \<longrightarrow> count l \<le> 0) \<and> (count l \<le> 0 \<longrightarrow> sleepers l < max 1 threads)"

lemma latch_ok_set:
  assumes ok: "latch_ok threads l" and i: "i < threads" and "pc = Sleeping \<longrightarrow> 0 < count l" and "pc = Returned \<longrightarrow> count l \<le> 0"
  shows "latch_ok threads (l\<lparr>waiters := (waiters l)[i := pc]\<rparr>)"
proof -
  have i': "i < length (waiters l)" using ok i by (simp add: latch_ok_def)
  have "sleepers (l\<lparr>waiters := (waiters l)[i := pc]\<rparr>) \<le> sleepers l" if "count l \<le> 0"
    using sleepers_update [OF i', of "\<lambda>pc. pc = Sleeping" pc] that assms(3) by (auto simp: sleepers_def split: if_splits)
  then show ?thesis using ok assms(4) set_update_subset_insert [of "waiters l" i pc]
    by (auto simp: latch_ok_def dest: le_less_trans)
qed

lemma latch_ok_count:
  assumes ok: "latch_ok threads l"
  shows "latch_ok threads (count_down pick l)"
proof -
  let ?l = "l\<lparr>count := count l - 1\<rparr>"
  have le: "sleepers l \<le> threads" using ok by (auto simp: latch_ok_def sleepers_def)
  have r: "length (waiters l) = threads" "Returned \<in> set (waiters l) \<longrightarrow> count l \<le> 0" using ok by (simp_all add: latch_ok_def)
  show ?thesis
  proof (cases "count l - 1 = 0")
    case False
    then have "latch_ok threads ?l" using ok by (auto simp: latch_ok_def sleepers_def)
    then show ?thesis using False by (simp add: count_down_def)
  next
    case True
    have "latch_ok threads (notify_one pick ?l)"
    proof (cases rule: notify_one_cases [of pick ?l])
      case none
      then show ?thesis using r True by (auto simp: latch_ok_def)
    next
      case (one i)
      have i: "i < length (waiters l)" "waiters l ! i = Sleeping" using one(1) by (auto simp: at_pc_def)
      have "Suc (sleepers (?l\<lparr>waiters := (waiters l)[i := Woken]\<rparr>)) = sleepers l"
        using sleepers_update [OF i(1), of "\<lambda>pc. pc = Sleeping" Woken] i(2) by (simp add: sleepers_def)
      then show ?thesis using one(2) r True le set_update_subset_insert [of "waiters l" i Woken] by (auto simp: latch_ok_def)
    qed
    then show ?thesis using True by (simp add: count_down_def)
  qed
qed

interpretation latch: invariant_system "latch_ok threads" "\<lambda>_. True" latch_step for threads
proof
  fix l x
  assume ok: "latch_ok threads l"
  then have len: "length (waiters l) = threads" by (simp add: latch_ok_def)
  show "latch_ok threads (fst (latch_step x l))"
  proof (cases x)
    case (CountDown pick)
    then show ?thesis using latch_ok_count [OF ok] by simp
  qed (use ok len in \<open>auto simp: at_pc_def wait_test_def intro!: latch_ok_set\<close>)
qed

lemma count_notify [simp]: "count (notify_one pick l) = count l"
  by (simp add: notify_one_def split: list.split)

lemma latch_count: "count (latch_run xs l) = count l - int (count_downs xs)"
proof (induction xs arbitrary: l)
  case (Cons x xs)
  have "count (fst (latch_step x l)) = count l - int (count_downs [x])"
    by (cases x) (auto simp: wait_test_def count_down_def count_downs_def Let_def)
  moreover have "count_downs (x # xs) = count_downs [x] + count_downs xs" by (simp add: count_downs_def)
  ultimately show ?case using Cons.IH [of "fst (latch_step x l)"] by (simp add: case_prod_beta Let_def)
qed (simp add: count_downs_def)

text \<open>Once the count is zero, only a spurious wakeup can wake a thread that still sleeps.\<close>

interpretation stuck: invariant_system "\<lambda>l. count l \<le> 0 \<and> at_pc Sleeping i l" "\<lambda>x. x \<noteq> Spurious i" latch_step for i
proof
  fix l x
  assume "count l \<le> 0 \<and> at_pc Sleeping i l" and "x \<noteq> Spurious i"
  then show "count (fst (latch_step x l)) \<le> 0 \<and> at_pc Sleeping i (fst (latch_step x l))"
    by (cases x) (auto simp: at_pc_def wait_test_def count_down_def nth_list_update Let_def)
qed

text \<open>A latch with a positive count, in every interleaving of the critical sections. No thread returns from \<^verbatim>\<open>Wait\<close> before the
  count-th call of \<^verbatim>\<open>CountDown\<close>. After it, one thread that waits is awake. But only one is woken: of several
  threads that wait, all others sleep for ever, unless they wake without a notification.\<close>

lemma latch_wakes_one:
  assumes n: "0 < n" and l: "l = latch_run xs (CountDownLatch_new n threads)"
  shows "(Returned \<in> set (waiters l) \<longrightarrow> n \<le> int (count_downs xs)) \<and>
    (n \<le> int (count_downs xs) \<longrightarrow> sleepers l < max 1 threads \<and>
      (\<forall>i ys. at_pc Sleeping i l \<and> Spurious i \<notin> set ys \<longrightarrow> at_pc Sleeping i (latch_run ys l)))"
proof -
  have c: "count l = n - int (count_downs xs)" unfolding l latch_count by (simp add: CountDownLatch_new_def)
  have "latch_ok threads (CountDownLatch_new n threads)"
    using n by (simp add: latch_ok_def CountDownLatch_new_def)
  then have "latch_ok threads l" unfolding l using latch.run_inv [of threads _ xs] by (simp add: list_all_iff)
  then have ok: "Returned \<in> set (waiters l) \<longrightarrow> count l \<le> 0" "count l \<le> 0 \<longrightarrow> sleepers l < max 1 threads"
    by (simp_all add: latch_ok_def)
  have "at_pc Sleeping i (latch_run ys l)" if "count l \<le> 0" "at_pc Sleeping i l" "Spurious i \<notin> set ys" for i ys
    using stuck.run_inv [of l i ys] that by (auto simp: list_all_iff)
  then show ?thesis using c ok by simp
qed

end
