(* ===== verification/Logging.thy ===== *)
theory Logging
  imports Strings
begin

text \<open>
  \<^verbatim>\<open>saber/util/logging.{h,cc}\<close> and the clock of \<^verbatim>\<open>saber/util/timeops.cc\<close>. A message is first printed into a buffer of 500
  characters and, if it does not fit, into one of 30000. The characters of a buffer are those before its
  terminating zero; the texts that are printed hold none. The variable arguments of the message are formatted by
  the C library: \<open>msg\<close> is their text. What \<^verbatim>\<open>gettimeofday\<close> and \<^verbatim>\<open>localtime_r\<close> return is an argument, read anew for each
  buffer.
\<close>

section \<open>Levels\<close>

datatype LogLevel = LOGLEVEL_DEBUG | LOGLEVEL_INFO | LOGLEVEL_WARN | LOGLEVEL_ERROR | LOGLEVEL_FATAL

fun level_number :: "LogLevel \<Rightarrow> nat" where
  "level_number LOGLEVEL_DEBUG = 0"
| "level_number LOGLEVEL_INFO = 1"
| "level_number LOGLEVEL_WARN = 2"
| "level_number LOGLEVEL_ERROR = 3"
| "level_number LOGLEVEL_FATAL = 4"

lemma level_number_inj: "level_number a = level_number b \<longleftrightarrow> a = b"
  by (cases a; cases b) simp_all

text \<open>The values of the enumeration are compared as numbers.\<close>

instantiation LogLevel :: linorder
begin

definition less_eq_LogLevel :: "LogLevel \<Rightarrow> LogLevel \<Rightarrow> bool" where
  "less_eq_LogLevel a b \<longleftrightarrow> level_number a \<le> level_number b"

definition less_LogLevel :: "LogLevel \<Rightarrow> LogLevel \<Rightarrow> bool" where
  "less_LogLevel a b \<longleftrightarrow> level_number a < level_number b"

instance
  by standard (auto simp: less_eq_LogLevel_def less_LogLevel_def level_number_inj [symmetric])

end

lemma level_bounds: "LOGLEVEL_DEBUG \<le> a" "a \<le> LOGLEVEL_FATAL"
  by (cases a; simp add: less_eq_LogLevel_def)+

definition level_name :: "LogLevel \<Rightarrow> string" where
  "level_name a = [''DEBUG'', ''INFO'', ''WARN'', ''ERROR'', ''FATAL''] ! level_number a"

section \<open>The default handler\<close>

record log_time =
  tm_year :: nat
  tm_mon :: nat
  tm_mday :: nat
  tm_hour :: nat
  tm_min :: nat
  tm_sec :: nat
  tv_usec :: nat

definition log_header :: "log_time \<Rightarrow> LogLevel \<Rightarrow> string \<Rightarrow> nat \<Rightarrow> string" where
  "log_header t level filename line =
     ''['' @ zero_pad 4 (show_nat (tm_year t + 1900)) @ ''/'' @ zero_pad 2 (show_nat (tm_mon t + 1)) @ ''/'' @
     zero_pad 2 (show_nat (tm_mday t)) @ ''-'' @ zero_pad 2 (show_nat (tm_hour t)) @ '':'' @ zero_pad 2 (show_nat (tm_min t)) @ '':'' @
     zero_pad 2 (show_nat (tm_sec t)) @ ''.'' @ zero_pad 6 (show_nat (tv_usec t)) @ ''][''  @ level_name level @ '' '' @ filename @
     '':'' @ show_nat line @ ''] ''"

text \<open>\<^verbatim>\<open>snprintf(base + p, limit - p, ...)\<close>: what the buffer holds afterwards, and the position after the whole text, written or
  not.\<close>

definition snprintf :: "string \<Rightarrow> nat \<times> nat \<Rightarrow> string \<Rightarrow> string \<times> nat" where
  "snprintf base at s = (let (p, limit) = at in (take p base @ take (limit - p - 1) s, p + length s))"

text \<open>One pass of the loop: the buffer and the position \<^verbatim>\<open>p\<close>.\<close>

definition log_pass :: "nat \<Rightarrow> string \<Rightarrow> string \<Rightarrow> string \<times> nat" where
  "log_pass bufsize header msg =
     (let (base, p) = snprintf [] (0, bufsize) header
      in if p < bufsize then snprintf base (p, bufsize) msg else (base, p))"

record log_output =
  stderr_text :: string
  aborted :: bool

definition DefaultLogHandler :: "log_time \<Rightarrow> log_time \<Rightarrow> LogLevel \<Rightarrow> string \<Rightarrow> nat \<Rightarrow> string \<Rightarrow> log_output" where
  "DefaultLogHandler now1 now2 level filename line msg =
     (let (base, p) = log_pass 500 (log_header now1 level filename line) msg;
          base = (if p \<ge> 500 then fst (log_pass 30000 (log_header now2 level filename line) msg) else base)
      in \<lparr>stderr_text = base @ [CHR 10], aborted = (level = LOGLEVEL_FATAL)\<rparr>)"

section \<open>The handler and the level in use\<close>

text \<open>A handler is the default one or one of the application; the latter is known by its address.\<close>

datatype LogHandler = DefaultHandler | AppHandler nat

datatype log_call = DefaultCall log_output | AppCall nat LogLevel string nat string

record logger =
  log_handler :: "LogHandler option"
  log_level :: LogLevel

definition logger_new :: logger where
  "logger_new = \<lparr>log_handler = Some DefaultHandler, log_level = LOGLEVEL_DEBUG\<rparr>"

definition Log :: "log_time \<Rightarrow> log_time \<Rightarrow> LogLevel \<Rightarrow> string \<Rightarrow> nat \<Rightarrow> string \<Rightarrow> logger \<Rightarrow> log_call option" where
  "Log now1 now2 level filename line msg g =
     (case log_handler g of
        None \<Rightarrow> None
      | Some h \<Rightarrow>
          if level \<ge> log_level g
          then Some (case h of
                       DefaultHandler \<Rightarrow> DefaultCall (DefaultLogHandler now1 now2 level filename line msg)
                     | AppHandler k \<Rightarrow> AppCall k level filename line msg)
          else None)"

definition SetLogHandler :: "LogHandler option \<Rightarrow> logger \<Rightarrow> logger \<times> LogHandler option" where
  "SetLogHandler new_handler g = (g\<lparr>log_handler := new_handler\<rparr>, log_handler g)"

definition SetLogLevel :: "LogLevel \<Rightarrow> logger \<Rightarrow> logger \<times> LogLevel" where
  "SetLogLevel new_level g = (g\<lparr>log_level := new_level\<rparr>, log_level g)"

section \<open>The clock\<close>

definition NowMillis :: "u64 \<Rightarrow> u64 \<Rightarrow> u64" where
  "NowMillis sec usec = sec * 1000 + usec div 1000"

definition NowMicros :: "u64 \<Rightarrow> u64 \<Rightarrow> u64" where
  "NowMicros sec usec = sec * 1000000 + usec"

lemma millis_of_micros:
  assumes "unat s * 1000000 + 999999 < 2 ^ 64" and "unat u < 1000000"
  shows "unat (NowMillis s u) = unat (NowMicros s u) div 1000"
proof -
  have "unat (s * 1000000 + u) = unat s * 1000000 + unat u" and "unat (s * 1000 + u div 1000) = unat s * 1000 + unat u div 1000"
    using assms by (simp_all add: unat_word_ariths unat_div)
  then show ?thesis unfolding NowMillis_def NowMicros_def by simp
qed

section \<open>What is written\<close>

lemma log_pass_text: "0 < n \<Longrightarrow> fst (log_pass n h m) = take (n - 1) (h @ m)"
  by (auto simp: log_pass_def snprintf_def Let_def)

lemma log_pass_fits: "0 < n \<Longrightarrow> snd (log_pass n h m) < n \<longleftrightarrow> length (h @ m) < n"
  by (auto simp: log_pass_def snprintf_def Let_def)

text \<open>What the logger writes, on every message. A message below the level in use, and every message when the handler was
  removed, is dropped, whatever its level. The default handler writes the header and the message in one
  line; the text is cut after 29999 characters and never before, and nothing is ever written outside a buffer. A
  fatal message that is dropped does not end the program.\<close>

lemma log_writes_message:
  "let h1 = log_header now1 level filename line; h2 = log_header now2 level filename line in
   Log now1 now2 level filename line msg g =
    (if log_handler g = None \<or> level < log_level g then None
     else if log_handler g = Some DefaultHandler
     then Some (DefaultCall \<lparr>stderr_text = (if length (h1 @ msg) < 500 then h1 @ msg else take 29999 (h2 @ msg)) @ [CHR 10],
                             aborted = (level = LOGLEVEL_FATAL)\<rparr>)
     else map_option (\<lambda>h. AppCall (case h of AppHandler k \<Rightarrow> k | DefaultHandler \<Rightarrow> 0) level filename line msg) (log_handler g)) \<and>
    length (fst (log_pass 500 h1 msg)) < 500 \<and> length (fst (log_pass 30000 h2 msg)) < 30000"
proof -
  define h1 where "h1 = log_header now1 level filename line"
  define h2 where "h2 = log_header now2 level filename line"
  note h = h1_def [symmetric] h2_def [symmetric]
  have "DefaultLogHandler now1 now2 level filename line msg =
      \<lparr>stderr_text = (if length (h1 @ msg) < 500 then h1 @ msg else take 29999 (h2 @ msg)) @ [CHR 10], aborted = (level = LOGLEVEL_FATAL)\<rparr>"
    using log_pass_text [of 500 h1 msg] log_pass_text [of 30000 h2 msg] log_pass_fits [of 500 h1 msg]
    by (auto simp: DefaultLogHandler_def Let_def h case_prod_beta not_less)
  then show ?thesis using log_pass_text [of 500 h1 msg] log_pass_text [of 30000 h2 msg]
    unfolding Let_def h
    by (auto simp: Log_def not_less split: option.splits LogHandler.splits)
qed

end
