(* ===== verification/Spec2Isabelle.thy ===== *)
theory Spec2Isabelle
  imports DataTree_Race SaberServer_Claims TimerList_Claims System_Claims Link_Claims MySaber_Claims RunLoopThread
    CountDownLatch Logging
begin

text \<open>
  A verification library for saber, a coordination service in the manner of ZooKeeper.

  \<^bold>\<open>The program.\<close> Clients (\<^verbatim>\<open>saber/client\<close>) talk to servers (\<^verbatim>\<open>saber/server\<close>) over connections of the voyager
  library. A server holds a tree of nodes and the sessions of the clients for each paxos group; every write is
  proposed to the log of the group (the skywalker library), and every replica executes the log. A path belongs to
  the group that the hash of its root names. Reads are served by the master of the group. A client leaves watches;
  a write that touches a watched path sends one notification.

  \<^bold>\<open>Parts, theories and sources.\<close>
  \<^item> \<open>Prelude\<close>, \<open>Buckets\<close>: hash maps and sets as association lists and lists, machine integers, decimal
    formatting; maps of sets with the locale \<open>bucket_store\<close>. \<open>Strings\<close>: \<^verbatim>\<open>atoi\<close>, joining and splitting at a
    delimiter. \<open>Refinement\<close>: runs of operations, and the locales
    \<open>invariant_system\<close>, \<open>functional_refinement\<close> and \<open>replicated_machine\<close> that the components interpret.
  \<^item> \<open>Messages\<close>: the messages of \<^verbatim>\<open>proto/saber.proto\<close> and \<^verbatim>\<open>proto/server.proto\<close> as records and datatypes. The generated
    serialisers are the parameter \<open>pb_codec\<close>; \<open>Codec_Example\<close> states the laws some theorems assume and has
    codecs that satisfy them.
  \<^item> \<open>ServerWatch\<close>: \<^verbatim>\<open>server/server_watch_manager.cc\<close>, contract \<open>watch_table\<close> and \<open>watch_service\<close>. \<open>ClientWatch\<close>:
    \<^verbatim>\<open>client/client_watch_manager.cc\<close>, which interprets \<open>watch_table\<close> for data and for children.
  \<^item> \<open>DataTree\<close>: \<^verbatim>\<open>server/data_tree.cc\<close>, every operation with its only-check mode. \<open>DataTree_Inv\<close>, \<open>DataTree_Ops\<close>,
    \<open>DataTree_Props\<close>: the invariant (shape, exact indexes of children and ephemerals) and the effect of each
    operation. \<open>DataTree_Spec\<close>: the specification on a plain map of nodes. \<open>DataTree_Checkpoint\<close>, \<open>DataTree_Check\<close>,
    \<open>DataTree_Watch\<close>, \<open>DataTree_Replica\<close>: checkpoints, checks before a proposal, notifications, and agreement of
    two trees whose containers are ordered differently. \<open>DataTree_Claims\<close>: its properties. \<open>DataTree_Race\<close>: a read
    that leaves a watch, interleaved with a write at the grain of the critical sections.
  \<^item> \<open>SessionManager\<close>: \<^verbatim>\<open>server/session_manager.cc\<close>, contract \<open>fenced_store\<close>. \<open>SaberDB\<close>: \<^verbatim>\<open>server/saber_db.cc\<close>, all groups,
    \<open>Execute\<close> on every kind of entry, checkpoints. \<open>SaberDB_Replica\<close>, \<open>SaberDB_Props\<close>, \<open>SaberDB_Claims\<close>: replicas agree,
    groups are isolated, recovery catches up, sessions are fenced by their versions.
  \<^item> \<open>SaberSession\<close>: \<^verbatim>\<open>server/saber_session.cc\<close>, the requests of one session. \<open>SaberSession_Props\<close> and
    \<open>SaberSession_Claims\<close>: a session in its environment as a step relation, one request at a time and in
    order, and the path of a create from request to reply.
  \<^item> \<open>SessionId\<close>, \<open>IdleBuckets\<close>: \<^verbatim>\<open>util/sequence_number.h\<close> with the session ids, and the circular queue that closes
    idle connections, which refines ages in ticks.
  \<^item> \<open>SaberServer\<close>: \<^verbatim>\<open>server/saber_server.cc\<close>, connections, entries, sessions and their lives. \<open>SaberServer_Inv\<close>,
    \<open>SaberServer_Steps\<close>: the invariant of its pointers, stated on the functions behind the stores, and the step
    relation of a server, in which destructors and the pointers of other threads are steps of their own.
    \<open>SaberServer_Claims\<close>: when registrations can be locked and what happens when they cannot, the path of a connect
    request, the end of a session. \<open>ServerOptions\<close>: \<^verbatim>\<open>server/server_options.cc\<close> and
    \<^verbatim>\<open>SaberServer::Start\<close> with the configuration it hands to skywalker. \<open>ServerMain\<close>: \<^verbatim>\<open>main/saber_server_main.cc\<close>.
  \<^item> \<open>TimerList\<close>, \<open>TimerList_Props\<close>, \<open>TimerList_Claims\<close>: \<^verbatim>\<open>util/timerlist.cc\<close> and \<^verbatim>\<open>util/runloop.cc\<close>. \<open>RunLoopThread\<close>:
    \<^verbatim>\<open>util/runloop_thread.cc\<close>, its start and end in all interleavings of single accesses. \<open>CountDownLatch\<close>: \<^verbatim>\<open>util/countdownlatch.h\<close>, what a
    wakeup of one thread guarantees. \<open>Logging\<close>: \<^verbatim>\<open>util/logging.cc\<close> and \<^verbatim>\<open>util/timeops.cc\<close>, what is written and what is dropped.
  \<^item> \<open>ServerManager\<close>: \<^verbatim>\<open>client/server_manager_impl.cc\<close>, contract \<open>server_source\<close>. \<open>SaberClient\<close>:
    \<^verbatim>\<open>client/saber_client.cc\<close> and \<^verbatim>\<open>client/saber.cc\<close>. \<open>SaberClient_Props\<close>, \<open>SaberClient_Claims\<close>: the six kinds of requests seen
    uniformly, replies, and reconnects.
  \<^item> \<open>MySaber\<close>: \<^verbatim>\<open>main/mysaber.cc\<close> and \<^verbatim>\<open>main/saber_client_main.cc\<close>, the interactive client. \<open>MySaber_Props\<close>, \<open>MySaber_Claims\<close>: a
    grammar of its input and the equivalence with the prompts; prompts and replies alternate.
  \<^item> \<open>Link\<close>, \<open>Link_Props\<close>, \<open>Link_Claims\<close>: a client and its session over one connection that stays up, as a step
    relation: requests are completed exactly once, in order, and never stuck.
  \<^item> \<open>System_Claims\<close>: client and server together: from the command line of the servers to the list of a client, and,
    as lemmas, pings against idle buckets and a request that is answered twice.

  \<^bold>\<open>How state and effects are modelled.\<close> A class is a record, an operation a function from the state to the new state
  and its results. Calls on other parties (messages sent, connections closed, proposals, timers, callbacks of
  the application) are values of an effect type, listed in the order of the calls. What skywalker, voyager, the
  clock and the operating system answer are arguments: \<open>node_env\<close>, \<open>server_env\<close>, \<open>checkpoint_io\<close>, \<open>split\<close>, \<open>shuffle\<close>,
  \<open>alloc\<close>, \<open>now\<close>. Integers keep their width where the code can wrap. An \<^verbatim>\<open>unordered_map\<close> is an association list whose
  order is its iteration order; the theorems on replicas hold for every order. An \<^verbatim>\<open>assert\<close> has no effect, as in
  the release build; where it can be shown to hold it is a theorem, and the
  theorems on failures say which assertion they contradict.

  \<^bold>\<open>Concurrency.\<close> An operation under a mutex, and a callback of an event loop, is one step; the runs of a session and
  of a server are all interleavings of such steps. \<open>DataTree_Race\<close> splits a read and a write of the tree at their
  critical sections, \<open>RunLoopThread\<close> and \<open>CountDownLatch\<close> split theirs at the accesses to shared variables, which are
  taken to be atomic and in order. The shared pointers of the server are modelled by the stores of objects, by the rule
  that an entry dies when nothing holds it, and by the list \<open>srv_locked\<close> of the pointers to sessions that other threads
  have: a callback that delivers a reply, and an entry whose destructor has run but whose members have not yet
  ended. \<^verbatim>\<open>unique()\<close> counts entries and these pointers.

  \<^bold>\<open>Termination.\<close> Every function is total except three. \<open>run_due\<close>, the loop of \<^verbatim>\<open>RunTimerProcs\<close>, need not end when callbacks
  start timers that are due at once; it is a partial function into options, and it is proved to return when they do
  not. \<open>ask\<close> and \<open>GetLine\<close>, the prompts of the interactive client, call themselves again on input they do not accept; they
  are proved to return exactly if the input holds a command. \<open>run_rounds\<close> takes the rounds of the endless \<^verbatim>\<open>Loop\<close> as a
  list. No other fuel is used.

  \<^bold>\<open>Not modelled.\<close> The serialisers generated from the proto files, skywalker and voyager (parameters); the formatting of the
  arguments of log messages and sleeping; the tests, the benchmark and the version header. The numbers of requests
  are assumed not to wrap in \<open>Link\<close>. A callback of the server that does not end an entry or a lock of a session is
  one step, also where it releases a mutex in between.

  \<^bold>\<open>What could come next.\<close> The callbacks of the server split at every mutex, and reconnects in the link of client and
  session.
\<close>

end
